(* ===== verification/Prelude.thy ===== *)
theory Prelude
  imports Main "HOL-Library.Word" "HOL-Library.Multiset"
begin

text \<open>
  Shared vocabulary of the development: the width of Go's \<open>int\<close>, the MySQL column
  limits the persistence model checks, the outcome of a handler that may panic, the
  collections of equations the component proofs share, and generic lemmas on lists.
\<close>

named_theorems db_simps "equations of the persistence gateway, unfolded by the handler proofs"
named_theorems wf_intros "rules that establish well-formedness of persisted tables"

subsection \<open>Machine integers\<close>

text \<open>
  The program runs on a 64-bit platform: Go's \<open>int\<close> and \<open>int64\<close> are 64-bit two's
  complement values. gorm maps a Go \<open>int\<close> field to a MySQL \<open>int\<close> column, which is
  32 bits wide; a \<open>string\<close> field becomes \<open>varchar(255)\<close>.
\<close>

type_synonym go_int = "64 word"

definition int32_fits :: "go_int \<Rightarrow> bool" where
  "int32_fits v \<longleftrightarrow> - (2 ^ 31) \<le> sint v \<and> sint v < 2 ^ 31"

definition varchar_fits :: "string \<Rightarrow> bool" where
  "varchar_fits s \<longleftrightarrow> length s \<le> 255"

abbreviation int32_max :: int where
  "int32_max \<equiv> 2 ^ 31 - 1"

subsection \<open>Outcomes of a request handler\<close>

text \<open>
  A Go handler either returns normally or panics (for instance on a nil pointer);
  \<open>net/http\<close> recovers the panic per request, so the server survives and the client gets
  no response.
\<close>

datatype 'a outcome = Panic | Ok 'a

subsection \<open>Generic lemmas on lists\<close>

lemma find_Some_in_set [intro]: "find P xs = Some x \<Longrightarrow> x \<in> set xs"
  by (induction xs) (auto split: if_splits)

lemma find_Some_holds: "find P xs = Some x \<Longrightarrow> P x"
  by (induction xs) (auto split: if_splits)

lemma find_None_iff': "find P xs = None \<longleftrightarrow> (\<forall>x\<in>set xs. \<not> P x)"
  by (induction xs) auto

lemma sint_word_of_int_int32 [simp]:
  "- (2 ^ 31) \<le> i \<Longrightarrow> i < 2 ^ 31 \<Longrightarrow> sint (word_of_int i :: go_int) = i"
  by (simp add: signed_of_int signed_take_bit_int_eq_self)

lemma find_sorted_least:
  "sorted_wrt (<) (map (f :: 'a \<Rightarrow> 'b :: order) xs) \<Longrightarrow> find P xs = Some x \<Longrightarrow> y \<in> set xs \<Longrightarrow> P y \<Longrightarrow> f x \<le> f y"
proof (induction xs)
  case Nil then show ?case by simp
next
  case (Cons a xs)
  show ?case
  proof (cases "P a")
    case True
    then have "x = a" using Cons.prems(2) by simp
    then show ?thesis using Cons.prems(1,3) by (auto simp: less_imp_le)
  next
    case False
    then have "y \<in> set xs" "find P xs = Some x" using Cons.prems(2,3,4) by auto
    then show ?thesis using Cons by simp
  qed
qed

lemma find_append_ex: "list_ex P xs \<Longrightarrow> find P (xs @ ys) = find P xs"
  by (induction xs) auto

lemma find_unique_key:
  "distinct (map f ys) \<Longrightarrow> u \<in> set ys \<Longrightarrow> f u = k \<Longrightarrow> find (\<lambda>x. f x = k) ys = Some u"
  by (induction ys) (auto simp: rev_image_eqI)

lemma mset_concat_map_update:
  "i < length xs \<Longrightarrow> f (xs ! i) = [] \<Longrightarrow>
   mset (concat (map f (xs[i := x]))) = mset (concat (map f xs)) + mset (f x)"
proof (induction xs arbitrary: i)
  case Nil then show ?case by simp
next
  case (Cons y ys)
  then show ?case by (cases i) (simp_all add: add_ac)
qed

lemma map_update_same: "i < length xs \<Longrightarrow> g x = g (xs ! i) \<Longrightarrow> map g (xs[i := x]) = map g xs"
proof -
  assume i: "i < length xs" and g: "g x = g (xs ! i)"
  have "map g (xs[i := x]) = (map g xs)[i := map g xs ! i]" using i g by (simp add: map_update)
  then show ?thesis by (simp only: list_update_id)
qed

end
