(* ===== verification/Entities.thy ===== *)
theory Entities
  imports Prelude
begin

text \<open>
  The six persisted entity types of \<open>src/main.go\<close> (User, Toko, Alamat, Kategori,
  Produk, Transaksi) as records, one field per struct field. Go's \<open>int\<close> fields are
  \<open>go_int\<close>. The \<open>time.Time\<close> fields (birth date and the gorm timestamps) and the
  association slices \<open>User.Toko\<close>, \<open>User.Alamat\<close>, \<open>Toko.Produk\<close> are not modelled
  (see the root theory).
\<close>

record user =
  user_id :: go_int
  nama :: string
  kata_sandi :: string
  user_no_telp :: string
  jenis_kelamin :: string
  tentang :: string
  pekerjaan :: string
  email :: string
  id_provinsi :: string
  id_kota :: string
  is_admin :: bool

record toko =
  toko_id :: go_int
  toko_id_user :: go_int
  nama_toko :: string
  url_toko :: string

record alamat =
  alamat_id :: go_int
  alamat_id_user :: go_int
  judul_alamat :: string
  nama_penerima :: string
  alamat_no_telp :: string
  detail_alamat :: string

record kategori =
  kategori_id :: go_int
  nama_kategori :: string

record produk =
  produk_id :: go_int
  id_toko :: go_int
  id_category :: go_int
  nama_produk :: string
  slug :: string
  harga_reseller :: go_int
  harga_konsumen :: go_int
  stok :: go_int
  deskripsi :: string

record transaksi =
  transaksi_id :: go_int
  transaksi_id_user :: go_int
  id_alamat :: go_int
  harga_total :: go_int
  kode_invoice :: string
  metode_pembayaran :: string

text \<open>The zero values Go gives a struct declared with \<open>var u User\<close>.\<close>

definition zero_user :: user where
  "zero_user = \<lparr>user_id = 0, nama = [], kata_sandi = [], user_no_telp = [], jenis_kelamin = [],
     tentang = [], pekerjaan = [], email = [], id_provinsi = [], id_kota = [], is_admin = False\<rparr>"

end
