(* ===== verification/Gorm.thy ===== *)
theory Gorm
  imports Entities
begin

text \<open>
  The persistence gateway: gorm v1 (\<open>github.com/jinzhu/gorm\<close>) over MySQL, as the
  handlers of \<open>src/main.go\<close> use it (\<open>db.Create\<close>, \<open>db.First(&x, id)\<close>,
  \<open>db.Where(...).First\<close>, \<open>db.Where(...).Find\<close>, \<open>db.Find\<close>,
  \<open>db.Model(...).Where(...).Count\<close>). Neither library is part of the repository, so
  this theory is modelled from their documented behaviour:
  \<^item> a table is its rows in primary-key order (InnoDB's clustered index, the order of an
    unindexed scan and of gorm's \<open>ORDER BY id\<close> in \<open>First\<close>) and its
    \<open>AUTO_INCREMENT\<close> counter;
  \<^item> \<open>Create\<close> with a zero primary key takes the counter's value and writes it back into
    the struct; a non-zero key is inserted as given and raises the counter past it;
  \<^item> the table created by \<open>AutoMigrate\<close> has a 32-bit \<open>int\<close> column for each Go
    \<open>int\<close> and \<open>varchar(255)\<close> for each \<open>string\<close>; in MySQL's default strict mode a
    value that does not fit fails the insert, which then leaves the table and the struct
    unchanged;
  \<^item> \<open>Create\<close> returns a new \<open>*gorm.DB\<close> carrying the error; the \<open>Error\<close> field of
    the handle it was called on is not touched (\<open>root_error\<close> below).
  The operations are generic in the row type: a table is parameterised by the primary-key
  selector and updater, and the lemmas of this theory are proved once for every entity.
\<close>

datatype db_error = ErrDuplicateEntry | ErrOutOfRange | ErrDataTooLong | ErrAutoIncrement

record 'r table =
  rows :: "'r list"
  auto_inc :: int

definition empty_table :: "'r table" where
  "empty_table = \<lparr>rows = [], auto_inc = 1\<rparr>"

subsection \<open>Generic operations on a table\<close>

definition tbl_key :: "('r \<Rightarrow> go_int) \<Rightarrow> 'r \<Rightarrow> int" where
  "tbl_key idf x = sint (idf x)"

definition tbl_insert :: "('r \<Rightarrow> go_int) \<Rightarrow> 'r \<Rightarrow> 'r table \<Rightarrow> 'r list" where
  "tbl_insert idf r t = insort_key (tbl_key idf) r (rows t)"

definition tbl_create ::
  "('r \<Rightarrow> go_int) \<Rightarrow> (go_int \<Rightarrow> 'r \<Rightarrow> 'r) \<Rightarrow> ('r \<Rightarrow> db_error option) \<Rightarrow> 'r table \<Rightarrow> 'r
   \<Rightarrow> db_error option \<times> 'r table \<times> 'r" where
  "tbl_create idf setid check t r =
     (case check r of
        Some e \<Rightarrow> (Some e, t, r)
      | None \<Rightarrow>
          if idf r = 0 then
            (if int32_max < auto_inc t then (Some ErrAutoIncrement, t, r)
             else (let r' = setid (word_of_int (auto_inc t)) r in
                   (None, t\<lparr>rows := tbl_insert idf r' t, auto_inc := auto_inc t + 1\<rparr>, r')))
          else if list_ex (\<lambda>x. idf x = idf r) (rows t) then (Some ErrDuplicateEntry, t, r)
          else (None, t\<lparr>rows := tbl_insert idf r t,
                        auto_inc := max (auto_inc t) (sint (idf r) + 1)\<rparr>, r))"

text \<open>\<open>db.First(&x, id)\<close>: the row with that primary key, or \<open>ErrRecordNotFound\<close>.\<close>

definition tbl_first_id :: "('r \<Rightarrow> go_int) \<Rightarrow> 'r table \<Rightarrow> go_int \<Rightarrow> 'r option" where
  "tbl_first_id idf t i = find (\<lambda>x. idf x = i) (rows t)"

text \<open>\<open>db.Where(cond).First(&x)\<close>: the matching row with the least key.\<close>

definition tbl_where_first :: "('r \<Rightarrow> bool) \<Rightarrow> 'r table \<Rightarrow> 'r option" where
  "tbl_where_first p t = find p (rows t)"

text \<open>\<open>db.Where(cond).Find(&xs)\<close> and \<open>db.Find(&xs)\<close>: all matching rows.\<close>

definition tbl_where :: "('r \<Rightarrow> bool) \<Rightarrow> 'r table \<Rightarrow> 'r list" where
  "tbl_where p t = filter p (rows t)"

definition tbl_count :: "('r \<Rightarrow> bool) \<Rightarrow> 'r table \<Rightarrow> nat" where
  "tbl_count p t = length (filter p (rows t))"

subsection \<open>Column constraints of the migrated schema\<close>

definition user_check :: "user \<Rightarrow> db_error option" where
  "user_check u =
     (if \<not> int32_fits (user_id u) then Some ErrOutOfRange
      else if \<not> list_all varchar_fits [nama u, kata_sandi u, user_no_telp u, jenis_kelamin u,
                 tentang u, pekerjaan u, email u, id_provinsi u, id_kota u]
      then Some ErrDataTooLong else None)"

definition toko_check :: "toko \<Rightarrow> db_error option" where
  "toko_check s =
     (if \<not> list_all int32_fits [toko_id s, toko_id_user s] then Some ErrOutOfRange
      else if \<not> list_all varchar_fits [nama_toko s, url_toko s] then Some ErrDataTooLong
      else None)"

definition alamat_check :: "alamat \<Rightarrow> db_error option" where
  "alamat_check a =
     (if \<not> list_all int32_fits [alamat_id a, alamat_id_user a] then Some ErrOutOfRange
      else if \<not> list_all varchar_fits [judul_alamat a, nama_penerima a, alamat_no_telp a,
                 detail_alamat a]
      then Some ErrDataTooLong else None)"

definition kategori_check :: "kategori \<Rightarrow> db_error option" where
  "kategori_check k =
     (if \<not> int32_fits (kategori_id k) then Some ErrOutOfRange
      else if \<not> varchar_fits (nama_kategori k) then Some ErrDataTooLong else None)"

definition produk_check :: "produk \<Rightarrow> db_error option" where
  "produk_check p =
     (if \<not> list_all int32_fits [produk_id p, id_toko p, id_category p, harga_reseller p,
              harga_konsumen p, stok p]
      then Some ErrOutOfRange
      else if \<not> list_all varchar_fits [nama_produk p, slug p, deskripsi p]
      then Some ErrDataTooLong else None)"

definition transaksi_check :: "transaksi \<Rightarrow> db_error option" where
  "transaksi_check x =
     (if \<not> list_all int32_fits [transaksi_id x, transaksi_id_user x, id_alamat x, harga_total x]
      then Some ErrOutOfRange
      else if \<not> list_all varchar_fits [kode_invoice x, metode_pembayaran x]
      then Some ErrDataTooLong else None)"

subsection \<open>The database\<close>

record db_state =
  users :: "user table"
  tokos :: "toko table"
  alamats :: "alamat table"
  kategoris :: "kategori table"
  produks :: "produk table"
  transaksis :: "transaksi table"
  root_error :: "db_error option"

definition empty_db :: db_state where
  "empty_db = \<lparr>users = empty_table, tokos = empty_table, alamats = empty_table,
     kategoris = empty_table, produks = empty_table, transaksis = empty_table, root_error = None\<rparr>"

definition create_user :: "db_state \<Rightarrow> user \<Rightarrow> db_error option \<times> db_state \<times> user" where
  "create_user d u =
     (let (e, t, u') = tbl_create user_id (\<lambda>i x. x\<lparr>user_id := i\<rparr>) user_check (users d) u
      in (e, d\<lparr>users := t\<rparr>, u'))"

definition create_toko :: "db_state \<Rightarrow> toko \<Rightarrow> db_error option \<times> db_state \<times> toko" where
  "create_toko d s =
     (let (e, t, s') = tbl_create toko_id (\<lambda>i x. x\<lparr>toko_id := i\<rparr>) toko_check (tokos d) s
      in (e, d\<lparr>tokos := t\<rparr>, s'))"

definition create_alamat :: "db_state \<Rightarrow> alamat \<Rightarrow> db_error option \<times> db_state \<times> alamat" where
  "create_alamat d a =
     (let (e, t, a') = tbl_create alamat_id (\<lambda>i x. x\<lparr>alamat_id := i\<rparr>) alamat_check (alamats d) a
      in (e, d\<lparr>alamats := t\<rparr>, a'))"

definition create_kategori :: "db_state \<Rightarrow> kategori \<Rightarrow> db_error option \<times> db_state \<times> kategori" where
  "create_kategori d k =
     (let (e, t, k') = tbl_create kategori_id (\<lambda>i x. x\<lparr>kategori_id := i\<rparr>) kategori_check
                         (kategoris d) k
      in (e, d\<lparr>kategoris := t\<rparr>, k'))"

definition create_produk :: "db_state \<Rightarrow> produk \<Rightarrow> db_error option \<times> db_state \<times> produk" where
  "create_produk d p =
     (let (e, t, p') = tbl_create produk_id (\<lambda>i x. x\<lparr>produk_id := i\<rparr>) produk_check (produks d) p
      in (e, d\<lparr>produks := t\<rparr>, p'))"

definition create_transaksi :: "db_state \<Rightarrow> transaksi \<Rightarrow> db_error option \<times> db_state \<times> transaksi" where
  "create_transaksi d x =
     (let (e, t, x') = tbl_create transaksi_id (\<lambda>i y. y\<lparr>transaksi_id := i\<rparr>) transaksi_check
                         (transaksis d) x
      in (e, d\<lparr>transaksis := t\<rparr>, x'))"

definition first_user :: "db_state \<Rightarrow> go_int \<Rightarrow> user option" where
  "first_user d i = tbl_first_id user_id (users d) i"

definition first_toko :: "db_state \<Rightarrow> go_int \<Rightarrow> toko option" where
  "first_toko d i = tbl_first_id toko_id (tokos d) i"

subsection \<open>Well-formed tables and their abstraction\<close>

text \<open>
  A table is well formed when its keys are strictly increasing (so the primary key is
  unique and the list is in key order), no key is the zero value gorm reserves for
  ``unassigned'', and the counter is above every key. Its abstraction is the finite map
  from primary key to row that a reader of the SQL schema has in mind.
\<close>

definition tbl_wf :: "('r \<Rightarrow> go_int) \<Rightarrow> 'r table \<Rightarrow> bool" where
  "tbl_wf idf t \<longleftrightarrow> sorted_wrt (<) (map (tbl_key idf) (rows t)) \<and>
     list_all (\<lambda>x. idf x \<noteq> 0 \<and> tbl_key idf x < auto_inc t) (rows t) \<and> 1 \<le> auto_inc t"

definition tbl_abs :: "('r \<Rightarrow> go_int) \<Rightarrow> 'r table \<Rightarrow> go_int \<rightharpoonup> 'r" where
  "tbl_abs idf t = map_of (map (\<lambda>x. (idf x, x)) (rows t))"

definition db_wf :: "db_state \<Rightarrow> bool" where
  "db_wf d \<longleftrightarrow> tbl_wf user_id (users d) \<and> tbl_wf toko_id (tokos d) \<and>
     tbl_wf alamat_id (alamats d) \<and> tbl_wf kategori_id (kategoris d) \<and>
     tbl_wf produk_id (produks d) \<and> tbl_wf transaksi_id (transaksis d)"

subsection \<open>Generic lemmas on tables\<close>

lemma sorted_wrt_insort_key_fresh:
  "sorted_wrt (<) (map f xs) \<Longrightarrow> f x \<notin> f ` set xs \<Longrightarrow> sorted_wrt (<) (map f (insort_key f x xs))"
  by (simp add: strict_sorted_iff sorted_insort_key distinct_insort_key)

lemma tbl_key_eq_iff: "tbl_key idf x = tbl_key idf y \<longleftrightarrow> idf x = idf y"
  by (auto simp: tbl_key_def intro: signed_word_eqI)

lemma distinct_map_insort_key:
  "distinct (map g (insort_key f x xs)) \<longleftrightarrow> g x \<notin> g ` set xs \<and> distinct (map g xs)"
  by (induction xs) (auto simp: set_insort_key)

lemma tbl_wf_distinct: "tbl_wf idf t \<Longrightarrow> distinct (map idf (rows t))"
proof -
  assume "tbl_wf idf t"
  then have "distinct (map (tbl_key idf) (rows t))" by (simp add: tbl_wf_def strict_sorted_iff)
  moreover have "map (tbl_key idf) (rows t) = map sint (map idf (rows t))"
    by (simp add: tbl_key_def)
  ultimately have "distinct (map sint (map idf (rows t)))" by simp
  then show ?thesis by (rule distinct_map [THEN iffD1, THEN conjunct1])
qed

lemma auto_key:
  assumes "1 \<le> a" and "a \<le> int32_max"
  shows "sint (word_of_int a :: go_int) = a"
  using assms by (simp add: sint_word_of_int_int32)

lemma tbl_create_cases:
  assumes "tbl_create idf setid check t r = (e, t', r')"
  obtains (rejected) "t' = t" "r' = r" "e \<noteq> None"
  | (auto) "check r = None" "idf r = 0" "auto_inc t \<le> int32_max"
      "r' = setid (word_of_int (auto_inc t)) r" "e = None"
      "t' = t\<lparr>rows := insort_key (tbl_key idf) r' (rows t), auto_inc := auto_inc t + 1\<rparr>"
  | (explicit) "check r = None" "idf r \<noteq> 0" "\<not> list_ex (\<lambda>x. idf x = idf r) (rows t)"
      "r' = r" "e = None"
      "t' = t\<lparr>rows := insort_key (tbl_key idf) r (rows t), auto_inc := max (auto_inc t) (sint (idf r) + 1)\<rparr>"
proof (cases "check r")
  case (Some a)
  then have "e = Some a" "t' = t" "r' = r" using assms by (auto simp add: tbl_create_def)
  then show ?thesis using that(1) by simp
next
  case None
  then show ?thesis using that assms
    by (auto simp: tbl_create_def tbl_insert_def Let_def split: if_splits)
qed

lemma tbl_create_wf:
  assumes wf: "tbl_wf idf t" and lens: "\<And>i x. idf (setid i x) = i"
    and c: "tbl_create idf setid check t r = (e, t', r')"
  shows "tbl_wf idf t'"
  using c
proof (cases rule: tbl_create_cases)
  case rejected
  then show ?thesis using wf by simp
next
  case auto
  have a1: "1 \<le> auto_inc t" using wf by (simp add: tbl_wf_def)
  have k: "tbl_key idf r' = auto_inc t"
    using auto a1 by (simp add: tbl_key_def lens auto_key)
  have lt: "\<forall>x\<in>set (rows t). tbl_key idf x < auto_inc t" using wf by (simp add: tbl_wf_def list_all_iff)
  then have "tbl_key idf r' \<notin> tbl_key idf ` set (rows t)" using k by auto
  then have "sorted_wrt (<) (map (tbl_key idf) (insort_key (tbl_key idf) r' (rows t)))"
    using wf by (simp add: tbl_wf_def sorted_wrt_insort_key_fresh)
  moreover have "idf r' \<noteq> 0" using k a1 by (auto simp: tbl_key_def)
  ultimately show ?thesis using auto wf k lt
    by (auto simp: tbl_wf_def list_all_iff set_insort_key)
next
  case explicit
  have "tbl_key idf r \<notin> tbl_key idf ` set (rows t)"
    using explicit(3) by (auto simp: tbl_key_eq_iff list_ex_iff)
  then have "sorted_wrt (<) (map (tbl_key idf) (insort_key (tbl_key idf) r (rows t)))"
    using wf by (simp add: tbl_wf_def sorted_wrt_insort_key_fresh)
  then show ?thesis using explicit wf
    by (auto simp: tbl_wf_def list_all_iff set_insort_key tbl_key_def)
qed

lemma map_of_insort_fresh:
  assumes "distinct (map idf xs)" and "idf x \<notin> idf ` set xs"
  shows "map_of (map (\<lambda>y. (idf y, y)) (insort_key f x xs)) = (map_of (map (\<lambda>y. (idf y, y)) xs))(idf x \<mapsto> x)"
proof -
  have d1: "distinct (map fst (map (\<lambda>y. (idf y, y)) (insort_key f x xs)))"
    using assms by (simp add: o_def distinct_map_insort_key)
  have d2: "distinct (map fst ((idf x, x) # map (\<lambda>y. (idf y, y)) xs))"
    using assms by (simp add: o_def)
  have "set (map (\<lambda>y. (idf y, y)) (insort_key f x xs)) = set ((idf x, x) # map (\<lambda>y. (idf y, y)) xs)"
    by (simp add: set_insort_key)
  then have "map_of (map (\<lambda>y. (idf y, y)) (insort_key f x xs)) = map_of ((idf x, x) # map (\<lambda>y. (idf y, y)) xs)"
    using map_of_inject_set [OF d1 d2] by blast
  then show ?thesis by simp
qed

lemma tbl_create_refines:
  assumes wf: "tbl_wf idf t" and lens: "\<And>i x. idf (setid i x) = i"
    and c: "tbl_create idf setid check t r = (None, t', r')"
  shows "tbl_abs idf t' = (tbl_abs idf t)(idf r' \<mapsto> r') \<and> tbl_abs idf t (idf r') = None"
  using c
proof (cases rule: tbl_create_cases)
  case rejected
  then show ?thesis by simp
next
  case auto
  have a1: "1 \<le> auto_inc t" using wf by (simp add: tbl_wf_def)
  have k: "tbl_key idf r' = auto_inc t"
    using auto a1 by (simp add: tbl_key_def lens auto_key)
  have "\<forall>x\<in>set (rows t). tbl_key idf x < auto_inc t" using wf by (simp add: tbl_wf_def list_all_iff)
  then have fresh: "idf r' \<notin> idf ` set (rows t)" using k by (auto simp: tbl_key_eq_iff [symmetric])
  show ?thesis using auto fresh tbl_wf_distinct [OF wf]
    by (simp add: tbl_abs_def map_of_insort_fresh map_of_eq_None_iff image_iff)
next
  case explicit
  have fresh: "idf r' \<notin> idf ` set (rows t)" using explicit by (auto simp: list_ex_iff)
  show ?thesis using explicit fresh tbl_wf_distinct [OF wf]
    by (simp add: tbl_abs_def map_of_insort_fresh map_of_eq_None_iff image_iff)
qed

lemma tbl_first_id_abs: "tbl_first_id idf t i = tbl_abs idf t i"
proof -
  have "\<And>xs. find (\<lambda>x. idf x = i) xs = map_of (map (\<lambda>x. (idf x, x)) xs) i"
    by (induct_tac xs) auto
  then show ?thesis by (simp add: tbl_first_id_def tbl_abs_def)
qed

lemma tbl_create_rows:
  "tbl_create idf setid check t r = (e, t', r') \<Longrightarrow>
     rows t' = rows t \<or> rows t' = insort_key (tbl_key idf) r' (rows t)"
  by (erule tbl_create_cases) simp_all

lemma tbl_create_ok_rows:
  "tbl_create idf setid check t r = (None, t', r') \<Longrightarrow> rows t' = insort_key (tbl_key idf) r' (rows t)"
  by (erule tbl_create_cases) simp_all

lemma insort_key_greatest: "\<forall>x\<in>set xs. f x < f a \<Longrightarrow> insort_key f a xs = xs @ [a]"
  by (induction xs) auto

lemma tbl_create_auto_append:
  assumes wf: "tbl_wf idf t" and lens: "\<And>i x. idf (setid i x) = i"
    and c: "check r = None" and z: "idf r = 0" and lim: "auto_inc t \<le> int32_max"
  shows "tbl_create idf setid check t r =
           (None, t\<lparr>rows := rows t @ [setid (word_of_int (auto_inc t)) r], auto_inc := auto_inc t + 1\<rparr>,
            setid (word_of_int (auto_inc t)) r)"
proof -
  have a1: "1 \<le> auto_inc t" using wf by (simp add: tbl_wf_def)
  have k: "tbl_key idf (setid (word_of_int (auto_inc t)) r) = auto_inc t"
    using a1 lim by (simp add: tbl_key_def lens auto_key)
  have "\<forall>x\<in>set (rows t). tbl_key idf x < auto_inc t" using wf by (simp add: tbl_wf_def list_all_iff)
  then have "insort_key (tbl_key idf) (setid (word_of_int (auto_inc t)) r) (rows t) =
               rows t @ [setid (word_of_int (auto_inc t)) r]"
    using k by (simp add: insort_key_greatest)
  then show ?thesis using c z lim by (simp add: tbl_create_def tbl_insert_def Let_def)
qed

lemma tbl_create_rejected:
  "check r = Some e \<Longrightarrow> tbl_create idf setid check t r = (Some e, t, r)"
  by (simp add: tbl_create_def)

subsection \<open>Rows kept and added by an insert\<close>

lemma tbl_create_row:
  "tbl_create idf setid check t r = (e, t', r') \<Longrightarrow> r' = r \<or> (\<exists>i. r' = setid i r)"
  by (erule tbl_create_cases) auto

lemma tbl_create_mono:
  "tbl_create idf setid check t r = (e, t', r') \<Longrightarrow> set (rows t) \<subseteq> set (rows t')"
  by (erule tbl_create_cases) (auto simp: set_insort_key)

lemma tbl_create_list_all:
  assumes "tbl_create idf setid check t r = (e, t', r')" and "list_all Q (rows t)"
    and "Q r" and "\<And>i. Q (setid i r)"
  shows "list_all Q (rows t')"
  using assms(1)
proof (cases rule: tbl_create_cases)
  case rejected then show ?thesis using assms(2) by simp
next
  case auto then show ?thesis using assms(2,4) by (simp add: list_all_iff set_insort_key)
next
  case explicit then show ?thesis using assms(2,3) by (simp add: list_all_iff set_insort_key)
qed

lemma tbl_create_distinct_map:
  assumes "tbl_create idf setid check t r = (e, t', r')" and "distinct (map g (rows t))"
    and "g r \<notin> g ` set (rows t)" and "\<And>i. g (setid i r) = g r"
  shows "distinct (map g (rows t'))"
  using assms(1)
proof (cases rule: tbl_create_cases)
  case rejected then show ?thesis using assms(2) by simp
next
  case auto then show ?thesis using assms(2,3,4) by (simp add: distinct_map_insort_key)
next
  case explicit then show ?thesis using assms(2,3) by (simp add: distinct_map_insort_key)
qed

lemma list_ex_mono: "list_ex P xs \<Longrightarrow> set xs \<subseteq> set ys \<Longrightarrow> list_ex P ys"
  by (auto simp: list_ex_iff)

lemma list_all_list_ex_mono:
  "list_all (\<lambda>x. list_ex (P x) xs) zs \<Longrightarrow> set xs \<subseteq> set ys \<Longrightarrow> list_all (\<lambda>x. list_ex (P x) ys) zs"
  unfolding list_all_iff list_ex_iff by blast

subsection \<open>The database\<close>

lemma empty_table_wf [simp]: "tbl_wf idf empty_table"
  by (simp add: tbl_wf_def empty_table_def)

lemma empty_db_wf: "db_wf empty_db"
  by (simp add: db_wf_def empty_db_def)

lemma create_user_wf [wf_intros]: "db_wf d \<Longrightarrow> create_user d u = (e, d', u') \<Longrightarrow> db_wf d'"
  by (auto simp: db_wf_def create_user_def split: prod.splits intro: tbl_create_wf [rotated 2])

lemma create_toko_wf [wf_intros]: "db_wf d \<Longrightarrow> create_toko d s = (e, d', s') \<Longrightarrow> db_wf d'"
  by (auto simp: db_wf_def create_toko_def split: prod.splits intro: tbl_create_wf [rotated 2])

lemma create_alamat_wf [wf_intros]: "db_wf d \<Longrightarrow> create_alamat d a = (e, d', a') \<Longrightarrow> db_wf d'"
  by (auto simp: db_wf_def create_alamat_def split: prod.splits intro: tbl_create_wf [rotated 2])

lemma create_kategori_wf [wf_intros]:
  "db_wf d \<Longrightarrow> create_kategori d k = (e, d', k') \<Longrightarrow> db_wf d'"
  by (auto simp: db_wf_def create_kategori_def split: prod.splits intro: tbl_create_wf [rotated 2])

lemma create_produk_wf [wf_intros]: "db_wf d \<Longrightarrow> create_produk d p = (e, d', p') \<Longrightarrow> db_wf d'"
  by (auto simp: db_wf_def create_produk_def split: prod.splits intro: tbl_create_wf [rotated 2])

lemma create_transaksi_wf [wf_intros]:
  "db_wf d \<Longrightarrow> create_transaksi d x = (e, d', x') \<Longrightarrow> db_wf d'"
  by (auto simp: db_wf_def create_transaksi_def split: prod.splits intro: tbl_create_wf [rotated 2])

lemma first_toko_None_iff: "first_toko d i = None \<longleftrightarrow> \<not> list_ex (\<lambda>s. toko_id s = i) (rows (tokos d))"
  by (simp add: first_toko_def tbl_first_id_def find_None_iff' list_ex_iff)

lemma tbl_where_owner_rows:
  assumes "tbl_wf idf t"
  shows "set (tbl_where P t) = {x \<in> set (rows t). P x} \<and> sorted_wrt (<) (map (\<lambda>x. sint (idf x)) (tbl_where P t))"
proof -
  have "sorted_wrt (<) (map (tbl_key idf) (rows t))" using assms by (simp add: tbl_wf_def)
  then have "sorted_wrt (\<lambda>x y. tbl_key idf x < tbl_key idf y) (filter P (rows t))"
    by (simp add: sorted_wrt_map sorted_wrt_filter)
  then show ?thesis by (auto simp: tbl_where_def sorted_wrt_map tbl_key_def)
qed

end
