(* ===== verification/Http.thy ===== *)
theory Http
  imports Gorm
begin

text \<open>
  The interface every handler of \<open>src/main.go\<close> shares: the package-level
  \<open>var db *gorm.DB\<close> handle, the request as a handler reads it, the response it
  writes, and the shape \<open>func(w http.ResponseWriter, r *http.Request)\<close> of a handler,
  here a function from the handle and the request to the new handle and the response,
  or a panic.
\<close>

text \<open>
  The package-level handle: \<open>None\<close> is the nil pointer; \<open>Some d\<close> a connected database
  with contents \<open>d\<close>. Every gorm method dereferences the handle, so on nil it panics.
\<close>

type_synonym db_handle = "db_state option"

text \<open>The JSON documents the handlers encode.\<close>

datatype json =
    JError string
  | JToken string
  | JRegister string user toko
  | JToko toko
  | JAlamat alamat
  | JAlamats "alamat list"
  | JKategori kategori
  | JKategoris "kategori list"
  | JProduk produk
  | JProduks "produk list"
  | JTransaksi transaksi
  | JTransaksis "transaksi list"
  | JText string
  | JNone

record response =
  status :: nat
  body :: json

text \<open>
  What a handler reads from \<open>*http.Request\<close>: method and path (for the router), the
  \<open>Authorization\<close> header (\<open>""\<close> when absent), the parsed form \<open>r.Form\<close> (query and
  body values, in order), the user decoded from a JSON body (the zero user where decoding
  fails: the error is ignored), the route variables \<open>mux.Vars(r)\<close>, and the Unix time
  at which it runs.
\<close>

record request =
  req_method :: string
  req_path :: string
  req_auth :: string
  req_form :: "(string \<times> string) list"
  req_body :: user
  req_vars :: "(string \<times> string) list"
  req_now :: go_int

type_synonym handler = "db_handle \<Rightarrow> request \<Rightarrow> (db_handle \<times> response) outcome"

definition reply :: "nat \<Rightarrow> json \<Rightarrow> response" where
  "reply s b = \<lparr>status = s, body = b\<rparr>"

text \<open>\<open>r.FormValue(k)\<close> and \<open>mux.Vars(r)[k]\<close>: the first value, or \<open>""\<close>.\<close>

definition form_value :: "request \<Rightarrow> string \<Rightarrow> string" where
  "form_value r k = (case map_of (req_form r) k of Some v \<Rightarrow> v | None \<Rightarrow> [])"

definition mux_var :: "request \<Rightarrow> string \<Rightarrow> string" where
  "mux_var r k = (case map_of (req_vars r) k of Some v \<Rightarrow> v | None \<Rightarrow> [])"

text \<open>A request used by the worked examples: a login as \<open>a@example.com\<close>.\<close>

definition sample_request :: request where
  "sample_request = \<lparr>req_method = ''POST'', req_path = ''/login'', req_auth = [], req_form = [],
     req_body = zero_user\<lparr>email := ''a@example.com''\<rparr>, req_vars = [], req_now = 1700000000\<rparr>"

text \<open>Running a handler body against the package-level handle: nil panics.\<close>

definition with_db :: "db_handle \<Rightarrow> (db_state \<Rightarrow> db_state \<times> response) \<Rightarrow> (db_handle \<times> response) outcome" where
  "with_db h f = (case h of None \<Rightarrow> Panic | Some d \<Rightarrow> (case f d of (d', resp) \<Rightarrow> Ok (Some d', resp)))"

lemma with_db_None [simp]: "with_db None f = Panic"
  by (simp add: with_db_def)

lemma with_db_Some [simp]: "with_db (Some d) f = Ok (Some (fst (f d)), snd (f d))"
  by (simp add: with_db_def split: prod.splits)

end
