(* ===== verification/Strconv.thy ===== *)
theory Strconv
  imports Prelude
begin

text \<open>
  Go's \<open>strconv.Atoi\<close>, which every handler of \<open>src/main.go\<close> applies to the path
  variable \<open>{id}\<close> and to the numeric form fields, discarding the error
  (\<open>x, _ := strconv.Atoi(...)\<close>). The library is not part of the repository; the
  model follows Go's \<open>strconv/atoi.go\<close> on a 64-bit platform: the fast path of
  \<open>Atoi\<close> for strings shorter than 19 bytes, and \<open>ParseInt(s, 10, 0)\<close> with its
  \<open>ParseUint\<close> digit loop otherwise. Arithmetic is on 64-bit words as in Go, so the
  overflow checks are the code's own.
\<close>

datatype num_error = ErrSyntax | ErrRange

definition is_dec_digit :: "char \<Rightarrow> bool" where
  "is_dec_digit c \<longleftrightarrow> 48 \<le> (of_char c :: nat) \<and> (of_char c :: nat) \<le> 57"

definition digit_word :: "char \<Rightarrow> 64 word" where
  "digit_word c = of_nat (of_char c - 48)"

subsection \<open>ParseUint, base 10, 64 bits\<close>

text \<open>
  \<open>cutoff = maxUint64/10 + 1\<close>: the smallest value whose product by 10 overflows.
  A byte that is not a decimal digit is a syntax error (lower-case letters give a digit
  value \<open>\<ge> 10\<close> and are rejected by \<open>d >= byte(base)\<close>, underscores are only allowed
  for base 0). The overflow test returns at once, before the rest of the string is
  looked at.
\<close>

definition uint_cutoff :: "64 word" where
  "uint_cutoff = (- 1) div 10 + 1"

fun parse_uint_loop :: "64 word \<Rightarrow> string \<Rightarrow> 64 word \<times> num_error option" where
  "parse_uint_loop n [] = (n, None)"
| "parse_uint_loop n (c # cs) =
     (if \<not> is_dec_digit c then (0, Some ErrSyntax)
      else if uint_cutoff \<le> n then (- 1, Some ErrRange)
      else (let m = n * 10; n1 = m + digit_word c in
            if n1 < m then (- 1, Some ErrRange) else parse_uint_loop n1 cs))"

definition parse_uint :: "string \<Rightarrow> 64 word \<times> num_error option" where
  "parse_uint s = (if s = [] then (0, Some ErrSyntax) else parse_uint_loop 0 s)"

subsection \<open>ParseInt, base 10, bit size 0 (that is, 64)\<close>

definition split_sign :: "string \<Rightarrow> bool \<times> string" where
  "split_sign s = (case s of
      c # cs \<Rightarrow> (if c = CHR ''+'' then (False, cs) else if c = CHR ''-'' then (True, cs) else (False, s))
    | [] \<Rightarrow> (False, []))"

definition parse_int :: "string \<Rightarrow> go_int \<times> num_error option" where
  "parse_int s =
     (if s = [] then (0, Some ErrSyntax)
      else (let (neg, body) = split_sign s; (un, err) = parse_uint body in
            if err = Some ErrSyntax then (0, Some ErrSyntax)
            else if \<not> neg \<and> 2 ^ 63 \<le> un then (2 ^ 63 - 1, Some ErrRange)
            else if neg \<and> 2 ^ 63 < un then (- (2 ^ 63), Some ErrRange)
            else (if neg then - un else un, None)))"

subsection \<open>Atoi\<close>

text \<open>
  The fast path: \<open>ch -= '0'\<close> on a byte wraps, so one unsigned test \<open>ch > 9\<close> rejects
  every non-digit; \<open>n = n*10 + int(ch)\<close> is Go \<open>int\<close> arithmetic.
\<close>

fun atoi_digits :: "go_int \<Rightarrow> string \<Rightarrow> go_int option" where
  "atoi_digits n [] = Some n"
| "atoi_digits n (c # cs) =
     (let ch = (of_char c :: 8 word) - 48 in
      if 9 < ch then None else atoi_digits (n * 10 + ucast ch) cs)"

definition atoi :: "string \<Rightarrow> go_int \<times> num_error option" where
  "atoi s =
     (if 0 < length s \<and> length s < 19 then
        (let neg = (hd s = CHR ''-'');
             body = (if hd s = CHR ''-'' \<or> hd s = CHR ''+'' then tl s else s) in
         if body = [] then (0, Some ErrSyntax)
         else (case atoi_digits 0 body of
                 None \<Rightarrow> (0, Some ErrSyntax)
               | Some n \<Rightarrow> (if neg then - n else n, None)))
      else parse_int s)"

text \<open>The value the handlers keep: \<open>v, _ := strconv.Atoi(s)\<close>.\<close>

definition atoi_val :: "string \<Rightarrow> go_int" where
  "atoi_val s = fst (atoi s)"

subsection \<open>Decimal rendering\<close>

text \<open>
  The decimal text of an integer, as \<open>strconv.Itoa\<close> and \<open>encoding/json\<close> print
  it (used for the \<open>exp\<close> claim of a token), and the value of a digit string.
\<close>

fun nat_digits :: "nat \<Rightarrow> string" where
  "nat_digits n = (if n < 10 then [char_of (48 + n)] else nat_digits (n div 10) @ [char_of (48 + n mod 10)])"

definition go_itoa :: "go_int \<Rightarrow> string" where
  "go_itoa v = (if sint v < 0 then CHR ''-'' # nat_digits (nat (- sint v)) else nat_digits (nat (sint v)))"

definition dec_acc :: "nat \<Rightarrow> string \<Rightarrow> nat" where
  "dec_acc a cs = foldl (\<lambda>a c. 10 * a + (of_char c - 48)) a cs"

subsection \<open>Byte-level facts\<close>

lemma unat_of_char8: "unat (of_char c :: 8 word) = of_char c"
proof -
  have "(of_char c :: 8 word) = of_nat (of_char c)" by (simp add: of_nat_of_char)
  then show ?thesis by (simp add: unat_of_nat)
qed

lemma of_char_lt_256: "(of_char c :: nat) < 256"
  by (metis of_char_mod_256 mod_less_divisor zero_less_numeral)

lemma atoi_byte_check: "(9 < (of_char c :: 8 word) - 48) \<longleftrightarrow> \<not> is_dec_digit c"
proof -
  have "unat ((of_char c :: 8 word) - 48) = (if 48 \<le> (of_char c :: nat) then of_char c - 48 else of_char c + 256 - 48)"
    by (simp add: unat_sub_if_size unat_of_char8 word_size)
  then show ?thesis using of_char_lt_256 [of c]
    by (auto simp add: word_less_nat_alt is_dec_digit_def)
qed

lemma unat_ucast_8_64: "unat (ucast (w :: 8 word) :: 64 word) = unat w"
  by (simp add: unsigned_ucast_eq take_bit_nat_eq_self_iff unsigned_less[of w, simplified] 
        less_le_trans[OF unsigned_less[of w]])

lemma unat_digit_word: "unat (digit_word c) = of_char c - 48"
proof -
  have "of_char c - 48 < (18446744073709551616::nat)" using of_char_lt_256 [of c] by linarith
  then show ?thesis unfolding digit_word_def unat_of_nat by simp
qed

lemma atoi_byte_value: "is_dec_digit c \<Longrightarrow> ucast ((of_char c :: 8 word) - 48) = digit_word c"
proof -
  assume d: "is_dec_digit c"
  then have u: "unat ((of_char c :: 8 word) - 48) = of_char c - 48"
    by (simp add: unat_sub_if_size unat_of_char8 word_size is_dec_digit_def)
  have "unat (digit_word c) = of_char c - 48"
    by (rule unat_digit_word)
  with u show ?thesis
    by (simp add: word_unat_eq_iff unat_ucast_8_64)
qed
subsection \<open>The fast path agrees with ParseInt\<close>

text \<open>
  For at most 18 digits the accumulator stays below \<open>10^18\<close>, so neither the
  cutoff test nor the carry test of \<open>ParseUint\<close> fires and both loops compute the
  same word; the sign handling is the same in both.
\<close>

lemma digit_word_le_9:
  assumes "is_dec_digit c" shows "unat (digit_word c) \<le> 9"
  using assms unfolding is_dec_digit_def unat_digit_word by linarith

lemma digit_step_fits:
  assumes n: "unat n < 10 ^ (17 - l)" and l: "l \<le> 17" and d: "is_dec_digit c"
  shows "unat (n * 10) = unat n * 10"
    and "unat (n * 10 + digit_word c) = unat n * 10 + unat (digit_word c)"
    and "unat (n * 10 + digit_word c) < 10 ^ (18 - l)"
proof -
  have p: "(10::nat) ^ (17 - l) \<le> 10 ^ 17" by (rule power_increasing) simp_all
  have d9: "unat (digit_word c) \<le> 9" using d by (rule digit_word_le_9)
  have "unat n * unat (10 :: 64 word) < 2 ^ LENGTH(64)" using n p by simp
  then show m: "unat (n * 10) = unat n * 10" by (simp add: unat_mult_lem [THEN iffD1])
  have "unat (n * 10) + unat (digit_word c) < 2 ^ LENGTH(64)" using m n p d9 by simp
  then show a: "unat (n * 10 + digit_word c) = unat n * 10 + unat (digit_word c)"
    using m by (simp add: unat_add_lem [THEN iffD1])
  have "unat n * 10 + 10 \<le> 10 ^ (17 - l) * 10" using n by simp
  also have "\<dots> = 10 ^ (18 - l)" using l by (simp add: Suc_diff_le [symmetric] power_Suc2 [symmetric]) 
  finally show "unat (n * 10 + digit_word c) < 10 ^ (18 - l)" using a d9 by simp
qed

lemma parse_uint_loop_short:
  "length cs \<le> 18 \<Longrightarrow> unat n < 10 ^ (18 - length cs) \<Longrightarrow>
   parse_uint_loop n cs = (case atoi_digits n cs of None \<Rightarrow> (0, Some ErrSyntax) | Some m \<Rightarrow> (m, None))
   \<and> (\<forall>m. atoi_digits n cs = Some m \<longrightarrow> unat m < 10 ^ 18)"
proof (induction cs arbitrary: n)
  case Nil
  have "(10::nat) ^ (18 - 0) \<le> 10 ^ 18" by simp
  with Nil show ?case by simp
next
  case (Cons c cs)
  show ?case
  proof (cases "is_dec_digit c")
    case False
    then show ?thesis by (simp add: atoi_byte_check)
  next
    case True
    from Cons.prems have n: "unat n < 10 ^ (17 - length cs)" and l: "length cs \<le> 17" by simp_all
    have p: "(10::nat) ^ (17 - length cs) \<le> 10 ^ 17" by (rule power_increasing) simp_all
    have "unat n < unat uint_cutoff" using n p by (simp add: uint_cutoff_def)
    then have nc: "\<not> uint_cutoff \<le> n" by (simp add: word_le_nat_alt)
    note st = digit_step_fits [OF n l True]
    have nl: "\<not> n * 10 + digit_word c < n * 10" using st(1,2) by (simp add: word_less_nat_alt)
    have "length cs \<le> 18" using l by simp
    note IH = Cons.IH [OF this st(3)]
    show ?thesis using True nc nl IH by (simp add: atoi_byte_check atoi_byte_value Let_def)
  qed
qed

lemma atoi_short:
  assumes "0 < length s" and "length s < 19"
  shows "atoi s = (case split_sign s of (neg, body) \<Rightarrow>
           if body = [] then (0, Some ErrSyntax) else (case atoi_digits 0 body of
             None \<Rightarrow> (0, Some ErrSyntax) | Some n \<Rightarrow> (if neg then - n else n, None)))"
proof (cases s)
  case Nil
  then show ?thesis using assms by simp
next
  case (Cons c cs)
  consider "c = CHR ''-''" | "c = CHR ''+''" | "c \<noteq> CHR ''-'' \<and> c \<noteq> CHR ''+''" by blast
  then show ?thesis
    by cases (use Cons assms in \<open>simp_all add: atoi_def split_sign_def Let_def\<close>)
qed

theorem atoi_eq_parse_int: "atoi s = parse_int s"
proof (cases "0 < length s \<and> length s < 19")
  case False
  then show ?thesis unfolding atoi_def by (rule if_not_P)
next
  case True
  obtain neg body where sp: "split_sign s = (neg, body)" by (cases "split_sign s") auto
  have lb: "length body \<le> 18" using True sp by (cases s) (auto simp: split_sign_def split: if_splits)
  have "unat (0 :: 64 word) < 10 ^ (18 - length body)" by simp
  note short = parse_uint_loop_short [OF lb this]
  have at: "atoi s = (if body = [] then (0, Some ErrSyntax) else (case atoi_digits 0 body of
                 None \<Rightarrow> (0, Some ErrSyntax) | Some n \<Rightarrow> (if neg then - n else n, None)))"
    using True sp by (simp add: atoi_short)
  have ne: "s \<noteq> []" using True by auto
  show ?thesis
  proof (cases "body = []")
    case True
    then show ?thesis using at sp ne by (simp add: parse_int_def parse_uint_def)
  next
    case False
    show ?thesis
    proof (cases "atoi_digits 0 body")
      case None
      then show ?thesis using at sp short False ne by (simp add: parse_int_def parse_uint_def)
    next
      case (Some m)
      have "unat m < 10 ^ 18" using short Some by simp
      then have "\<not> 2 ^ 63 \<le> m" and "\<not> 2 ^ 63 < m" by (simp_all add: word_le_nat_alt word_less_nat_alt)
      then show ?thesis using at sp short False Some ne by (simp add: parse_int_def parse_uint_def)
    qed
  qed
qed

subsection \<open>Digit strings and the decimal round trip\<close>

declare nat_digits.simps [simp del]

lemma of_char_digit: "n < 10 \<Longrightarrow> (of_char (char_of (48 + n)) :: nat) = 48 + n"
  by simp

lemma nat_digits_props:
  "list_all is_dec_digit (nat_digits n) \<and> dec_acc 0 (nat_digits n) = n \<and> nat_digits n \<noteq> []"
proof (induction n rule: nat_digits.induct)
  case (1 n)
  show ?case
  proof (cases "n < 10")
    case True
    then show ?thesis by (simp add: nat_digits.simps [of n] is_dec_digit_def dec_acc_def)
  next
    case False
    then have IH: "list_all is_dec_digit (nat_digits (n div 10)) \<and> dec_acc 0 (nat_digits (n div 10)) = n div 10"
      using "1.IH" by simp
    have m: "n mod 10 < 10" by simp
    have d: "is_dec_digit (char_of (48 + n mod 10))" using of_char_digit [OF m] by (simp add: is_dec_digit_def)
    show ?thesis using False IH d
      by (simp add: nat_digits.simps [of n] dec_acc_def of_char_digit [OF m])
  qed
qed

lemma dec_acc_ge: "a \<le> dec_acc a cs"
proof (induction cs arbitrary: a)
  case Nil then show ?case by (simp add: dec_acc_def)
next
  case (Cons c cs)
  have "a \<le> 10 * a + (of_char c - 48)" by simp
  also have "\<dots> \<le> dec_acc (10 * a + (of_char c - 48)) cs" by (rule Cons.IH)
  finally show ?case by (simp add: dec_acc_def)
qed

lemma dec_acc_Cons: "dec_acc a (c # cs) = dec_acc (10 * a + (of_char c - 48)) cs"
  by (simp add: dec_acc_def)

lemma parse_uint_loop_digits:
  "list_all is_dec_digit cs \<Longrightarrow>
   parse_uint_loop n cs = (if dec_acc (unat n) cs < 2 ^ 64 then (of_nat (dec_acc (unat n) cs), None)
                           else (- 1, Some ErrRange))"
proof (induction cs arbitrary: n)
  case Nil
  show ?case using unsigned_less [of n] by (simp add: dec_acc_def)
next
  case (Cons c cs)
  have d: "is_dec_digit c" and ds: "list_all is_dec_digit cs" using Cons.prems by simp_all
  have d9: "unat (digit_word c) \<le> 9" using d by (rule digit_word_le_9)
  have dw: "unat (digit_word c) = of_char c - 48" by (rule unat_digit_word)
  let ?a = "10 * unat n + (of_char c - 48)"
  have acc: "dec_acc (unat n) (c # cs) = dec_acc ?a cs" by (simp add: dec_acc_Cons)
  have ge: "?a \<le> dec_acc ?a cs" by (rule dec_acc_ge)
  have cut: "unat uint_cutoff = 1844674407370955162" by (simp add: uint_cutoff_def)
  have p64: "(2::nat) ^ 64 = 18446744073709551616" by simp
  show ?case
  proof (cases "uint_cutoff \<le> n")
    case True
    then have "1844674407370955162 \<le> unat n" using cut by (simp add: word_le_nat_alt)
    then have "2 ^ 64 \<le> dec_acc (unat n) (c # cs)" using acc ge p64 by linarith
    then show ?thesis using True d by simp
  next
    case False
    then have lt: "unat n < 1844674407370955162" using cut by (simp add: word_le_nat_alt)
    then have m: "unat (n * 10) = unat n * 10" by (simp add: unat_mult_lem [THEN iffD1])
    show ?thesis
    proof (cases "?a < 2 ^ 64")
      case True
      then have s: "unat (n * 10 + digit_word c) = ?a"
        using m dw by (simp add: unat_add_lem [THEN iffD1])
      then have "\<not> n * 10 + digit_word c < n * 10" using m by (simp add: word_less_nat_alt)
      then show ?thesis using False d Cons.IH [OF ds, of "n * 10 + digit_word c"] s acc
        by (simp add: Let_def)
    next
      case ov: False
      define dd where "dd = unat (digit_word c)"
      have a: "?a = unat n * 10 + dd" using dw by (simp add: dd_def)
      have u: "unat (n * 10 + digit_word c) = (unat n * 10 + dd) mod 2 ^ 64"
        using m by (simp add: unat_word_ariths(1) dd_def)
      have big: "2 ^ 64 \<le> unat n * 10 + dd" and small: "unat n * 10 + dd - 2 ^ 64 < 2 ^ 64"
        using ov a lt d9 dd_def p64 by linarith+
      have "(unat n * 10 + dd) mod 2 ^ 64 = unat n * 10 + dd - 2 ^ 64"
        using le_mod_geq [OF big] small by simp
      then have "unat (n * 10 + digit_word c) < unat (n * 10)"
        using u m big d9 dd_def p64 by linarith
      then have "n * 10 + digit_word c < n * 10" by (simp add: word_less_nat_alt)
      moreover have "2 ^ 64 \<le> dec_acc (unat n) (c # cs)" using acc ge ov p64 by linarith
      ultimately show ?thesis using False d by (simp add: Let_def)
    qed
  qed
qed

lemma split_sign_digits:
  "list_all is_dec_digit cs \<Longrightarrow> split_sign cs = (False, cs)"
  by (cases cs) (auto simp: split_sign_def is_dec_digit_def)

lemma parse_uint_nat_digits:
  assumes "k < 2 ^ 64"
  shows "parse_uint (nat_digits k) = (of_nat k, None)"
  using nat_digits_props [of k] assms parse_uint_loop_digits [of "nat_digits k" 0]
  by (simp add: parse_uint_def)

lemma unat_of_nat_64: "k < 2 ^ 64 \<Longrightarrow> unat (of_nat k :: 64 word) = k"
  by (simp add: unat_of_nat)

theorem parse_int_go_itoa: "parse_int (go_itoa v) = (v, None)"
proof (cases "sint v < 0")
  case True
  define k where "k = nat (- sint v)"
  have kb: "k \<le> 2 ^ 63" using sint_ge [of v] by (simp add: k_def)
  then have k64: "k < 2 ^ 64" by simp
  have s: "go_itoa v = CHR ''-'' # nat_digits k" using True by (simp add: go_itoa_def k_def)
  have sp: "split_sign (go_itoa v) = (True, nat_digits k)" by (simp add: s split_sign_def)
  have "\<not> 2 ^ 63 < (of_nat k :: 64 word)"
    using kb k64 by (simp add: word_less_nat_alt unat_of_nat_64)
  moreover have "- (of_nat k :: 64 word) = v"
    using True by (simp add: k_def of_nat_nat)
  ultimately show ?thesis
    using sp parse_uint_nat_digits [OF k64] by (simp add: parse_int_def s)
next
  case False
  define k where "k = nat (sint v)"
  have kb: "k < 2 ^ 63" using sint_lt [of v] by (simp add: k_def)
  then have k64: "k < 2 ^ 64" by simp
  have s: "go_itoa v = nat_digits k" using False by (simp add: go_itoa_def k_def)
  have sp: "split_sign (go_itoa v) = (False, nat_digits k)"
    using nat_digits_props [of k] by (simp add: s split_sign_digits)
  have ne: "go_itoa v \<noteq> []" using nat_digits_props [of k] by (simp add: s)
  have "\<not> 2 ^ 63 \<le> (of_nat k :: 64 word)"
    using kb k64 by (simp add: word_le_nat_alt unat_of_nat_64)
  moreover have "(of_nat k :: 64 word) = v"
    using False by (simp add: k_def of_nat_nat)
  ultimately show ?thesis
    using sp ne parse_uint_nat_digits [OF k64] by (simp add: parse_int_def s)
qed

lemma atoi_val_go_itoa [simp]: "atoi_val (go_itoa v) = v"
  by (simp add: atoi_val_def atoi_eq_parse_int parse_int_go_itoa)

lemma digit_step_exact:
  assumes d: "is_dec_digit c" and a: "10 * unat n + (of_char c - 48) < (2::nat) ^ 64"
  shows "\<not> uint_cutoff \<le> n" and "unat (n * 10 + digit_word c) = 10 * unat n + (of_char c - 48)"
    and "\<not> n * 10 + digit_word c < n * 10"
proof -
  have cut: "unat uint_cutoff = 1844674407370955162" by (simp add: uint_cutoff_def)
  have p64: "(2::nat) ^ 64 = 18446744073709551616" by simp
  have lt: "unat n < 1844674407370955162" using a p64 by linarith
  then show "\<not> uint_cutoff \<le> n" using cut by (simp add: word_le_nat_alt)
  have m: "unat (n * 10) = unat n * 10" using lt by (simp add: unat_mult_lem [THEN iffD1])
  have dw: "unat (digit_word c) = of_char c - 48" by (rule unat_digit_word)
  show s: "unat (n * 10 + digit_word c) = 10 * unat n + (of_char c - 48)"
    using m dw a by (simp add: unat_add_lem [THEN iffD1])
  then show "\<not> n * 10 + digit_word c < n * 10" using m by (simp add: word_less_nat_alt)
qed

lemma parse_uint_loop_append:
  "list_all is_dec_digit ds \<Longrightarrow> dec_acc (unat n) ds < 2 ^ 64 \<Longrightarrow>
   parse_uint_loop n (ds @ rest) = parse_uint_loop (of_nat (dec_acc (unat n) ds)) rest"
proof (induction ds arbitrary: n)
  case Nil
  then show ?case by (simp add: dec_acc_def)
next
  case (Cons c ds)
  let ?a = "10 * unat n + (of_char c - 48)"
  have d: "is_dec_digit c" and ds: "list_all is_dec_digit ds" using Cons.prems(1) by simp_all
  have acc: "dec_acc (unat n) (c # ds) = dec_acc ?a ds" by (rule dec_acc_Cons)
  have a: "?a < 2 ^ 64" using dec_acc_ge [of ?a ds] acc Cons.prems(2) by linarith
  note st = digit_step_exact [OF d a]
  have "dec_acc (unat (n * 10 + digit_word c)) ds < 2 ^ 64" using Cons.prems(2) acc st(2) by simp
  then show ?case using Cons.IH [OF ds, of "n * 10 + digit_word c"] st d acc by (simp add: Let_def)
qed

subsection \<open>Properties of Atoi\<close>

text \<open>
  The fast path of \<open>Atoi\<close> (inputs of 1 to 18 bytes: sign, then byte arithmetic
  \<open>ch - '0'\<close> on 8 bits and \<open>n*10 + ch\<close> with no overflow check) computes exactly what
  \<open>ParseInt(s, 10, 0)\<close> computes, value and error.
\<close>

theorem atoi_fast_path_equiv:
  assumes "0 < length s" and "length s < 19"
  shows "(case split_sign s of (neg, body) \<Rightarrow>
           if body = [] then (0, Some ErrSyntax) else (case atoi_digits 0 body of
             None \<Rightarrow> (0, Some ErrSyntax) | Some n \<Rightarrow> (if neg then - n else n, None))) = parse_int s"
  using atoi_short [OF assms] atoi_eq_parse_int [of s] by simp

theorem atoi_fast_path_equiv_witness:
  "0 < length ''-42'' \<and> length ''-42'' < 19 \<and> parse_int ''-42'' = (- 42, None)"
proof -
  have "parse_int ''-42'' = (- 42, None)"
    using atoi_fast_path_equiv [of "''-42''"]
    by (simp add: split_sign_def atoi_digits.simps Let_def)
  then show ?thesis by simp
qed

text \<open>
  \<open>Atoi\<close> reads back every 64-bit value that \<open>Itoa\<close> prints, with no error.
\<close>

theorem atoi_itoa_roundtrip: "atoi (go_itoa v) = (v, None)"
  by (simp add: atoi_eq_parse_int parse_int_go_itoa)

text \<open>
  A run of digits followed by a non-digit (with no leading sign when the run is
  empty) is a syntax error and \<open>Atoi\<close> yields 0, provided the run itself does not
  overflow 64 bits.
\<close>

theorem atoi_non_numeric_zero:
  assumes ds: "list_all is_dec_digit ds" and k: "dec_acc 0 ds < 2 ^ 64" and c: "\<not> is_dec_digit c"
    and sg: "ds = [] \<longrightarrow> c \<noteq> CHR ''+'' \<and> c \<noteq> CHR ''-''"
  shows "atoi (ds @ c # rest) = (0, Some ErrSyntax)"
proof -
  have sp: "split_sign (ds @ c # rest) = (False, ds @ c # rest)"
    using ds sg by (cases ds) (auto simp: split_sign_def is_dec_digit_def)
  have "parse_uint_loop 0 (ds @ c # rest) = (0, Some ErrSyntax)"
    using parse_uint_loop_append [OF ds, of 0 "c # rest"] k c by simp
  then show ?thesis by (simp add: atoi_eq_parse_int parse_int_def sp parse_uint_def)
qed

theorem atoi_non_numeric_zero_witness:
  "list_all is_dec_digit ''12'' \<and> dec_acc 0 ''12'' < 2 ^ 64 \<and> \<not> is_dec_digit CHR ''a'' \<and>
   (''12'' = [] \<longrightarrow> CHR ''a'' \<noteq> CHR ''+'' \<and> CHR ''a'' \<noteq> CHR ''-'') \<and> atoi ''12a3'' = (0, Some ErrSyntax)"
  using atoi_non_numeric_zero [of "''12''" "CHR ''a''" "''3''"]
  by (simp add: is_dec_digit_def dec_acc_def)

text \<open>
  A decimal of \<open>2^63\<close> or more saturates: \<open>Atoi\<close> yields \<open>2^63-1\<close> with a range
  error; with a minus sign it yields \<open>-2^63\<close>, with no error exactly at \<open>2^63\<close>.
\<close>

theorem atoi_clamps_overflow:
  assumes ds: "list_all is_dec_digit ds" and ne: "ds \<noteq> []" and big: "2 ^ 63 \<le> dec_acc 0 ds"
  shows "atoi ds = (2 ^ 63 - 1, Some ErrRange) \<and>
         atoi (CHR ''-'' # ds) = (- (2 ^ 63), (if dec_acc 0 ds = 2 ^ 63 then None else Some ErrRange))"
proof -
  have sp: "split_sign ds = (False, ds)" using ds by (rule split_sign_digits)
  have spn: "split_sign (CHR ''-'' # ds) = (True, ds)" by (simp add: split_sign_def)
  have p64: "(2::nat) ^ 64 = 18446744073709551616" and p63: "(2::nat) ^ 63 = 9223372036854775808" by simp_all
  have u: "parse_uint ds = (if dec_acc 0 ds < 2 ^ 64 then (of_nat (dec_acc 0 ds), None) else (- 1, Some ErrRange))"
    using parse_uint_loop_digits [OF ds, of 0] ne by (simp add: parse_uint_def)
  show ?thesis
  proof (cases "dec_acc 0 ds < 2 ^ 64")
    case True
    let ?w = "of_nat (dec_acc 0 ds) :: 64 word"
    have uw: "unat ?w = dec_acc 0 ds" using True by (simp add: unat_of_nat)
    have ge: "2 ^ 63 \<le> ?w" using uw big by (simp add: word_le_nat_alt)
    have eq: "?w = 2 ^ 63 \<longleftrightarrow> dec_acc 0 ds = 2 ^ 63"
      using uw by (simp add: word_unat_eq_iff)
    have gt: "2 ^ 63 < ?w \<longleftrightarrow> dec_acc 0 ds \<noteq> 2 ^ 63" using ge eq by auto
    show ?thesis using True u ge gt eq ne
      by (simp add: atoi_eq_parse_int parse_int_def sp spn)
  next
    case False
    have "(2 ^ 63 :: 64 word) < - 1" by simp
    then show ?thesis using False u big p63 p64 ne
      by (simp add: atoi_eq_parse_int parse_int_def sp spn)
  qed
qed

theorem atoi_clamps_overflow_witness:
  "list_all is_dec_digit ''9223372036854775808'' \<and> ''9223372036854775808'' \<noteq> [] \<and>
   2 ^ 63 \<le> dec_acc 0 ''9223372036854775808'' \<and>
   atoi ''9223372036854775808'' = (2 ^ 63 - 1, Some ErrRange) \<and>
   atoi ''-9223372036854775808'' = (- (2 ^ 63), None)"
  using atoi_clamps_overflow [of "''9223372036854775808''"]
  by (simp add: is_dec_digit_def dec_acc_def)

text \<open>
  An overflowing run of digits followed by junk is a range error, not a syntax error:
  \<open>Atoi\<close> yields \<open>2^63-1\<close>, not 0, for \<open>"99999999999999999999x"\<close>.
\<close>

theorem atoi_range_error_before_junk: "atoi ''99999999999999999999x'' = (2 ^ 63 - 1, Some ErrRange)"
  by (simp add: atoi_eq_parse_int parse_int_def split_sign_def parse_uint_def is_dec_digit_def
      uint_cutoff_def digit_word_def Let_def)

subsection \<open>Characters of Itoa\<close>

lemma go_itoa_chars: "c \<in> set (go_itoa v) \<Longrightarrow> is_dec_digit c \<or> c = CHR ''-''"
  using nat_digits_props by (auto simp: go_itoa_def list_all_iff split: if_splits)

lemma go_itoa_nonempty: "go_itoa v \<noteq> []"
  using nat_digits_props by (simp add: go_itoa_def)

lemma slash_notin_go_itoa: "CHR ''/'' \<notin> set (go_itoa v)"
  using go_itoa_chars [of "CHR ''/''" v] by (auto simp: is_dec_digit_def)

end
