(* ===== verification/Jwt.thy ===== *)
theory Jwt
  imports Strconv
begin

text \<open>
  Session tokens: \<open>github.com/dgrijalva/jwt-go\<close> as \<open>src/main.go\<close> uses it
  (\<open>jwt.NewWithClaims(jwt.SigningMethodHS256, jwt.MapClaims{"email", "exp"})\<close>,
  \<open>token.SignedString([]byte("secretKey"))\<close>, and \<open>jwt.Parse\<close> with a key function that
  returns the same key whatever the header's algorithm). The library is not part of the
  repository; the model follows the spec's contract (a signed claim set of email and
  expiry; verification checks the signature and the expiry) and jwt-go's behaviour:
  \<^item> a token is the compact serialisation \<open>header.payload.signature\<close>; each segment
    is encoded by \<open>hex_encode\<close>, standing in for base64url, so that no segment contains
    a dot;
  \<^item> the payload carries the two claims, \<open>exp\<close> as decimal text; the HMAC is a
    symbolic term of algorithm, key and signing input (\<open>hs_mac\<close>), so a token verifies
    under a key exactly when it was signed with that key;
  \<^item> \<open>Parse\<close> accepts a token when it has three segments that decode, its algorithm is
    known, the key function's \<open>[]byte\<close> key fits the algorithm (only the HMAC family:
    RSA needs a public key, \<open>none\<close> a special sentinel), the signature verifies, and
    \<open>MapClaims.Valid\<close> holds: \<open>verifyExp\<close> accepts \<open>exp = 0\<close> (no expiry) or
    \<open>now <= exp\<close>.
\<close>

datatype signing_method = HS256 | HS384 | HS512 | RS256 | NoneAlg

primrec alg_name :: "signing_method \<Rightarrow> string" where
  "alg_name HS256 = ''HS256''"
| "alg_name HS384 = ''HS384''"
| "alg_name HS512 = ''HS512''"
| "alg_name RS256 = ''RS256''"
| "alg_name NoneAlg = ''none''"

definition alg_of_name :: "string \<Rightarrow> signing_method option" where
  "alg_of_name s = find (\<lambda>m. alg_name m = s) [HS256, HS384, HS512, RS256, NoneAlg]"

primrec is_hmac :: "signing_method \<Rightarrow> bool" where
  "is_hmac HS256 = True"
| "is_hmac HS384 = True"
| "is_hmac HS512 = True"
| "is_hmac RS256 = False"
| "is_hmac NoneAlg = False"

record claims =
  claim_email :: string
  claim_exp :: go_int

subsection \<open>Segment encoding\<close>

definition hex_digit :: "nat \<Rightarrow> char" where
  "hex_digit n = char_of (if n < 10 then 48 + n else 87 + n)"

definition hex_val :: "char \<Rightarrow> nat option" where
  "hex_val c =
     (let n = (of_char c :: nat) in
      if 48 \<le> n \<and> n \<le> 57 then Some (n - 48)
      else if 97 \<le> n \<and> n \<le> 102 then Some (n - 87) else None)"

definition hex_encode :: "string \<Rightarrow> string" where
  "hex_encode s = concat (map (\<lambda>c. [hex_digit (of_char c div 16), hex_digit (of_char c mod 16)]) s)"

fun hex_decode :: "string \<Rightarrow> string option" where
  "hex_decode [] = Some []"
| "hex_decode [c] = None"
| "hex_decode (a # b # rest) =
     (case (hex_val a, hex_val b) of
        (Some x, Some y) \<Rightarrow> map_option (\<lambda>r. char_of (16 * x + y) # r) (hex_decode rest)
      | _ \<Rightarrow> None)"

text \<open>\<open>strings.Split(token, ".")\<close>.\<close>

fun split_on_acc :: "char \<Rightarrow> string \<Rightarrow> string \<Rightarrow> string list" where
  "split_on_acc d acc [] = [rev acc]"
| "split_on_acc d acc (c # cs) =
     (if c = d then rev acc # split_on_acc d [] cs else split_on_acc d (c # acc) cs)"

definition split_dots :: "string \<Rightarrow> string list" where
  "split_dots s = split_on_acc (CHR ''.'') [] s"

subsection \<open>Claims, signing and parsing\<close>

definition jwt_payload :: "claims \<Rightarrow> string" where
  "jwt_payload c = go_itoa (claim_exp c) @ CHR '':'' # claim_email c"

definition parse_payload :: "string \<Rightarrow> claims option" where
  "parse_payload s =
     (case dropWhile (\<lambda>c. c \<noteq> CHR '':'') s of
        [] \<Rightarrow> None
      | _ # em \<Rightarrow>
          (case atoi (takeWhile (\<lambda>c. c \<noteq> CHR '':'') s) of
             (v, None) \<Rightarrow> Some \<lparr>claim_email = em, claim_exp = v\<rparr>
           | _ \<Rightarrow> None))"

definition hs_mac :: "signing_method \<Rightarrow> string \<Rightarrow> string \<Rightarrow> string" where
  "hs_mac m key msg = alg_name m @ CHR '':'' # key @ CHR '':'' # msg"

definition signing_string :: "signing_method \<Rightarrow> claims \<Rightarrow> string" where
  "signing_string m c = hex_encode (alg_name m) @ CHR ''.'' # hex_encode (jwt_payload c)"

text \<open>\<open>token.SignedString(key)\<close>.\<close>

definition signed_string :: "signing_method \<Rightarrow> claims \<Rightarrow> string \<Rightarrow> string" where
  "signed_string m c key =
     signing_string m c @ CHR ''.'' # hex_encode (hs_mac m key (signing_string m c))"

text \<open>\<open>verifyExp(exp, now, false)\<close> of \<open>MapClaims.Valid\<close>.\<close>

definition exp_valid :: "go_int \<Rightarrow> go_int \<Rightarrow> bool" where
  "exp_valid now e \<longleftrightarrow> e = 0 \<or> sint now \<le> sint e"

text \<open>
  \<open>jwt.Parse(s, keyFunc)\<close> with a key function returning \<open>key\<close>: \<open>Some\<close> of the claims
  when \<open>err == nil && token.Valid\<close>, \<open>None\<close> otherwise.
\<close>

definition jwt_parse :: "string \<Rightarrow> go_int \<Rightarrow> string \<Rightarrow> claims option" where
  "jwt_parse key now s =
     (case split_dots s of
        [h, p, g] \<Rightarrow>
          (case (hex_decode h, hex_decode p, hex_decode g) of
             (Some hn, Some ps, Some sg) \<Rightarrow>
               (case (alg_of_name hn, parse_payload ps) of
                  (Some m, Some c) \<Rightarrow>
                    if is_hmac m \<and> sg = hs_mac m key (h @ CHR ''.'' # p) \<and> exp_valid now (claim_exp c)
                    then Some c else None
                | _ \<Rightarrow> None)
           | _ \<Rightarrow> None)
      | _ \<Rightarrow> None)"

subsection \<open>Round trips\<close>

text \<open>
  Segments decode to what was encoded and contain no dot; the payload parses back to its
  claims (through \<open>Atoi\<close> on the decimal \<open>exp\<close>); hence a signed token parses to
  its claims exactly when its algorithm is an HMAC, the verifying key is the signing key
  and the expiry check passes.
\<close>

lemma hex_val_hex_digit: "n < 16 \<Longrightarrow> hex_val (hex_digit n) = Some n"
  by (simp add: hex_val_def hex_digit_def)

lemma of_char_div16: "(of_char c :: nat) div 16 < 16"
proof -
  have "(of_char c :: nat) < 16 * 16" using of_char_lt_256 [of c] by simp
  then show ?thesis by (simp add: div_less_iff_less_mult)
qed

lemma hex_decode_encode: "hex_decode (hex_encode s) = Some s"
proof (induction s)
  case Nil
  then show ?case by (simp add: hex_encode_def)
next
  case (Cons c s)
  have lt: "(of_char c :: nat) div 16 < 16" by (rule of_char_div16)
  have eq: "char_of (16 * ((of_char c :: nat) div 16) + of_char c mod 16) = c"
    by (simp add: char_of_char)
  show ?case using Cons.IH lt eq
    by (simp add: hex_encode_def hex_val_hex_digit)
qed

lemma hex_digit_not_dot: "n < 16 \<Longrightarrow> CHR ''.'' \<noteq> hex_digit n"
proof
  assume n: "n < 16" and h: "CHR ''.'' = hex_digit n"
  then have "hex_val (hex_digit n) = None" by (simp add: hex_val_def flip: h)
  with hex_val_hex_digit [OF n] show False by simp
qed

lemma dot_notin_hex_encode: "CHR ''.'' \<notin> set (hex_encode s)"
  by (simp add: hex_encode_def hex_digit_not_dot of_char_div16)

lemma split_on_acc_no_delim: "d \<notin> set xs \<Longrightarrow> split_on_acc d acc xs = [rev acc @ xs]"
  by (induction xs arbitrary: acc) auto

lemma split_on_acc_delim:
  "d \<notin> set xs \<Longrightarrow> split_on_acc d acc (xs @ d # ys) = (rev acc @ xs) # split_on_acc d [] ys"
  by (induction xs arbitrary: acc) auto

lemma split_dots_three:
  assumes "CHR ''.'' \<notin> set a" "CHR ''.'' \<notin> set b" "CHR ''.'' \<notin> set c"
  shows "split_dots (a @ CHR ''.'' # b @ CHR ''.'' # c) = [a, b, c]"
  using assms by (simp add: split_dots_def split_on_acc_delim split_on_acc_no_delim)

lemma alg_of_name_alg_name [simp]: "alg_of_name (alg_name m) = Some m"
  by (cases m) (simp_all add: alg_of_name_def)

lemma colon_notin_go_itoa: "CHR '':'' \<notin> set (go_itoa v)"
proof -
  have "\<And>n. CHR '':'' \<notin> set (nat_digits n)"
    using nat_digits_props by (fastforce simp: list_all_iff is_dec_digit_def)
  then show ?thesis by (simp add: go_itoa_def)
qed

lemma parse_payload_jwt_payload: "parse_payload (jwt_payload c) = Some c"
proof -
  let ?P = "\<lambda>x. x \<noteq> CHR '':''" and ?s = "go_itoa (claim_exp c)"
  have n: "\<And>x. x \<in> set ?s \<Longrightarrow> ?P x" using colon_notin_go_itoa by blast
  have d: "dropWhile ?P (?s @ CHR '':'' # claim_email c) = CHR '':'' # claim_email c"
    using dropWhile_append2 [of ?s ?P, OF n] by simp
  have t: "takeWhile ?P (?s @ CHR '':'' # claim_email c) = ?s"
    using takeWhile_append2 [of ?s ?P, OF n] by simp
  have "atoi ?s = (claim_exp c, None)"
    by (simp add: atoi_eq_parse_int parse_int_go_itoa)
  then show ?thesis using d t by (simp add: parse_payload_def jwt_payload_def)
qed

lemma jwt_parse_signed_string:
  "jwt_parse key now (signed_string m c key') =
     (if is_hmac m \<and> key' = key \<and> exp_valid now (claim_exp c) then Some c else None)"
proof -
  let ?h = "hex_encode (alg_name m)" and ?p = "hex_encode (jwt_payload c)"
  have sp: "split_dots (signed_string m c key') = [?h, ?p, hex_encode (hs_mac m key' (signing_string m c))]"
    by (simp add: signed_string_def signing_string_def split_dots_three dot_notin_hex_encode)
  have mac: "hs_mac m key' (signing_string m c) = hs_mac m key (?h @ CHR ''.'' # ?p) \<longleftrightarrow> key' = key"
    by (simp add: hs_mac_def signing_string_def)
  show ?thesis using sp mac
    by (simp add: jwt_parse_def hex_decode_encode parse_payload_jwt_payload signing_string_def)
qed

end
