(* ===== verification/Identity.thy ===== *)
theory Identity
  imports Http Jwt
begin

text \<open>
  The identity and credential service and the authorization gate of \<open>src/main.go\<close>:
  \<open>authenticate\<close> (the middleware wrapping every mutating route), \<open>register\<close>,
  \<open>login\<close> and \<open>isEmailUsed\<close>. Tokens are those of theory \<open>Jwt\<close>, signed and checked
  with the hard-coded key \<open>"secretKey"\<close>.
\<close>

definition secret_key :: string where
  "secret_key = ''secretKey''"

text \<open>
  The token \<open>register\<close> and \<open>login\<close> issue: HS256 over \<open>{"email": e, "exp":
  time.Now().Add(24h).Unix()}\<close>. \<open>SignedString\<close> cannot fail for HMAC with a
  \<open>[]byte\<close> key, so the handlers' \<open>err != nil\<close> branch after it is not reachable and
  not modelled.
\<close>

definition session_token :: "request \<Rightarrow> string \<Rightarrow> string" where
  "session_token r e =
     signed_string HS256 \<lparr>claim_email = e, claim_exp = req_now r + 86400\<rparr> secret_key"

definition authenticate :: "handler \<Rightarrow> handler" where
  "authenticate next h r =
     (if req_auth r = [] then Ok (h, reply 401 (JError ''Missing authorization token''))
      else if jwt_parse secret_key (req_now r) (req_auth r) = None
      then Ok (h, reply 401 (JError ''Invalid authorization token''))
      else next h r)"

definition isEmailUsed :: "db_handle \<Rightarrow> string \<Rightarrow> bool" where
  "isEmailUsed h e =
     (let count = (case h of None \<Rightarrow> 0 | Some d \<Rightarrow> tbl_count (\<lambda>u. email u = e) (users d))
      in 0 < count)"

text \<open>
  \<open>register\<close>: the decoded user is inserted as decoded (every field, \<open>id\<close> and
  \<open>is_admin\<close> included), then a default store for \<open>user.ID\<close>. The errors of both
  inserts are discarded: the code tests \<open>db.Error\<close>, the field of the package-level
  handle, which \<open>Create\<close> does not set.
\<close>

definition default_store :: "go_int \<Rightarrow> toko" where
  "default_store uid =
     \<lparr>toko_id = 0, toko_id_user = uid, nama_toko = ''Default Store'', url_toko = ''https://example.com''\<rparr>"

definition register :: handler where
  "register h r =
     (let u = req_body r in
      if isEmailUsed h (email u) then Ok (h, reply 400 (JError ''Email already in use''))
      else
        (let tok = session_token r (email u) in
         with_db h (\<lambda>d.
           case create_user d u of (_, d1, u') \<Rightarrow>
             if root_error d1 \<noteq> None then (d1, reply 500 JNone)
             else (case create_toko d1 (default_store (user_id u')) of (_, d2, st) \<Rightarrow>
               if root_error d2 \<noteq> None then (d2, reply 500 JNone)
               else (d2, reply 200 (JRegister tok u' st))))))"

text \<open>\<open>login\<close> signs a token for the submitted email; it reads no stored data.\<close>

definition login :: handler where
  "login h r = Ok (h, reply 200 (JToken (session_token r (email (req_body r)))))"

subsection \<open>Tokens issued by the service\<close>

lemma session_token_parse:
  "jwt_parse key now (session_token r e) =
     (if key = secret_key \<and> exp_valid now (req_now r + 86400)
      then Some \<lparr>claim_email = e, claim_exp = req_now r + 86400\<rparr> else None)"
  by (simp add: session_token_def jwt_parse_signed_string)

lemma sint_add_day:
  "sint t + 86400 < 2 ^ 63 \<Longrightarrow> sint (t + 86400 :: go_int) = sint t + 86400"
proof -
  assume a: "sint t + 86400 < 2 ^ 63"
  have "- (2 ^ 63) \<le> sint t" using sint_ge [of t] by simp
  then have "signed_take_bit 63 (sint t + 86400) = sint t + 86400"
    using a by (simp add: signed_take_bit_int_eq_self)
  then show ?thesis by (simp add: sint_word_ariths(1))
qed

lemma session_token_nonempty: "session_token r e \<noteq> []"
  by (simp add: session_token_def signed_string_def)

lemma default_store_check:
  "1 \<le> i \<Longrightarrow> i \<le> int32_max \<Longrightarrow> toko_check (default_store (word_of_int i)) = None"
  by (simp add: toko_check_def default_store_def int32_fits_def varchar_fits_def)

lemma isEmailUsed_Some: "isEmailUsed (Some d) e \<longleftrightarrow> list_ex (\<lambda>u. email u = e) (rows (users d))"
  by (simp add: isEmailUsed_def tbl_count_def list_ex_iff filter_empty_conv)

subsection \<open>Properties of the gate and of login\<close>

text \<open>
  C6: a token issued by \<open>register\<close> or \<open>login\<close> at time \<open>t0\<close> passes the gate at every
  time up to \<open>t0 + 24h\<close>: the request reaches the wrapped handler unchanged.
\<close>

theorem gate_accepts_fresh_session_token:
  assumes "req_auth r = session_token r0 e"
    and "sint (req_now r0) + 86400 < 2 ^ 63"
    and "sint (req_now r) \<le> sint (req_now r0) + 86400"
  shows "authenticate next h r = next h r"
  using assms
  by (simp add: authenticate_def session_token_parse session_token_nonempty exp_valid_def sint_add_day)

theorem gate_accepts_fresh_session_token_witness:
  "req_auth (sample_request\<lparr>req_auth := session_token sample_request ''a@example.com'', req_now := 1700050000\<rparr>)
     = session_token sample_request ''a@example.com'' \<and>
   sint (req_now sample_request) + 86400 < 2 ^ 63 \<and>
   sint (req_now (sample_request\<lparr>req_auth := session_token sample_request ''a@example.com'', req_now := 1700050000\<rparr>))
     \<le> sint (req_now sample_request) + 86400 \<and>
   authenticate login None (sample_request\<lparr>req_auth := session_token sample_request ''a@example.com'', req_now := 1700050000\<rparr>)
     = login None (sample_request\<lparr>req_auth := session_token sample_request ''a@example.com'', req_now := 1700050000\<rparr>)"
  using gate_accepts_fresh_session_token
    [of "sample_request\<lparr>req_auth := session_token sample_request ''a@example.com'', req_now := 1700050000\<rparr>"
        sample_request "''a@example.com''" login None]
  by (simp add: sample_request_def)

text \<open>
  C7: the same token presented more than 24 hours after issuance is answered 401
  \<open>Invalid authorization token\<close> and the wrapped handler does not run (an issuance time
  of exactly \<open>-86400\<close> would give \<open>exp = 0\<close>, which jwt-go reads as ``never expires'').
\<close>

theorem gate_rejects_expired_session_token:
  assumes "req_auth r = session_token r0 e"
    and "sint (req_now r0) + 86400 < 2 ^ 63" and "sint (req_now r0) \<noteq> - 86400"
    and "sint (req_now r0) + 86400 < sint (req_now r)"
  shows "authenticate next h r = Ok (h, reply 401 (JError ''Invalid authorization token''))"
proof -
  have "sint (req_now r0 + 86400) \<noteq> 0"
    using assms(3) sint_add_day [OF assms(2)] by simp
  then have "req_now r0 + 86400 \<noteq> 0" by (metis signed_0)
  then show ?thesis using assms
    by (simp add: authenticate_def session_token_parse session_token_nonempty exp_valid_def sint_add_day)
qed

theorem gate_rejects_expired_session_token_witness:
  "req_auth (sample_request\<lparr>req_auth := session_token sample_request ''a@example.com'', req_now := 1700090000\<rparr>)
     = session_token sample_request ''a@example.com'' \<and>
   sint (req_now sample_request) + 86400 < 2 ^ 63 \<and> sint (req_now sample_request) \<noteq> - 86400 \<and>
   sint (req_now sample_request) + 86400
     < sint (req_now (sample_request\<lparr>req_auth := session_token sample_request ''a@example.com'', req_now := 1700090000\<rparr>)) \<and>
   authenticate login None (sample_request\<lparr>req_auth := session_token sample_request ''a@example.com'', req_now := 1700090000\<rparr>)
     = Ok (None, reply 401 (JError ''Invalid authorization token''))"
  using gate_rejects_expired_session_token
    [of "sample_request\<lparr>req_auth := session_token sample_request ''a@example.com'', req_now := 1700090000\<rparr>"
        sample_request "''a@example.com''" login None]
  by (simp add: sample_request_def)

subsection \<open>Properties of registration\<close>

text \<open>
  C4: registering a fresh email on a well-formed database stores the decoded user under
  the next \<open>AUTO_INCREMENT\<close> id, then a default store for that id under the next store
  id, both appended at the end of their tables, and answers with a token for the email,
  the stored user and the stored store.
\<close>

theorem register_fresh_email:
  assumes wf: "db_wf d" and ok: "root_error d = None"
    and fresh: "\<not> list_ex (\<lambda>x. email x = email (req_body r)) (rows (users d))"
    and c: "user_check (req_body r) = None" and z: "user_id (req_body r) = 0"
    and lu: "auto_inc (users d) \<le> int32_max" and lt: "auto_inc (tokos d) \<le> int32_max"
  shows "register (Some d) r =
           (let u' = (req_body r)\<lparr>user_id := word_of_int (auto_inc (users d))\<rparr>;
                st = (default_store (user_id u'))\<lparr>toko_id := word_of_int (auto_inc (tokos d))\<rparr>
            in Ok (Some (d\<lparr>users := (users d)\<lparr>rows := rows (users d) @ [u'], auto_inc := auto_inc (users d) + 1\<rparr>,
                          tokos := (tokos d)\<lparr>rows := rows (tokos d) @ [st], auto_inc := auto_inc (tokos d) + 1\<rparr>\<rparr>),
                   reply 200 (JRegister (session_token r (email (req_body r))) u' st)))"
proof -
  have wu: "tbl_wf user_id (users d)" and wt: "tbl_wf toko_id (tokos d)" using wf by (simp_all add: db_wf_def)
  have a1: "1 \<le> auto_inc (users d)" using wu by (simp add: tbl_wf_def)
  have tu: "tbl_create user_id (\<lambda>i x. x\<lparr>user_id := i\<rparr>) user_check (users d) (req_body r) =
              (None, (users d)\<lparr>rows := rows (users d) @ [(req_body r)\<lparr>user_id := word_of_int (auto_inc (users d))\<rparr>],
                                           auto_inc := auto_inc (users d) + 1\<rparr>,
               (req_body r)\<lparr>user_id := word_of_int (auto_inc (users d))\<rparr>)"
    by (rule tbl_create_auto_append) (use wu c z lu in simp_all)
  have cu: "create_user d (req_body r) =
              (None, d\<lparr>users := (users d)\<lparr>rows := rows (users d) @ [(req_body r)\<lparr>user_id := word_of_int (auto_inc (users d))\<rparr>],
                                           auto_inc := auto_inc (users d) + 1\<rparr>\<rparr>,
               (req_body r)\<lparr>user_id := word_of_int (auto_inc (users d))\<rparr>)"
    by (simp add: create_user_def tu)
  have ct: "toko_check (default_store (word_of_int (auto_inc (users d)))) = None"
    using a1 lu by (rule default_store_check)
  have tt: "tbl_create toko_id (\<lambda>i x. x\<lparr>toko_id := i\<rparr>) toko_check (tokos d) (default_store (word_of_int (auto_inc (users d)))) =
              (None, (tokos d)\<lparr>rows := rows (tokos d) @ [(default_store (word_of_int (auto_inc (users d))))\<lparr>toko_id := word_of_int (auto_inc (tokos d))\<rparr>],
                                           auto_inc := auto_inc (tokos d) + 1\<rparr>,
               (default_store (word_of_int (auto_inc (users d))))\<lparr>toko_id := word_of_int (auto_inc (tokos d))\<rparr>)"
    by (rule tbl_create_auto_append) (use wt ct lt in \<open>simp_all add: default_store_def\<close>)
  have ctk: "create_toko d' (default_store (word_of_int (auto_inc (users d)))) =
              (None, d'\<lparr>tokos := (tokos d)\<lparr>rows := rows (tokos d) @ [(default_store (word_of_int (auto_inc (users d))))\<lparr>toko_id := word_of_int (auto_inc (tokos d))\<rparr>],
                                           auto_inc := auto_inc (tokos d) + 1\<rparr>\<rparr>,
               (default_store (word_of_int (auto_inc (users d))))\<lparr>toko_id := word_of_int (auto_inc (tokos d))\<rparr>)"
    if "tokos d' = tokos d" for d'
    using that by (simp add: create_toko_def tt)
  show ?thesis using fresh ok
    by (simp add: register_def isEmailUsed_Some cu ctk Let_def)
qed

text \<open>
  C5: registering an email some user already has answers 400 \<open>Email already in use\<close>
  and leaves the database as it was.
\<close>

theorem register_duplicate_email:
  assumes "list_ex (\<lambda>x. email x = email (req_body r)) (rows (users d))"
  shows "register (Some d) r = Ok (Some d, reply 400 (JError ''Email already in use''))"
  using assms by (simp add: register_def isEmailUsed_Some)

text \<open>
  C8: a token the gate did not issue is refused: one signed with any other key, or with a
  non-HMAC algorithm (\<open>none\<close>, RS256), is answered 401 \<open>Invalid authorization
  token\<close>, whatever its claims, and the wrapped handler does not run.
\<close>

theorem gate_rejects_forged_token:
  assumes "req_auth r = signed_string m c key" and "\<not> (is_hmac m \<and> key = secret_key)"
  shows "authenticate next h r = Ok (h, reply 401 (JError ''Invalid authorization token''))"
proof -
  have "jwt_parse secret_key (req_now r) (req_auth r) = None"
    using assms by (auto simp: jwt_parse_signed_string)
  moreover have "req_auth r \<noteq> []" using assms(1) by (simp add: signed_string_def)
  ultimately show ?thesis by (simp add: authenticate_def)
qed

end
