(* ===== verification/Slug.thy ===== *)
theory Slug
  imports Prelude
begin

text \<open>
  \<open>slug.Make\<close> of \<open>github.com/gosimple/slug\<close>, which \<open>createProduct\<close> applies to the
  product name. The library is not part of the repository; the model follows its
  \<open>MakeLang(s, "en")\<close> pipeline stage by stage: \<open>strings.TrimSpace\<close>; the rune
  substitutions of the English table merged with the default one (\<open>&\<close> becomes
  \<open>and\<close>, \<open>@\<close> becomes \<open>at\<close>, double and single quotes are dropped);
  \<open>unidecode\<close>, the identity on ASCII; \<open>strings.ToLower\<close>; every character outside
  \<open>[a-zA-Z0-9-_]\<close> replaced by \<open>-\<close>; every run \<open>-+\<close> collapsed to one \<open>-\<close>; and
  \<open>strings.Trim(slug, "-_")\<close>. \<open>MaxLength\<close> is 0, so nothing is truncated. Strings are
  byte strings; the model is exact on ASCII input, and bytes of non-ASCII text, which
  \<open>unidecode\<close> would transliterate, are treated as unauthorised characters.
\<close>

definition is_alnum :: "char \<Rightarrow> bool" where
  "is_alnum c \<longleftrightarrow> (let n = (of_char c :: nat) in
     (48 \<le> n \<and> n \<le> 57) \<or> (65 \<le> n \<and> n \<le> 90) \<or> (97 \<le> n \<and> n \<le> 122))"

definition to_lower :: "char \<Rightarrow> char" where
  "to_lower c = (let n = (of_char c :: nat) in if 65 \<le> n \<and> n \<le> 90 then char_of (n + 32) else c)"

text \<open>\<open>unicode.IsSpace\<close> on ASCII: tab, newline, vertical tab, form feed, carriage return, space.\<close>

definition go_is_space :: "char \<Rightarrow> bool" where
  "go_is_space c \<longleftrightarrow> (let n = (of_char c :: nat) in (9 \<le> n \<and> n \<le> 13) \<or> n = 32)"

text \<open>\<open>strings.Trim\<close>-style removal of a character class at both ends.\<close>

definition trim_ends :: "(char \<Rightarrow> bool) \<Rightarrow> string \<Rightarrow> string" where
  "trim_ends P s = rev (dropWhile P (rev (dropWhile P s)))"

text \<open>\<open>SubstituteRune(slug, enSub)\<close> with \<open>defaultSub\<close> merged in, on ASCII runes.\<close>

definition slug_sub_rune :: "char \<Rightarrow> string" where
  "slug_sub_rune c = (if c = CHR ''&'' then ''and'' else if c = CHR ''@'' then ''at''
     else if c = CHR 0x22 \<or> c = CHR 0x27 then [] else [c])"

text \<open>\<open>regexpNonAuthorizedChars = [^a-zA-Z0-9-_]\<close>.\<close>

definition slug_authorized :: "char \<Rightarrow> bool" where
  "slug_authorized c \<longleftrightarrow> is_alnum c \<or> c = CHR ''-'' \<or> c = CHR ''_''"

text \<open>\<open>regexpMultipleDashes = -+\<close>, each run replaced by one dash.\<close>

fun collapse_dashes :: "string \<Rightarrow> string" where
  "collapse_dashes (a # b # cs) =
     (if a = CHR ''-'' \<and> b = CHR ''-'' then collapse_dashes (b # cs) else a # collapse_dashes (b # cs))"
| "collapse_dashes cs = cs"

definition slug_cut :: "char \<Rightarrow> bool" where
  "slug_cut c \<longleftrightarrow> c = CHR ''-'' \<or> c = CHR ''_''"

definition slug_make :: "string \<Rightarrow> string" where
  "slug_make s =
     (let s1 = trim_ends go_is_space s;
          s2 = concat (map slug_sub_rune s1);
          s3 = map to_lower s2;
          s4 = map (\<lambda>c. if slug_authorized c then c else CHR ''-'') s3;
          s5 = collapse_dashes s4
      in trim_ends slug_cut s5)"

text \<open>The shape of a slug: lowercase letters, digits, \<open>-\<close> and \<open>_\<close>, no two adjacent
  dashes, neither \<open>-\<close> nor \<open>_\<close> at either end, and its own slug.\<close>

definition slug_char :: "char \<Rightarrow> bool" where
  "slug_char c \<longleftrightarrow> (is_alnum c \<and> to_lower c = c) \<or> c = CHR ''-'' \<or> c = CHR ''_''"

definition no_double_dash :: "char \<Rightarrow> char \<Rightarrow> bool" where
  "no_double_dash a b \<longleftrightarrow> \<not> (a = CHR ''-'' \<and> b = CHR ''-'')"

definition slug_ok :: "string \<Rightarrow> bool" where
  "slug_ok s \<longleftrightarrow> list_all slug_char s \<and> successively no_double_dash s \<and>
     (s = [] \<or> \<not> slug_cut (hd s) \<and> \<not> slug_cut (last s)) \<and> slug_make s = s"

subsection \<open>Evaluation\<close>

lemma char_of_nat_eq_iff: "char_of (n :: nat) = c \<longleftrightarrow> n mod 256 = of_char c"
proof
  assume "char_of n = c"
  then show "n mod 256 = of_char c" by (metis of_char_of)
next
  assume "n mod 256 = of_char c"
  then show "char_of n = c" by (metis char_of_char char_of_mod_256)
qed

lemmas slug_eval = slug_make_def trim_ends_def go_is_space_def slug_sub_rune_def slug_authorized_def
  slug_cut_def is_alnum_def to_lower_def char_of_nat_eq_iff Let_def

subsection \<open>Characters\<close>

lemma of_char_to_lower: "of_char (to_lower c) = (let n = (of_char c :: nat) in if 65 \<le> n \<and> n \<le> 90 then n + 32 else n)"
  by (simp add: to_lower_def of_char_of Let_def)

lemma is_alnum_to_lower: "is_alnum c \<Longrightarrow> is_alnum (to_lower c)"
  by (simp add: is_alnum_def of_char_to_lower Let_def)

lemma to_lower_idem: "to_lower (to_lower c) = to_lower c"
  by (simp add: to_lower_def of_char_of Let_def)

lemma slug_char_authorized: "slug_authorized (to_lower c) \<Longrightarrow> slug_char (to_lower c)" "slug_char CHR ''-''"
  by (auto simp: slug_char_def slug_authorized_def is_alnum_to_lower to_lower_idem)

lemma slug_char_space: "slug_char c \<Longrightarrow> \<not> go_is_space c"
  by (auto simp: slug_char_def go_is_space_def is_alnum_def Let_def)

lemma slug_char_sub: "slug_char c \<Longrightarrow> slug_sub_rune c = [c]"
  by (auto simp: slug_char_def slug_sub_rune_def is_alnum_def)

lemma slug_char_lower: "slug_char c \<Longrightarrow> to_lower c = c"
  by (auto simp: slug_char_def to_lower_def)

lemma slug_char_keep: "slug_char c \<Longrightarrow> slug_authorized c"
  by (auto simp: slug_char_def slug_authorized_def)

subsection \<open>Stages\<close>

lemma collapse_dashes_Cons: "\<exists>t. collapse_dashes (b # cs) = b # t"
  by (induction "b # cs" arbitrary: b cs rule: collapse_dashes.induct) auto

lemma collapse_dashes_set: "set (collapse_dashes s) \<subseteq> set s"
  by (induction s rule: collapse_dashes.induct) auto

lemma collapse_dashes_ndd: "successively no_double_dash (collapse_dashes s)"
proof (induction s rule: collapse_dashes.induct)
  case (1 a b cs)
  obtain t where "collapse_dashes (b # cs) = b # t" using collapse_dashes_Cons by blast
  then show ?case using 1 by (auto simp: no_double_dash_def)
qed simp_all

lemma collapse_dashes_id: "successively no_double_dash s \<Longrightarrow> collapse_dashes s = s"
  by (induction s rule: collapse_dashes.induct) (auto simp: no_double_dash_def)

lemma trim_ends_split: "\<exists>l r. s = l @ trim_ends P s @ r"
proof -
  let ?t = "dropWhile P s"
  have "s = takeWhile P s @ ?t" by simp
  moreover have "?t = rev (dropWhile P (rev ?t)) @ rev (takeWhile P (rev ?t))"
    by (metis rev_append rev_rev_ident takeWhile_dropWhile_id)
  ultimately show ?thesis unfolding trim_ends_def by (metis append.assoc)
qed

lemma trim_ends_set: "set (trim_ends P s) \<subseteq> set s"
  using trim_ends_split [of s P] by (metis Un_iff set_append subsetI)

lemma trim_ends_successively: "successively Q s \<Longrightarrow> successively Q (trim_ends P s)"
  using trim_ends_split [of s P] by (metis successively_append_iff)

lemma trim_ends_ends: "trim_ends P s = [] \<or> \<not> P (hd (trim_ends P s)) \<and> \<not> P (last (trim_ends P s))"
proof (cases "trim_ends P s = []")
  case False
  let ?t = "dropWhile P s"
  have last: "\<not> P (last (trim_ends P s))"
    using False hd_dropWhile [of P "rev ?t"] by (simp add: trim_ends_def last_rev)
  have "?t = trim_ends P s @ rev (takeWhile P (rev ?t))"
    unfolding trim_ends_def by (metis rev_append rev_rev_ident takeWhile_dropWhile_id)
  then have "hd ?t = hd (trim_ends P s)" using False by (metis hd_append2)
  moreover have "?t \<noteq> []"
  proof
    assume "?t = []"
    then have "trim_ends P s = []" unfolding trim_ends_def by (metis dropWhile.simps(1) rev.simps(1))
    then show False using False by simp
  qed
  moreover have "\<not> P (hd ?t)" using \<open>?t \<noteq> []\<close> by (rule hd_dropWhile)
  ultimately show ?thesis using last by simp
qed simp

lemma dropWhile_hd_id: "s = [] \<or> \<not> P (hd s) \<Longrightarrow> dropWhile P s = s"
  by (cases s) auto

lemma trim_ends_id:
  assumes "s = [] \<or> \<not> P (hd s) \<and> \<not> P (last s)"
  shows "trim_ends P s = s"
proof -
  have d: "dropWhile P s = s" using assms by (auto intro: dropWhile_hd_id)
  have "rev s = [] \<or> \<not> P (hd (rev s))" using assms by (auto simp: hd_rev)
  then show ?thesis using d by (simp add: trim_ends_def dropWhile_hd_id)
qed

subsection \<open>Shape of a slug\<close>

lemma slug_make_chars: "list_all slug_char (slug_make s)"
proof -
  let ?s4 = "map (\<lambda>c. if slug_authorized c then c else CHR ''-'') (map to_lower (concat (map slug_sub_rune (trim_ends go_is_space s))))"
  have "list_all slug_char ?s4" by (auto simp: list_all_iff intro: slug_char_authorized)
  then have "list_all slug_char (trim_ends slug_cut (collapse_dashes ?s4))"
    unfolding list_all_iff using collapse_dashes_set [of ?s4] trim_ends_set [of slug_cut "collapse_dashes ?s4"]
    by blast
  then show ?thesis unfolding slug_make_def Let_def .
qed

lemma slug_make_ndd: "successively no_double_dash (slug_make s)"
  by (simp add: slug_make_def Let_def collapse_dashes_ndd trim_ends_successively)

lemma slug_make_ends: "slug_make s = [] \<or> \<not> slug_cut (hd (slug_make s)) \<and> \<not> slug_cut (last (slug_make s))"
  unfolding slug_make_def Let_def by (rule trim_ends_ends)

lemma slug_make_fix:
  assumes c: "list_all slug_char s" and n: "successively no_double_dash s"
    and e: "s = [] \<or> \<not> slug_cut (hd s) \<and> \<not> slug_cut (last s)"
  shows "slug_make s = s"
proof -
  have "s = [] \<or> \<not> go_is_space (hd s) \<and> \<not> go_is_space (last s)"
    using c slug_char_space by (cases "s = []") (simp_all add: list_all_iff)
  then have t: "trim_ends go_is_space s = s" by (rule trim_ends_id)
  have "concat (map slug_sub_rune s) = s" using c by (induction s) (simp_all add: slug_char_sub)
  moreover have "map ((\<lambda>c. if slug_authorized c then c else CHR ''-'') \<circ> to_lower) s = s"
    using c by (induction s) (simp_all add: slug_char_keep slug_char_lower)
  ultimately show ?thesis using t n e by (simp add: slug_make_def collapse_dashes_id trim_ends_id)
qed

lemma slug_make_ok: "slug_ok (slug_make s)"
  using slug_make_chars slug_make_ndd slug_make_ends slug_make_fix [OF slug_make_chars slug_make_ndd slug_make_ends]
  by (simp add: slug_ok_def)

lemma slug_make_example:
  "slug_make ''Kaos Polos'' = ''kaos-polos'' \<and> slug_make '' Tom & Jerry's_Tee! '' = ''tom-and-jerrys_tee''"
  by (simp add: slug_eval)

end
