(* ===== verification/Domain.thy ===== *)
theory Domain
  imports Http Strconv Slug
begin

text \<open>
  The domain operations of \<open>src/main.go\<close>, one definition per handler, in the order
  of the source: store, address, category, product and transaction, each a create and a
  get. Each resolves its parent with \<open>db.First(&parent, id)\<close> where the code does,
  answers 404 when it is absent, and otherwise persists and encodes the entity. The path
  variable and the numeric form fields go through \<open>strconv.Atoi\<close> with the error
  discarded (\<open>atoi_val\<close>); the error of \<open>db.Create\<close> is discarded too, so the
  response carries the struct as it stands after the insert.
\<close>

definition generateInvoiceCode :: string where
  "generateInvoiceCode = []"

definition createStore :: handler where
  "createStore h r = with_db h (\<lambda>d.
     (let userID = atoi_val (mux_var r ''id'') in
      case first_user d userID of
        None \<Rightarrow> (d, reply 404 (JError ''User not found''))
      | Some u \<Rightarrow>
          (case create_toko d \<lparr>toko_id = 0, toko_id_user = user_id u,
                  nama_toko = form_value r ''nama_toko'', url_toko = form_value r ''url_toko''\<rparr> of
             (_, d', st) \<Rightarrow> (d', reply 200 (JToko st)))))"

definition getStore :: handler where
  "getStore h r = with_db h (\<lambda>d.
     (let userID = atoi_val (mux_var r ''id'') in
      case first_user d userID of
        None \<Rightarrow> (d, reply 404 (JError ''User not found''))
      | Some _ \<Rightarrow>
          (case tbl_where_first (\<lambda>s. toko_id_user s = userID) (tokos d) of
             None \<Rightarrow> (d, reply 404 (JError ''Store not found''))
           | Some st \<Rightarrow> (d, reply 200 (JToko st)))))"

definition createAddress :: handler where
  "createAddress h r = with_db h (\<lambda>d.
     (let userID = atoi_val (mux_var r ''id'') in
      case first_user d userID of
        None \<Rightarrow> (d, reply 404 (JError ''User not found''))
      | Some u \<Rightarrow>
          (case create_alamat d \<lparr>alamat_id = 0, alamat_id_user = user_id u,
                  judul_alamat = form_value r ''judul_alamat'',
                  nama_penerima = form_value r ''nama_penerima'',
                  alamat_no_telp = form_value r ''no_telp'',
                  detail_alamat = form_value r ''detail_alamat''\<rparr> of
             (_, d', a) \<Rightarrow> (d', reply 200 (JAlamat a)))))"

definition getAddress :: handler where
  "getAddress h r = with_db h (\<lambda>d.
     (let userID = atoi_val (mux_var r ''id'') in
      case first_user d userID of
        None \<Rightarrow> (d, reply 404 (JError ''User not found''))
      | Some _ \<Rightarrow> (d, reply 200 (JAlamats (tbl_where (\<lambda>a. alamat_id_user a = userID) (alamats d))))))"

definition createCategory :: handler where
  "createCategory h r = with_db h (\<lambda>d.
     (case create_kategori d \<lparr>kategori_id = 0, nama_kategori = form_value r ''nama_kategori''\<rparr> of
        (_, d', k) \<Rightarrow> (d', reply 200 (JKategori k))))"

definition getCategories :: handler where
  "getCategories h r = with_db h (\<lambda>d.
     (d, reply 200 (JKategoris (tbl_where (\<lambda>_. True) (kategoris d)))))"

definition createProduct :: handler where
  "createProduct h r = with_db h (\<lambda>d.
     (let storeID = atoi_val (mux_var r ''id'') in
      case first_toko d storeID of
        None \<Rightarrow> (d, reply 404 (JError ''Store not found''))
      | Some _ \<Rightarrow>
          (let idKategori = atoi_val (form_value r ''id_category'');
               hargaReseller = atoi_val (form_value r ''harga_reseller'');
               hargaKonsumen = atoi_val (form_value r ''harga_konsumen'');
               stok = atoi_val (form_value r ''stok'') in
           case create_produk d \<lparr>produk_id = 0, id_toko = storeID, id_category = idKategori,
                  nama_produk = form_value r ''nama_produk'',
                  slug = slug_make (form_value r ''nama_produk''),
                  harga_reseller = hargaReseller, harga_konsumen = hargaKonsumen, stok = stok,
                  deskripsi = form_value r ''deskripsi''\<rparr> of
             (_, d', p) \<Rightarrow> (d', reply 200 (JProduk p)))))"

definition getProducts :: handler where
  "getProducts h r = with_db h (\<lambda>d.
     (let storeID = atoi_val (mux_var r ''id'') in
      case first_toko d storeID of
        None \<Rightarrow> (d, reply 404 (JError ''Store not found''))
      | Some _ \<Rightarrow> (d, reply 200 (JProduks (tbl_where (\<lambda>p. id_toko p = storeID) (produks d))))))"

definition createTransaction :: handler where
  "createTransaction h r = with_db h (\<lambda>d.
     (let userID = atoi_val (mux_var r ''id'') in
      case first_user d userID of
        None \<Rightarrow> (d, reply 404 (JError ''User not found''))
      | Some u \<Rightarrow>
          (let idAlamat = atoi_val (form_value r ''id_alamat'');
               hargaTotal = atoi_val (form_value r ''harga_total'') in
           case create_transaksi d \<lparr>transaksi_id = 0, transaksi_id_user = user_id u,
                  id_alamat = idAlamat, harga_total = hargaTotal,
                  kode_invoice = generateInvoiceCode,
                  metode_pembayaran = form_value r ''metode_pembayaran''\<rparr> of
             (_, d', x) \<Rightarrow> (d', reply 200 (JTransaksi x)))))"

definition getTransactions :: handler where
  "getTransactions h r = with_db h (\<lambda>d.
     (let userID = atoi_val (mux_var r ''id'') in
      case first_user d userID of
        None \<Rightarrow> (d, reply 404 (JError ''User not found''))
      | Some _ \<Rightarrow> (d, reply 200 (JTransaksis (tbl_where (\<lambda>x. transaksi_id_user x = userID) (transaksis d))))))"

definition homePage :: handler where
  "homePage h r = Ok (h, reply 200 (JText ''Welcome to the homepage!''))"

subsection \<open>Properties of the domain operations\<close>

text \<open>
  C18: \<open>POST /stores/{id}/products\<close> for a store id no row has answers 404 \<open>Store not
  found\<close> and persists nothing.
\<close>

theorem createProduct_missing_store:
  assumes "\<not> list_ex (\<lambda>s. toko_id s = atoi_val (mux_var r ''id'')) (rows (tokos d))"
  shows "createProduct (Some d) r = Ok (Some d, reply 404 (JError ''Store not found''))"
  using assms by (simp add: createProduct_def first_toko_None_iff [symmetric])

text \<open>
  C23: a reseller price that \<open>strconv.Atoi\<close> reads as a value of \<open>2^31\<close> or more (a
  large number, or an overflowing digit run followed by junk, which saturates) does not
  fit the 32-bit column: the insert fails and the products table is unchanged, yet the
  handler answers 200 with the unsaved product (id 0), since the error of \<open>Create\<close> is
  discarded.
\<close>

theorem createProduct_out_of_range_price:
  assumes "list_ex (\<lambda>s. toko_id s = atoi_val (mux_var r ''id'')) (rows (tokos d))"
    and "2 ^ 31 \<le> sint (atoi_val (form_value r ''harga_reseller''))"
  shows "\<exists>p. createProduct (Some d) r = Ok (Some d, reply 200 (JProduk p)) \<and>
             produk_id p = 0 \<and> harga_reseller p = atoi_val (form_value r ''harga_reseller'')"
proof -
  obtain s where s: "first_toko d (atoi_val (mux_var r ''id'')) = Some s"
    using assms(1) first_toko_None_iff by (cases "first_toko d (atoi_val (mux_var r ''id''))") auto
  have nf: "\<not> int32_fits (atoi_val (form_value r ''harga_reseller''))" using assms(2) by (simp add: int32_fits_def)
  show ?thesis using s nf
    by (simp add: createProduct_def create_produk_def tbl_create_rejected produk_check_def reply_def Let_def)
qed

text \<open>
  C19: \<open>GET /users/{id}/store\<close> on a well-formed database, for an existing user with at
  least one store, answers 200 with the store of that owner with the least id (the
  default store of registration, however many stores \<open>createStore\<close> added later).
\<close>

theorem getStore_least_store:
  assumes wf: "db_wf d" and u: "first_user d (atoi_val (mux_var r ''id'')) \<noteq> None"
    and ex: "list_ex (\<lambda>s. toko_id_user s = atoi_val (mux_var r ''id'')) (rows (tokos d))"
  shows "\<exists>st. getStore (Some d) r = Ok (Some d, reply 200 (JToko st)) \<and> st \<in> set (rows (tokos d)) \<and>
              toko_id_user st = atoi_val (mux_var r ''id'') \<and>
              (\<forall>s\<in>set (rows (tokos d)). toko_id_user s = atoi_val (mux_var r ''id'') \<longrightarrow>
                 sint (toko_id st) \<le> sint (toko_id s))"
proof -
  let ?P = "\<lambda>s. toko_id_user s = atoi_val (mux_var r ''id'')"
  obtain st where f: "find ?P (rows (tokos d)) = Some st"
    using ex by (cases "find ?P (rows (tokos d))") (auto simp: find_None_iff' list_ex_iff)
  have so: "sorted_wrt (<) (map (tbl_key toko_id) (rows (tokos d)))" using wf by (simp add: db_wf_def tbl_wf_def)
  have least: "\<forall>s\<in>set (rows (tokos d)). ?P s \<longrightarrow> sint (toko_id st) \<le> sint (toko_id s)"
    using find_sorted_least [OF so f] by (simp add: tbl_key_def)
  obtain u' where "first_user d (atoi_val (mux_var r ''id'')) = Some u'" using u by blast
  then show ?thesis using f least find_Some_holds [OF f] find_Some_in_set [OF f]
    by (simp add: getStore_def tbl_where_first_def reply_def)
qed

text \<open>
  C22: \<open>createTransaction\<close> stores the submitted address id as it is, whatever the
  address table holds (no address with that id, or another user's): the transaction is
  appended under the next id, owned by the path's user, with the empty invoice code.
\<close>

theorem createTransaction_any_address:
  assumes wf: "db_wf d" and u: "first_user d (atoi_val (mux_var r ''id'')) = Some u"
    and fu: "int32_fits (user_id u)" and fa: "int32_fits (atoi_val (form_value r ''id_alamat''))"
    and fh: "int32_fits (atoi_val (form_value r ''harga_total''))"
    and fm: "varchar_fits (form_value r ''metode_pembayaran'')"
    and lim: "auto_inc (transaksis d) \<le> int32_max"
  shows "\<exists>x. createTransaction (Some d) r =
              Ok (Some (d\<lparr>transaksis := (transaksis d)\<lparr>rows := rows (transaksis d) @ [x],
                                                     auto_inc := auto_inc (transaksis d) + 1\<rparr>\<rparr>),
                  reply 200 (JTransaksi x)) \<and>
             transaksi_id x = word_of_int (auto_inc (transaksis d)) \<and> transaksi_id_user x = user_id u \<and>
             id_alamat x = atoi_val (form_value r ''id_alamat'') \<and> kode_invoice x = []"
proof -
  let ?x = "\<lparr>transaksi_id = 0, transaksi_id_user = user_id u,
              id_alamat = atoi_val (form_value r ''id_alamat''),
              harga_total = atoi_val (form_value r ''harga_total''), kode_invoice = generateInvoiceCode,
              metode_pembayaran = form_value r ''metode_pembayaran''\<rparr>"
  have wt: "tbl_wf transaksi_id (transaksis d)" using wf by (simp add: db_wf_def)
  have c: "transaksi_check ?x = None"
    using fu fa fh fm by (simp add: transaksi_check_def generateInvoiceCode_def int32_fits_def varchar_fits_def)
  have t: "tbl_create transaksi_id (\<lambda>i y. y\<lparr>transaksi_id := i\<rparr>) transaksi_check (transaksis d) ?x =
             (None, (transaksis d)\<lparr>rows := rows (transaksis d) @ [?x\<lparr>transaksi_id := word_of_int (auto_inc (transaksis d))\<rparr>],
                                   auto_inc := auto_inc (transaksis d) + 1\<rparr>,
              ?x\<lparr>transaksi_id := word_of_int (auto_inc (transaksis d))\<rparr>)"
    by (rule tbl_create_auto_append) (use wt c lim in simp_all)
  have run: "createTransaction (Some d) r =
      Ok (Some (d\<lparr>transaksis := (transaksis d)\<lparr>rows := rows (transaksis d) @ [?x\<lparr>transaksi_id := word_of_int (auto_inc (transaksis d))\<rparr>],
                                             auto_inc := auto_inc (transaksis d) + 1\<rparr>\<rparr>),
          reply 200 (JTransaksi (?x\<lparr>transaksi_id := word_of_int (auto_inc (transaksis d))\<rparr>)))"
    using u by (simp add: createTransaction_def create_transaksi_def t Let_def)
  show ?thesis using run by (intro exI [of _ "?x\<lparr>transaksi_id := word_of_int (auto_inc (transaksis d))\<rparr>"]) (simp add: generateInvoiceCode_def)
qed

text \<open>
  C26: on a well-formed database, \<open>createCategory\<close> with a name that fits the column
  refines the insertion of a fresh key into the finite map from id to category, and
  changes no other table.
\<close>

theorem createCategory_refines_map_insert:
  assumes wf: "db_wf d" and f: "varchar_fits (form_value r ''nama_kategori'')"
    and lim: "auto_inc (kategoris d) \<le> int32_max"
  shows "\<exists>d' k. createCategory (Some d) r = Ok (Some d', reply 200 (JKategori k)) \<and>
           tbl_abs kategori_id (kategoris d') = (tbl_abs kategori_id (kategoris d))(kategori_id k \<mapsto> k) \<and>
           kategori_id k \<notin> dom (tbl_abs kategori_id (kategoris d)) \<and>
           nama_kategori k = form_value r ''nama_kategori'' \<and> d' = d\<lparr>kategoris := kategoris d'\<rparr>"
proof -
  let ?k = "\<lparr>kategori_id = 0, nama_kategori = form_value r ''nama_kategori''\<rparr>"
  obtain e t k where ck: "tbl_create kategori_id (\<lambda>i x. x\<lparr>kategori_id := i\<rparr>) kategori_check (kategoris d) ?k = (e, t, k)"
    by (cases "tbl_create kategori_id (\<lambda>i x. x\<lparr>kategori_id := i\<rparr>) kategori_check (kategoris d) ?k") auto
  have wk: "tbl_wf kategori_id (kategoris d)" using wf by (simp add: db_wf_def)
  have c: "kategori_check ?k = None" using f by (simp add: kategori_check_def int32_fits_def)
  have "tbl_create kategori_id (\<lambda>i x. x\<lparr>kategori_id := i\<rparr>) kategori_check (kategoris d) ?k =
          (None, (kategoris d)\<lparr>rows := rows (kategoris d) @ [?k\<lparr>kategori_id := word_of_int (auto_inc (kategoris d))\<rparr>],
                                auto_inc := auto_inc (kategoris d) + 1\<rparr>,
           ?k\<lparr>kategori_id := word_of_int (auto_inc (kategoris d))\<rparr>)"
    by (rule tbl_create_auto_append) (use wk c lim in simp_all)
  then have e: "e = None" using ck by simp
  have ref: "tbl_abs kategori_id t = (tbl_abs kategori_id (kategoris d))(kategori_id k \<mapsto> k) \<and>
             tbl_abs kategori_id (kategoris d) (kategori_id k) = None"
    using tbl_create_refines [OF wk _ ck [unfolded e]] by simp
  have nk: "nama_kategori k = form_value r ''nama_kategori''"
    using tbl_create_row [OF ck] by auto
  show ?thesis using ck ref nk
    by (simp add: createCategory_def create_kategori_def reply_def domIff)
qed

text \<open>
  C21: on a well-formed database the three list handlers answer 200 with exactly the rows
  of the owner named in the path, in increasing id order, when the owner exists.
\<close>

theorem reads_list_owner_rows:
  assumes wf: "db_wf d"
  shows "(first_user d (atoi_val (mux_var r ''id'')) \<noteq> None \<longrightarrow>
            (\<exists>xs. getAddress (Some d) r = Ok (Some d, reply 200 (JAlamats xs)) \<and>
               set xs = {a \<in> set (rows (alamats d)). alamat_id_user a = atoi_val (mux_var r ''id'')} \<and>
               sorted_wrt (<) (map (\<lambda>a. sint (alamat_id a)) xs)) \<and>
            (\<exists>xs. getTransactions (Some d) r = Ok (Some d, reply 200 (JTransaksis xs)) \<and>
               set xs = {x \<in> set (rows (transaksis d)). transaksi_id_user x = atoi_val (mux_var r ''id'')} \<and>
               sorted_wrt (<) (map (\<lambda>x. sint (transaksi_id x)) xs))) \<and>
         (first_toko d (atoi_val (mux_var r ''id'')) \<noteq> None \<longrightarrow>
            (\<exists>xs. getProducts (Some d) r = Ok (Some d, reply 200 (JProduks xs)) \<and>
               set xs = {p \<in> set (rows (produks d)). id_toko p = atoi_val (mux_var r ''id'')} \<and>
               sorted_wrt (<) (map (\<lambda>p. sint (produk_id p)) xs)))"
proof -
  have a: "tbl_wf alamat_id (alamats d)" and x: "tbl_wf transaksi_id (transaksis d)"
    and p: "tbl_wf produk_id (produks d)" using wf by (simp_all add: db_wf_def)
  note ra = tbl_where_owner_rows [OF a, of "\<lambda>a. alamat_id_user a = atoi_val (mux_var r ''id'')"]
  note rx = tbl_where_owner_rows [OF x, of "\<lambda>x. transaksi_id_user x = atoi_val (mux_var r ''id'')"]
  note rp = tbl_where_owner_rows [OF p, of "\<lambda>p. id_toko p = atoi_val (mux_var r ''id'')"]
  show ?thesis using ra rx rp
    by (auto simp: getAddress_def getTransactions_def getProducts_def reply_def Let_def)
qed

text \<open>
  C20: \<open>createStore\<close> for a user who already has a store inserts another one under the
  next id instead of updating, and \<open>getStore\<close> keeps answering with the earlier store.
\<close>

theorem createStore_accumulates:
  assumes wf: "db_wf d" and u: "first_user d (atoi_val (mux_var r ''id'')) = Some u"
    and ex: "list_ex (\<lambda>s. toko_id_user s = atoi_val (mux_var r ''id'')) (rows (tokos d))"
    and fu: "int32_fits (user_id u)" and fn: "varchar_fits (form_value r ''nama_toko'')"
    and fl: "varchar_fits (form_value r ''url_toko'')" and lim: "auto_inc (tokos d) \<le> int32_max"
  shows "\<exists>st d' resp. createStore (Some d) r = Ok (Some d', reply 200 (JToko st)) \<and>
           rows (tokos d') = rows (tokos d) @ [st] \<and> toko_id_user st = atoi_val (mux_var r ''id'') \<and>
           getStore (Some d) r = Ok (Some d, resp) \<and> getStore (Some d') r = Ok (Some d', resp)"
proof -
  let ?s = "\<lparr>toko_id = 0, toko_id_user = user_id u, nama_toko = form_value r ''nama_toko'',
              url_toko = form_value r ''url_toko''\<rparr>"
  let ?st = "?s\<lparr>toko_id := word_of_int (auto_inc (tokos d))\<rparr>"
  have uid: "user_id u = atoi_val (mux_var r ''id'')"
    using find_Some_holds u by (fastforce simp: first_user_def tbl_first_id_def)
  have wt: "tbl_wf toko_id (tokos d)" using wf by (simp add: db_wf_def)
  have c: "toko_check ?s = None" using fu fn fl by (simp add: toko_check_def int32_fits_def)
  have t: "tbl_create toko_id (\<lambda>i x. x\<lparr>toko_id := i\<rparr>) toko_check (tokos d) ?s =
             (None, (tokos d)\<lparr>rows := rows (tokos d) @ [?st], auto_inc := auto_inc (tokos d) + 1\<rparr>, ?st)"
    by (rule tbl_create_auto_append) (use wt c lim in simp_all)
  let ?d' = "d\<lparr>tokos := (tokos d)\<lparr>rows := rows (tokos d) @ [?st], auto_inc := auto_inc (tokos d) + 1\<rparr>\<rparr>"
  have run: "createStore (Some d) r = Ok (Some ?d', reply 200 (JToko ?st))"
    using u by (simp add: createStore_def create_toko_def t Let_def)
  have u': "first_user ?d' (atoi_val (mux_var r ''id'')) = Some u" using u by (simp add: first_user_def)
  have f: "tbl_where_first (\<lambda>s. toko_id_user s = atoi_val (mux_var r ''id'')) (tokos ?d') =
           tbl_where_first (\<lambda>s. toko_id_user s = atoi_val (mux_var r ''id'')) (tokos d)"
    using ex by (simp add: tbl_where_first_def find_append_ex)
  obtain resp where g: "getStore (Some d) r = Ok (Some d, resp)"
    by (auto simp: getStore_def Let_def split: option.splits)
  have g': "getStore (Some ?d') r = Ok (Some ?d', resp)"
    using g u u' f by (simp add: getStore_def Let_def split: option.splits)
  show ?thesis using run g g' uid by (intro exI [of _ ?st] exI [of _ ?d'] exI [of _ resp]) simp
qed

end
