(* ===== verification/Server.thy ===== *)
theory Server
  imports Identity Domain
begin

text \<open>
  \<open>main\<close> of \<open>src/main.go\<close>: the database the process opens, the handle the handlers
  see, and the gorilla/mux router that dispatches a request to a handler. The router
  splits the path at \<open>/\<close>, takes the first registered route whose method and pattern
  match (a variable \<open>{id}\<close> matches one non-empty segment), hands the handler the
  route variables, answers 405 when only the method differs and 404 when no pattern
  matches. The served system is then a state machine over the database contents.
\<close>

datatype seg = Lit string | Var string

fun match_route :: "seg list \<Rightarrow> string list \<Rightarrow> (string \<times> string) list option" where
  "match_route [] [] = Some []"
| "match_route (Lit l # ps) (s # ss) = (if l = s then match_route ps ss else None)"
| "match_route (Var v # ps) (s # ss) =
     (if s = [] then None else map_option (\<lambda>m. (v, s) # m) (match_route ps ss))"
| "match_route _ _ = None"

definition path_segments :: "string \<Rightarrow> string list option" where
  "path_segments p = (case p of CHR ''/'' # rest \<Rightarrow> Some (split_on_acc (CHR ''/'') [] rest) | _ \<Rightarrow> None)"

text \<open>The routes of \<open>main\<close>, in registration order; mutating routes are wrapped in
  \<open>authenticate\<close>, reading ones are not.\<close>

definition routes :: "(string \<times> seg list \<times> handler) list" where
  "routes =
     [(''GET'', [Lit []], homePage),
      (''POST'', [Lit ''register''], register),
      (''POST'', [Lit ''login''], login),
      (''POST'', [Lit ''users'', Var ''id'', Lit ''store''], authenticate createStore),
      (''GET'', [Lit ''users'', Var ''id'', Lit ''store''], getStore),
      (''POST'', [Lit ''users'', Var ''id'', Lit ''address''], authenticate createAddress),
      (''GET'', [Lit ''users'', Var ''id'', Lit ''address''], getAddress),
      (''POST'', [Lit ''categories''], authenticate createCategory),
      (''GET'', [Lit ''categories''], getCategories),
      (''POST'', [Lit ''stores'', Var ''id'', Lit ''products''], authenticate createProduct),
      (''GET'', [Lit ''stores'', Var ''id'', Lit ''products''], getProducts),
      (''POST'', [Lit ''users'', Var ''id'', Lit ''transactions''], authenticate createTransaction),
      (''GET'', [Lit ''users'', Var ''id'', Lit ''transactions''], getTransactions)]"

definition not_found :: response where
  "not_found = reply 404 (JText ''404 page not found'')"

definition serve :: "db_handle \<Rightarrow> request \<Rightarrow> (db_handle \<times> response) outcome" where
  "serve h r =
     (case path_segments (req_path r) of
        None \<Rightarrow> Ok (h, not_found)
      | Some segs \<Rightarrow>
          (case find (\<lambda>(m, pat, _). m = req_method r \<and> match_route pat segs \<noteq> None) routes of
             Some (_, pat, hdl) \<Rightarrow>
               (case match_route pat segs of
                  Some vs \<Rightarrow> hdl h (r\<lparr>req_vars := vs\<rparr>)
                | None \<Rightarrow> Ok (h, not_found))
           | None \<Rightarrow>
               if list_ex (\<lambda>(_, pat, _). match_route pat segs \<noteq> None) routes
               then Ok (h, reply 405 JNone) else Ok (h, not_found)))"

text \<open>
  \<open>main\<close> opens the database with \<open>db, err := gorm.Open(...)\<close>: the short variable
  declaration makes \<open>db\<close> and \<open>err\<close> new locals of \<open>main\<close>, shadowing the
  package-level variables. \<open>AutoMigrate\<close> runs on the local handle; the package-level
  \<open>db\<close>, which every handler uses, stays nil whatever database was opened.
\<close>

record server =
  global_db :: db_handle
  local_db :: db_state

definition main_init :: "db_state \<Rightarrow> server" where
  "main_init opened = \<lparr>global_db = None, local_db = opened\<rparr>"

text \<open>
  The system as the code means it to run, with the package-level handle connected: the
  reachable database contents, from the empty migrated schema, under any sequence of
  requests served one at a time.
\<close>

inductive reachable :: "db_state \<Rightarrow> bool" where
  init: "reachable empty_db"
| step: "reachable d \<Longrightarrow> serve (Some d) r = Ok (Some d', resp) \<Longrightarrow> reachable d'"

subsection \<open>The invariant of the served system\<close>

text \<open>
  What every reachable database satisfies: well-formed tables, unique emails (the
  application-level check of \<open>register\<close>), every address and transaction owned by an
  existing user and every product by an existing store (the parent lookups of the
  handlers), the empty invoice code of every transaction, and the untouched error field
  of the handle. A handler preserves a predicate when every successful run from a state
  satisfying it ends in one satisfying it.
\<close>

definition emails_unique :: "db_state \<Rightarrow> bool" where
  "emails_unique d \<longleftrightarrow> distinct (map email (rows (users d)))"

definition has_user :: "db_state \<Rightarrow> go_int \<Rightarrow> bool" where
  "has_user d i \<longleftrightarrow> list_ex (\<lambda>u. user_id u = i) (rows (users d))"

definition has_toko :: "db_state \<Rightarrow> go_int \<Rightarrow> bool" where
  "has_toko d i \<longleftrightarrow> list_ex (\<lambda>s. toko_id s = i) (rows (tokos d))"

definition children_have_parents :: "db_state \<Rightarrow> bool" where
  "children_have_parents d \<longleftrightarrow>
     list_all (\<lambda>a. has_user d (alamat_id_user a)) (rows (alamats d)) \<and>
     list_all (\<lambda>x. has_user d (transaksi_id_user x)) (rows (transaksis d)) \<and>
     list_all (\<lambda>p. has_toko d (id_toko p)) (rows (produks d))"

definition invoice_codes_empty :: "db_state \<Rightarrow> bool" where
  "invoice_codes_empty d \<longleftrightarrow> list_all (\<lambda>x. kode_invoice x = []) (rows (transaksis d))"

text \<open>
  The part of the invariant that survives concurrent serving (\<open>integrity\<close>), and the
  whole invariant of requests served one at a time, which adds unique emails.
\<close>

definition integrity :: "db_state \<Rightarrow> bool" where
  "integrity d \<longleftrightarrow> db_wf d \<and> children_have_parents d \<and> invoice_codes_empty d \<and> root_error d = None"

definition srv_inv :: "db_state \<Rightarrow> bool" where
  "srv_inv d \<longleftrightarrow> integrity d \<and> emails_unique d"

definition handler_preserves :: "(db_state \<Rightarrow> bool) \<Rightarrow> handler \<Rightarrow> bool" where
  "handler_preserves P hdl \<longleftrightarrow> (\<forall>d r d' resp. P d \<longrightarrow> hdl (Some d) r = Ok (Some d', resp) \<longrightarrow> P d')"

text \<open>
  A handler is read-only for unauthenticated requests when, without a valid token, it
  leaves the database as it was; it keeps the nil handle when run on nil it never returns
  a connected one.
\<close>

definition unauth_read_only :: "handler \<Rightarrow> bool" where
  "unauth_read_only hdl \<longleftrightarrow> (\<forall>d r h' resp. jwt_parse secret_key (req_now r) (req_auth r) = None \<longrightarrow>
       hdl (Some d) r = Ok (h', resp) \<longrightarrow> h' = Some d)"

text \<open>
  The slugs stored with the products, and the handlers that leave the products table as
  it was.
\<close>

definition slugs_url_safe :: "db_state \<Rightarrow> bool" where
  "slugs_url_safe d \<longleftrightarrow> list_all (\<lambda>p. slug_ok (slug p)) (rows (produks d))"

definition keeps_users :: "handler \<Rightarrow> bool" where
  "keeps_users hdl \<longleftrightarrow> (\<forall>d r d' resp. hdl (Some d) r = Ok (Some d', resp) \<longrightarrow> users d' = users d)"

definition keeps_produks :: "handler \<Rightarrow> bool" where
  "keeps_produks hdl \<longleftrightarrow> (\<forall>d r d' resp. hdl (Some d) r = Ok (Some d', resp) \<longrightarrow> produks d' = produks d)"

subsection \<open>Each insert preserves the invariant\<close>

lemma create_user_integrity:
  assumes "integrity d" and "create_user d u = (e, d', u')"
  shows "integrity d'"
proof -
  obtain t where c: "tbl_create user_id (\<lambda>i x. x\<lparr>user_id := i\<rparr>) user_check (users d) u = (e, t, u')"
    and d': "d' = d\<lparr>users := t\<rparr>"
    using assms(2) by (auto simp: create_user_def split: prod.splits)
  have "db_wf d'" using assms by (auto simp: integrity_def intro: create_user_wf)
  moreover have "children_have_parents d'"
    using tbl_create_mono [OF c] assms(1) d'
    by (auto simp: integrity_def children_have_parents_def has_user_def has_toko_def
             intro: list_all_list_ex_mono)
  ultimately show ?thesis using assms(1) d' by (simp add: integrity_def invoice_codes_empty_def)
qed

lemma create_user_emails:
  assumes "emails_unique d" and "\<not> list_ex (\<lambda>x. email x = email u) (rows (users d))"
    and "create_user d u = (e, d', u')"
  shows "emails_unique d'"
proof -
  obtain t where c: "tbl_create user_id (\<lambda>i x. x\<lparr>user_id := i\<rparr>) user_check (users d) u = (e, t, u')"
    and d': "d' = d\<lparr>users := t\<rparr>"
    using assms(3) by (auto simp: create_user_def split: prod.splits)
  have "email u \<notin> email ` set (rows (users d))" using assms(2) by (auto simp: list_ex_iff)
  then show ?thesis using tbl_create_distinct_map [OF c, where g = email] assms(1) d'
    by (simp add: emails_unique_def)
qed

lemma create_toko_integrity:
  assumes "integrity d" and "create_toko d s = (e, d', s')"
  shows "integrity d'"
proof -
  obtain t where c: "tbl_create toko_id (\<lambda>i x. x\<lparr>toko_id := i\<rparr>) toko_check (tokos d) s = (e, t, s')"
    and d': "d' = d\<lparr>tokos := t\<rparr>"
    using assms(2) by (auto simp: create_toko_def split: prod.splits)
  have "db_wf d'" using assms by (auto simp: integrity_def intro: create_toko_wf)
  moreover have "children_have_parents d'"
    using tbl_create_mono [OF c] assms(1) d'
    by (auto simp: integrity_def children_have_parents_def has_user_def has_toko_def
             intro: list_all_list_ex_mono)
  ultimately show ?thesis using assms(1) d' by (simp add: integrity_def invoice_codes_empty_def)
qed

lemma create_toko_users: "create_toko d s = (e, d', s') \<Longrightarrow> users d' = users d"
  by (auto simp: create_toko_def split: prod.splits)

lemma create_alamat_integrity:
  assumes "integrity d" and "has_user d (alamat_id_user a)" and "create_alamat d a = (e, d', a')"
  shows "integrity d'"
proof -
  obtain t where c: "tbl_create alamat_id (\<lambda>i x. x\<lparr>alamat_id := i\<rparr>) alamat_check (alamats d) a = (e, t, a')"
    and d': "d' = d\<lparr>alamats := t\<rparr>"
    using assms(3) by (auto simp: create_alamat_def split: prod.splits)
  have "db_wf d'" using assms(1,3) by (auto simp: integrity_def intro: create_alamat_wf)
  moreover have "list_all (\<lambda>x. has_user d (alamat_id_user x)) (rows t)"
    using tbl_create_list_all [OF c] assms(1,2)
    by (simp add: integrity_def children_have_parents_def)
  ultimately show ?thesis using assms(1) d'
    by (simp add: integrity_def invoice_codes_empty_def children_have_parents_def has_user_def has_toko_def)
qed

lemma create_kategori_integrity:
  assumes "integrity d" and "create_kategori d k = (e, d', k')"
  shows "integrity d'"
proof -
  obtain t where d': "d' = d\<lparr>kategoris := t\<rparr>"
    using assms(2) by (auto simp: create_kategori_def split: prod.splits)
  have "db_wf d'" using assms by (auto simp: integrity_def intro: create_kategori_wf)
  then show ?thesis using assms(1) d'
    by (simp add: integrity_def invoice_codes_empty_def children_have_parents_def has_user_def has_toko_def)
qed

lemma create_produk_integrity:
  assumes "integrity d" and "has_toko d (id_toko p)" and "create_produk d p = (e, d', p')"
  shows "integrity d'"
proof -
  obtain t where c: "tbl_create produk_id (\<lambda>i x. x\<lparr>produk_id := i\<rparr>) produk_check (produks d) p = (e, t, p')"
    and d': "d' = d\<lparr>produks := t\<rparr>"
    using assms(3) by (auto simp: create_produk_def split: prod.splits)
  have "db_wf d'" using assms(1,3) by (auto simp: integrity_def intro: create_produk_wf)
  moreover have "list_all (\<lambda>x. has_toko d (id_toko x)) (rows t)"
    using tbl_create_list_all [OF c] assms(1,2)
    by (simp add: integrity_def children_have_parents_def)
  ultimately show ?thesis using assms(1) d'
    by (simp add: integrity_def invoice_codes_empty_def children_have_parents_def has_user_def has_toko_def)
qed

lemma create_transaksi_integrity:
  assumes "integrity d" and "has_user d (transaksi_id_user x)" and "kode_invoice x = []"
    and "create_transaksi d x = (e, d', x')"
  shows "integrity d'"
proof -
  obtain t where c: "tbl_create transaksi_id (\<lambda>i y. y\<lparr>transaksi_id := i\<rparr>) transaksi_check (transaksis d) x = (e, t, x')"
    and d': "d' = d\<lparr>transaksis := t\<rparr>"
    using assms(4) by (auto simp: create_transaksi_def split: prod.splits)
  have "db_wf d'" using assms(1,4) by (auto simp: integrity_def intro: create_transaksi_wf)
  moreover have "list_all (\<lambda>y. has_user d (transaksi_id_user y)) (rows t)"
    using tbl_create_list_all [OF c] assms(1,2) by (simp add: integrity_def children_have_parents_def)
  moreover have "list_all (\<lambda>y. kode_invoice y = []) (rows t)"
    using tbl_create_list_all [OF c] assms(1,3) by (simp add: integrity_def invoice_codes_empty_def)
  ultimately show ?thesis using assms(1) d'
    by (simp add: integrity_def invoice_codes_empty_def children_have_parents_def has_user_def has_toko_def)
qed

subsection \<open>Each handler, the router, every reachable state\<close>

lemma handler_preservesI:
  "(\<And>d r d' resp. P d \<Longrightarrow> hdl (Some d) r = Ok (Some d', resp) \<Longrightarrow> P d') \<Longrightarrow> handler_preserves P hdl"
  by (simp add: handler_preserves_def)

lemma first_user_has_user: "first_user d i = Some u \<Longrightarrow> has_user d (user_id u)"
  by (auto simp: first_user_def tbl_first_id_def has_user_def list_ex_iff dest: find_Some_in_set)

lemma first_toko_has_toko: "first_toko d i = Some s \<Longrightarrow> has_toko d i"
proof -
  assume f: "first_toko d i = Some s"
  then have "s \<in> set (rows (tokos d))" and "toko_id s = i"
    using find_Some_in_set find_Some_holds
    by (fastforce simp: first_toko_def tbl_first_id_def)+
  then show ?thesis by (auto simp: has_toko_def list_ex_iff)
qed

lemma isEmailUsed_Some_False:
  "\<not> isEmailUsed (Some d) e \<Longrightarrow> \<not> list_ex (\<lambda>x. email x = e) (rows (users d))"
  by (auto simp: isEmailUsed_def tbl_count_def list_ex_iff filter_empty_conv)

lemma authenticate_preserves:
  "handler_preserves P hdl \<Longrightarrow> handler_preserves P (authenticate hdl)"
  by (simp add: handler_preserves_def authenticate_def)

lemma read_only_preserves:
  "(\<And>d r h' resp. hdl (Some d) r = Ok (h', resp) \<Longrightarrow> h' = Some d) \<Longrightarrow> handler_preserves P hdl"
  by (auto simp: handler_preserves_def)

lemma register_inv: "handler_preserves srv_inv register"
proof (rule handler_preservesI)
  fix d r d' resp
  assume inv: "srv_inv d" and run: "register (Some d) r = Ok (Some d', resp)"
  show "srv_inv d'"
  proof (cases "isEmailUsed (Some d) (email (req_body r))")
    case True
    then show ?thesis using inv run by (simp add: register_def)
  next
    case False
    obtain e1 d1 u' where c1: "create_user d (req_body r) = (e1, d1, u')" by (cases "create_user d (req_body r)") auto
    obtain e2 d2 s where c2: "create_toko d1 (default_store (user_id u')) = (e2, d2, s)"
      by (cases "create_toko d1 (default_store (user_id u'))") auto
    have i1: "integrity d1" using create_user_integrity [OF _ c1] inv by (simp add: srv_inv_def)
    have u1: "emails_unique d1"
      using create_user_emails [OF _ isEmailUsed_Some_False [OF False] c1] inv by (simp add: srv_inv_def)
    have i2: "srv_inv d2" using create_toko_integrity [OF i1 c2] create_toko_users [OF c2] u1
      by (simp add: srv_inv_def emails_unique_def)
    have "d' = d2" using run False c1 c2 i1 by (auto simp: register_def integrity_def Let_def)
    then show ?thesis using i2 by simp
  qed
qed

lemma createStore_integrity: "handler_preserves integrity createStore"
proof (rule handler_preservesI)
  fix d r d' resp
  assume inv: "integrity d" and run: "createStore (Some d) r = Ok (Some d', resp)"
  show "integrity d'"
  proof (cases "first_user d (atoi_val (mux_var r ''id''))")
    case None then show ?thesis using inv run by (simp add: createStore_def)
  next
    case (Some u)
    then show ?thesis using inv run
      by (auto simp: createStore_def split: prod.splits intro: create_toko_integrity)
  qed
qed

lemma createAddress_integrity: "handler_preserves integrity createAddress"
proof (rule handler_preservesI)
  fix d r d' resp
  assume inv: "integrity d" and run: "createAddress (Some d) r = Ok (Some d', resp)"
  show "integrity d'"
  proof (cases "first_user d (atoi_val (mux_var r ''id''))")
    case None then show ?thesis using inv run by (simp add: createAddress_def)
  next
    case (Some u)
    then show ?thesis using inv run first_user_has_user [OF Some]
      by (auto simp: createAddress_def split: prod.splits intro: create_alamat_integrity [rotated 2])
  qed
qed

lemma createCategory_integrity: "handler_preserves integrity createCategory"
  by (rule handler_preservesI) (auto simp: createCategory_def split: prod.splits intro: create_kategori_integrity)

lemma createProduct_integrity: "handler_preserves integrity createProduct"
proof (rule handler_preservesI)
  fix d r d' resp
  assume inv: "integrity d" and run: "createProduct (Some d) r = Ok (Some d', resp)"
  show "integrity d'"
  proof (cases "first_toko d (atoi_val (mux_var r ''id''))")
    case None then show ?thesis using inv run by (simp add: createProduct_def)
  next
    case (Some s)
    then show ?thesis using inv run first_toko_has_toko [OF Some]
      by (auto simp: createProduct_def Let_def split: prod.splits intro: create_produk_integrity [rotated 2])
  qed
qed

lemma createTransaction_integrity: "handler_preserves integrity createTransaction"
proof (rule handler_preservesI)
  fix d r d' resp
  assume inv: "integrity d" and run: "createTransaction (Some d) r = Ok (Some d', resp)"
  show "integrity d'"
  proof (cases "first_user d (atoi_val (mux_var r ''id''))")
    case None then show ?thesis using inv run by (simp add: createTransaction_def)
  next
    case (Some u)
    then show ?thesis using inv run first_user_has_user [OF Some]
      by (auto simp: createTransaction_def Let_def generateInvoiceCode_def split: prod.splits
               intro: create_transaksi_integrity [rotated 3])
  qed
qed

lemma creators_keep_users:
  "keeps_users createStore" "keeps_users createAddress" "keeps_users createCategory"
  "keeps_users createProduct" "keeps_users createTransaction"
  by (auto simp: keeps_users_def createStore_def createAddress_def createCategory_def createProduct_def
      createTransaction_def create_toko_def create_alamat_def create_kategori_def create_produk_def
      create_transaksi_def Let_def split: prod.splits option.splits)

lemma integrity_srv_inv: "handler_preserves integrity hdl \<Longrightarrow> keeps_users hdl \<Longrightarrow> handler_preserves srv_inv hdl"
  unfolding handler_preserves_def keeps_users_def srv_inv_def emails_unique_def by metis

lemmas creators_integrity = createStore_integrity createAddress_integrity createCategory_integrity
  createProduct_integrity createTransaction_integrity

lemma creators_inv:
  "handler_preserves srv_inv createStore" "handler_preserves srv_inv createAddress"
  "handler_preserves srv_inv createCategory" "handler_preserves srv_inv createProduct"
  "handler_preserves srv_inv createTransaction"
  using creators_integrity creators_keep_users by (simp_all add: integrity_srv_inv)

lemmas read_handler_defs = homePage_def login_def getStore_def getAddress_def getCategories_def
  getProducts_def getTransactions_def

lemma read_handlers_preserve:
  "handler_preserves P homePage" "handler_preserves P login" "handler_preserves P getStore"
  "handler_preserves P getAddress" "handler_preserves P getCategories"
  "handler_preserves P getProducts" "handler_preserves P getTransactions"
  by (auto simp: handler_preserves_def read_handler_defs Let_def split: option.splits)

lemma routes_preserve_inv: "\<forall>x\<in>set routes. handler_preserves srv_inv (snd (snd x))"
  by (simp add: routes_def register_inv creators_inv authenticate_preserves read_handlers_preserve)

lemma serve_preserves:
  assumes all: "\<forall>x\<in>set routes. handler_preserves P (snd (snd x))"
    and p: "P d" and run: "serve (Some d) r = Ok (Some d', resp)"
  shows "P d'"
proof (cases "path_segments (req_path r)")
  case None then show ?thesis using p run by (simp add: serve_def)
next
  case (Some segs)
  show ?thesis
  proof (cases "find (\<lambda>(m, pat, _). m = req_method r \<and> match_route pat segs \<noteq> None) routes")
    case None then show ?thesis using p run Some by (simp add: serve_def split: if_splits)
  next
    case (Some x)
    obtain m pat hdl where x: "x = (m, pat, hdl)" by (cases x) auto
    have "x \<in> set routes" using Some by (rule find_Some_in_set)
    then have hp: "handler_preserves P hdl" using all x by auto
    show ?thesis
    proof (cases "match_route pat segs")
      case None then show ?thesis using p run \<open>path_segments (req_path r) = Some segs\<close> Some x
        by (simp add: serve_def)
    next
      case (Some vs)
      then have "hdl (Some d) (r\<lparr>req_vars := vs\<rparr>) = Ok (Some d', resp)"
        using run \<open>path_segments (req_path r) = Some segs\<close> \<open>find _ routes = Some x\<close> x
        by (simp add: serve_def)
      then show ?thesis using hp p unfolding handler_preserves_def by blast
    qed
  qed
qed

lemma empty_db_inv: "srv_inv empty_db"
  unfolding srv_inv_def integrity_def using empty_db_wf
  by (simp add: emails_unique_def children_have_parents_def invoice_codes_empty_def empty_db_def
      empty_table_def)

lemma reachable_srv_inv: "reachable d \<Longrightarrow> srv_inv d"
proof (induction rule: reachable.induct)
  case init
  show ?case by (rule empty_db_inv)
next
  case (step d r d' resp)
  then show ?case using routes_preserve_inv serve_preserves by blast
qed

subsection \<open>Properties of the served system\<close>

lemma match_register: "match_route [Lit ''register''] segs \<noteq> None \<Longrightarrow> segs = [''register'']"
  by (cases segs; cases "tl segs") (auto split: if_splits)

lemma read_handlers_read_only:
  "unauth_read_only homePage" "unauth_read_only login" "unauth_read_only getStore"
  "unauth_read_only getAddress" "unauth_read_only getCategories" "unauth_read_only getProducts"
  "unauth_read_only getTransactions"
  by (auto simp: unauth_read_only_def homePage_def login_def getStore_def getAddress_def
      getCategories_def getProducts_def getTransactions_def Let_def split: option.splits)

lemma authenticate_read_only: "unauth_read_only (authenticate hdl)"
  by (simp add: unauth_read_only_def authenticate_def)

lemma routes_unauth_read_only:
  "list_all (\<lambda>(m, pat, hdl). pat = [Lit ''register''] \<or> unauth_read_only hdl) routes"
  by (simp add: routes_def read_handlers_read_only authenticate_read_only)

text \<open>
  C1: a request that carries no valid token (no header, a malformed one, one signed with
  another key, or an expired one) changes nothing in the database, whatever route it
  takes, except \<open>POST /register\<close>, the only mutating route outside the gate.
\<close>

theorem serve_unauthenticated_preserves_db:
  assumes "jwt_parse secret_key (req_now r) (req_auth r) = None"
    and "path_segments (req_path r) \<noteq> Some [''register'']"
    and "serve (Some d) r = Ok (h', resp)"
  shows "h' = Some d"
proof (cases "path_segments (req_path r)")
  case None then show ?thesis using assms(3) by (simp add: serve_def)
next
  case (Some segs)
  show ?thesis
  proof (cases "find (\<lambda>(m, pat, _). m = req_method r \<and> match_route pat segs \<noteq> None) routes")
    case None then show ?thesis using assms(3) Some by (simp add: serve_def split: if_splits)
  next
    case (Some x)
    obtain m pat hdl where x: "x = (m, pat, hdl)" by (cases x) auto
    have mem: "(m, pat, hdl) \<in> set routes" using Some x find_Some_in_set by fastforce
    have mt: "match_route pat segs \<noteq> None" using Some x find_Some_holds by fastforce
    have np: "pat \<noteq> [Lit ''register'']"
      using mt match_register assms(2) \<open>path_segments (req_path r) = Some segs\<close> by auto
    then have ro: "unauth_read_only hdl"
      using routes_unauth_read_only mem by (auto simp: list_all_iff)
    obtain vs where vs: "match_route pat segs = Some vs" using mt by auto
    then have "hdl (Some d) (r\<lparr>req_vars := vs\<rparr>) = Ok (h', resp)"
      using assms(3) \<open>path_segments (req_path r) = Some segs\<close> Some x by (simp add: serve_def)
    moreover have "jwt_parse secret_key (req_now (r\<lparr>req_vars := vs\<rparr>)) (req_auth (r\<lparr>req_vars := vs\<rparr>)) = None"
      using assms(1) by simp
    ultimately show ?thesis using ro unfolding unauth_read_only_def by blast
  qed
qed

text \<open>
  C2: in every database reachable by requests served one at a time, no two users share
  an email (the check-then-insert of \<open>register\<close> suffices without concurrency).
\<close>

theorem reachable_emails_unique: "reachable d \<Longrightarrow> distinct (map email (rows (users d)))"
  using reachable_srv_inv by (simp add: srv_inv_def emails_unique_def)

text \<open>
  C3: in every reachable database each address and each transaction belongs to an existing
  user, and each product to an existing store.
\<close>

theorem reachable_children_have_parents: "reachable d \<Longrightarrow> children_have_parents d"
  using reachable_srv_inv by (simp add: srv_inv_def integrity_def)

text \<open>
  C24: every transaction ever stored has the empty invoice code, so invoice codes are
  neither non-empty nor unique once two transactions exist.
\<close>

theorem reachable_invoice_codes_empty:
  "reachable d \<Longrightarrow> list_all (\<lambda>x. kode_invoice x = []) (rows (transaksis d))"
  using reachable_srv_inv by (simp add: srv_inv_def integrity_def invoice_codes_empty_def)

text \<open>
  C25: \<open>register\<close> never answers 500, whatever happens to its inserts: its two error
  checks read the \<open>Error\<close> field of the package-level handle, which stays unset in every
  reachable state.
\<close>

theorem reachable_register_never_500:
  "reachable d \<Longrightarrow> register (Some d) r = Ok (h', resp) \<Longrightarrow> status resp \<noteq> 500"
proof -
  assume "reachable d" and run: "register (Some d) r = Ok (h', resp)"
  then have r0: "root_error d = None" using reachable_srv_inv by (simp add: srv_inv_def integrity_def)
  show ?thesis
  proof (cases "isEmailUsed (Some d) (email (req_body r))")
    case True then show ?thesis using run by (auto simp: register_def reply_def)
  next
    case False
    obtain e1 d1 u' where c1: "create_user d (req_body r) = (e1, d1, u')"
      by (cases "create_user d (req_body r)") auto
    obtain e2 d2 s where c2: "create_toko d1 (default_store (user_id u')) = (e2, d2, s)"
      by (cases "create_toko d1 (default_store (user_id u'))") auto
    have "root_error d1 = None" "root_error d2 = None"
      using c1 c2 r0 by (auto simp: create_user_def create_toko_def split: prod.splits)
    then show ?thesis using run False c1 c2 by (auto simp: register_def Let_def reply_def)
  qed
qed

subsection \<open>Slugs and store paths\<close>

lemma keeps_produks_preserves: "keeps_produks hdl \<Longrightarrow> handler_preserves slugs_url_safe hdl"
  by (simp add: keeps_produks_def handler_preserves_def slugs_url_safe_def)

lemma writers_keep_produks:
  "keeps_produks register" "keeps_produks createStore" "keeps_produks createAddress"
  "keeps_produks createCategory" "keeps_produks createTransaction"
  by (auto simp: keeps_produks_def register_def createStore_def createAddress_def createCategory_def
      createTransaction_def create_user_def create_toko_def create_alamat_def create_kategori_def
      create_transaksi_def Let_def split: prod.splits option.splits if_splits)

lemma createProduct_slugs: "handler_preserves slugs_url_safe createProduct"
proof (rule handler_preservesI)
  fix d r d' resp
  assume inv: "slugs_url_safe d" and run: "createProduct (Some d) r = Ok (Some d', resp)"
  show "slugs_url_safe d'"
  proof (cases "first_toko d (atoi_val (mux_var r ''id''))")
    case None then show ?thesis using inv run by (simp add: createProduct_def)
  next
    case (Some s)
    then show ?thesis using inv run
      by (auto simp: createProduct_def create_produk_def slugs_url_safe_def slug_make_ok Let_def
               split: prod.splits intro: tbl_create_list_all)
  qed
qed

lemma routes_preserve_slugs: "\<forall>x\<in>set routes. handler_preserves slugs_url_safe (snd (snd x))"
  by (simp add: routes_def writers_keep_produks [THEN keeps_produks_preserves] createProduct_slugs
      authenticate_preserves read_handlers_preserve)

text \<open>
  C27: every product of every reachable database has a URL-safe slug: lowercase letters,
  digits, dashes and underscores, no two dashes in a row, neither a dash nor an
  underscore at either end, and its own slug.
\<close>

theorem reachable_slugs_url_safe: "reachable d \<Longrightarrow> list_all (\<lambda>p. slug_ok (slug p)) (rows (produks d))"
proof (induction rule: reachable.induct)
  case init
  show ?case by (simp add: empty_db_def empty_table_def)
next
  case (step d r d' resp)
  then show ?case using serve_preserves [OF routes_preserve_slugs] by (simp add: slugs_url_safe_def)
qed

text \<open>
  C28: the router and \<open>Atoi\<close> agree on store paths: \<open>GET /users/{Itoa i}/store\<close> is
  served by \<open>getStore\<close> for exactly user \<open>i\<close>, for every 64-bit \<open>i\<close> (negative ones
  included), leaving the database unchanged.
\<close>

theorem serve_store_path_roundtrip:
  assumes "req_method r = ''GET''" and "req_path r = ''/users/'' @ go_itoa i @ ''/store''"
  shows "serve (Some d) r =
           Ok (Some d, (case first_user d i of
                          None \<Rightarrow> reply 404 (JError ''User not found'')
                        | Some _ \<Rightarrow> (case tbl_where_first (\<lambda>s. toko_id_user s = i) (tokos d) of
                                      None \<Rightarrow> reply 404 (JError ''Store not found'')
                                    | Some st \<Rightarrow> reply 200 (JToko st))))"
proof -
  have p: "path_segments (req_path r) = Some [''users'', go_itoa i, ''store'']"
    using assms(2) slash_notin_go_itoa [of i]
    by (simp add: path_segments_def split_on_acc_delim split_on_acc_no_delim)
  show ?thesis using assms(1) p go_itoa_nonempty [of i]
    by (simp add: serve_def routes_def getStore_def mux_var_def split: option.split)
qed

end
