(* ===== verification/Race.thy ===== *)
theory Race
  imports Server
begin

text \<open>
  \<open>register\<close> of \<open>src/main.go\<close> under net/http's one goroutine per request. The
  handler is three database statements: the count of \<open>isEmailUsed\<close>, \<open>db.Create(&user)\<close>
  and \<open>db.Create(&store)\<close>. Each statement is atomic in MySQL, but nothing makes the
  three atomic together. A thread is a request with the point its handler has reached,
  and a step of the system runs the next statement of one thread.
\<close>

datatype reg_pc = RCheck | RInsertUser string | RInsertStore string user | RDone response

type_synonym reg_thread = "request \<times> reg_pc"

definition reg_step :: "db_state \<Rightarrow> reg_thread \<Rightarrow> (db_state \<times> reg_pc) option" where
  "reg_step d t = (case t of
      (r, RCheck) \<Rightarrow>
        (if isEmailUsed (Some d) (email (req_body r))
         then Some (d, RDone (reply 400 (JError ''Email already in use'')))
         else Some (d, RInsertUser (session_token r (email (req_body r)))))
    | (r, RInsertUser tok) \<Rightarrow>
        (case create_user d (req_body r) of (_, d1, u') \<Rightarrow>
           if root_error d1 \<noteq> None then Some (d1, RDone (reply 500 JNone)) else Some (d1, RInsertStore tok u'))
    | (r, RInsertStore tok u') \<Rightarrow>
        (case create_toko d (default_store (user_id u')) of (_, d2, st) \<Rightarrow>
           if root_error d2 \<noteq> None then Some (d2, RDone (reply 500 JNone))
           else Some (d2, RDone (reply 200 (JRegister tok u' st))))
    | (r, RDone _) \<Rightarrow> None)"

text \<open>One thread run alone, for at most \<open>n\<close> statements.\<close>

fun reg_run :: "nat \<Rightarrow> db_state \<Rightarrow> reg_thread \<Rightarrow> db_state \<times> reg_pc" where
  "reg_run 0 d (r, pc) = (d, pc)"
| "reg_run (Suc n) d (r, pc) = (case reg_step d (r, pc) of None \<Rightarrow> (d, pc) | Some (d', pc') \<Rightarrow> reg_run n d' (r, pc'))"

text \<open>The interleaved system: the database and the threads in flight.\<close>

inductive conc_step :: "db_state \<times> reg_thread list \<Rightarrow> db_state \<times> reg_thread list \<Rightarrow> bool" where
  run: "i < length ts \<Longrightarrow> ts ! i = (r, pc) \<Longrightarrow> reg_step d (r, pc) = Some (d', pc') \<Longrightarrow>
        conc_step (d, ts) (d', ts[i := (r, pc')])"

inductive_cases conc_stepE: "conc_step s s'"

text \<open>A schedule: the indices of the threads that run their next statement, in order.\<close>

fun conc_sched :: "nat list \<Rightarrow> db_state \<times> reg_thread list \<Rightarrow> (db_state \<times> reg_thread list) option" where
  "conc_sched [] s = Some s"
| "conc_sched (i # sch) (d, ts) =
     (if i < length ts then
        (case reg_step d (ts ! i) of
           None \<Rightarrow> None
         | Some (d', pc') \<Rightarrow> conc_sched sch (d', ts[i := (fst (ts ! i), pc')]))
      else None)"

lemma conc_sched_runs: "conc_sched sch s = Some s' \<Longrightarrow> conc_step\<^sup>*\<^sup>* s s'"
proof (induction sch arbitrary: s)
  case Nil then show ?case by simp
next
  case (Cons i sch)
  obtain d ts where s: "s = (d, ts)" by (cases s)
  obtain r pc where t: "ts ! i = (r, pc)" by (cases "ts ! i")
  from Cons.prems s t obtain d' pc' where i: "i < length ts" and st: "reg_step d (r, pc) = Some (d', pc')"
    and rest: "conc_sched sch (d', ts[i := (r, pc')]) = Some s'"
    by (auto split: if_splits option.splits)
  have "conc_step (d, ts) (d', ts[i := (r, pc')])" using i t st by (rule conc_step.run)
  then show ?case using Cons.IH [OF rest] s by (simp add: converse_rtranclp_into_rtranclp)
qed

subsection \<open>A thread alone is the handler\<close>

text \<open>
  The split is faithful: run alone, the statement-level model of \<open>register\<close> finishes
  within three statements, with the database and the response of the handler.
\<close>

lemma reg_run_refines_register:
  "\<exists>d' resp. reg_run 3 d (r, RCheck) = (d', RDone resp) \<and> register (Some d) r = Ok (Some d', resp)"
  by (simp add: eval_nat_numeral reg_step_def register_def Let_def split: prod.splits)

end
