(* ===== verification/Interleave.thy ===== *)
theory Interleave
  imports Race
begin

text \<open>
  The five creating handlers of \<open>src/main.go\<close> (\<open>createStore\<close>, \<open>createAddress\<close>,
  \<open>createCategory\<close>, \<open>createProduct\<close>, \<open>createTransaction\<close>) under net/http's one
  goroutine per request. Each is two database statements: \<open>db.First\<close> of the parent row
  named in the path (none for \<open>createCategory\<close>), then \<open>db.Create\<close> of the child. A thread
  is a request, the handler it runs and the point it has reached; a step runs the next
  statement of one thread. Since no handler deletes or updates a row, a parent once found
  stays in the table, so every interleaving ends in a database some sequential order of
  the same handler calls produces, and the invariants of the one-at-a-time server carry over.
\<close>


datatype create_op = OStore | OAddress | OCategory | OProduct | OTransaction

datatype cpc = CStart | CFound go_int | CDone response

type_synonym create_thread = "request \<times> create_op \<times> cpc"

definition handler_of :: "create_op \<Rightarrow> handler" where
  "handler_of op = (case op of OStore \<Rightarrow> createStore | OAddress \<Rightarrow> createAddress
     | OCategory \<Rightarrow> createCategory | OProduct \<Rightarrow> createProduct | OTransaction \<Rightarrow> createTransaction)"

definition c_lookup :: "create_op \<Rightarrow> request \<Rightarrow> db_state \<Rightarrow> go_int + response" where
  "c_lookup op r d = (let i = atoi_val (mux_var r ''id'') in
     if op = OProduct then
       (case first_toko d i of None \<Rightarrow> Inr (reply 404 (JError ''Store not found'')) | Some _ \<Rightarrow> Inl i)
     else (case first_user d i of None \<Rightarrow> Inr (reply 404 (JError ''User not found'')) | Some u \<Rightarrow> Inl (user_id u)))"

definition c_insert :: "create_op \<Rightarrow> request \<Rightarrow> go_int \<Rightarrow> db_state \<Rightarrow> db_state \<times> response" where
  "c_insert op r i d = (case op of
      OStore \<Rightarrow>
        (case create_toko d \<lparr>toko_id = 0, toko_id_user = i,
               nama_toko = form_value r ''nama_toko'', url_toko = form_value r ''url_toko''\<rparr> of
           (_, d', st) \<Rightarrow> (d', reply 200 (JToko st)))
    | OAddress \<Rightarrow>
        (case create_alamat d \<lparr>alamat_id = 0, alamat_id_user = i,
               judul_alamat = form_value r ''judul_alamat'', nama_penerima = form_value r ''nama_penerima'',
               alamat_no_telp = form_value r ''no_telp'', detail_alamat = form_value r ''detail_alamat''\<rparr> of
           (_, d', a) \<Rightarrow> (d', reply 200 (JAlamat a)))
    | OCategory \<Rightarrow>
        (case create_kategori d \<lparr>kategori_id = 0, nama_kategori = form_value r ''nama_kategori''\<rparr> of
           (_, d', k) \<Rightarrow> (d', reply 200 (JKategori k)))
    | OProduct \<Rightarrow>
        (case create_produk d \<lparr>produk_id = 0, id_toko = i,
               id_category = atoi_val (form_value r ''id_category''),
               nama_produk = form_value r ''nama_produk'', slug = slug_make (form_value r ''nama_produk''),
               harga_reseller = atoi_val (form_value r ''harga_reseller''),
               harga_konsumen = atoi_val (form_value r ''harga_konsumen''),
               stok = atoi_val (form_value r ''stok''), deskripsi = form_value r ''deskripsi''\<rparr> of
           (_, d', p) \<Rightarrow> (d', reply 200 (JProduk p)))
    | OTransaction \<Rightarrow>
        (case create_transaksi d \<lparr>transaksi_id = 0, transaksi_id_user = i,
               id_alamat = atoi_val (form_value r ''id_alamat''),
               harga_total = atoi_val (form_value r ''harga_total''), kode_invoice = generateInvoiceCode,
               metode_pembayaran = form_value r ''metode_pembayaran''\<rparr> of
           (_, d', x) \<Rightarrow> (d', reply 200 (JTransaksi x))))"

definition c_step :: "db_state \<Rightarrow> create_thread \<Rightarrow> (db_state \<times> cpc) option" where
  "c_step d t = (case t of
      (r, op, CStart) \<Rightarrow>
        (if op = OCategory then (case c_insert op r 0 d of (d', resp) \<Rightarrow> Some (d', CDone resp))
         else (case c_lookup op r d of Inl i \<Rightarrow> Some (d, CFound i) | Inr resp \<Rightarrow> Some (d, CDone resp)))
    | (r, op, CFound i) \<Rightarrow> (case c_insert op r i d of (d', resp) \<Rightarrow> Some (d', CDone resp))
    | (r, op, CDone _) \<Rightarrow> None)"

fun c_run :: "nat \<Rightarrow> db_state \<Rightarrow> create_thread \<Rightarrow> db_state \<times> cpc" where
  "c_run 0 d (r, op, pc) = (d, pc)"
| "c_run (Suc n) d (r, op, pc) = (case c_step d (r, op, pc) of None \<Rightarrow> (d, pc) | Some (d', pc') \<Rightarrow> c_run n d' (r, op, pc'))"

inductive cconc_step :: "db_state \<times> create_thread list \<Rightarrow> db_state \<times> create_thread list \<Rightarrow> bool" where
  run: "i < length ts \<Longrightarrow> ts ! i = (r, op, pc) \<Longrightarrow> c_step d (r, op, pc) = Some (d', pc') \<Longrightarrow>
        cconc_step (d, ts) (d', ts[i := (r, op, pc')])"

text \<open>
  A sequential execution: the handlers of a list of requests run one at a time from
  \<open>d0\<close>, each answering the response recorded with it.
\<close>

inductive seq_exec :: "db_state \<Rightarrow> (request \<times> create_op \<times> response) list \<Rightarrow> db_state \<Rightarrow> bool" where
  nil: "seq_exec d [] d"
| snoc: "seq_exec d0 xs d \<Longrightarrow> handler_of op (Some d) r = Ok (Some d', resp) \<Longrightarrow>
         seq_exec d0 (xs @ [(r, op, resp)]) d'"

text \<open>The threads that have answered, with their requests and responses.\<close>

definition done_of :: "create_thread \<Rightarrow> (request \<times> create_op \<times> response) list" where
  "done_of t = (case t of (r, op, CDone resp) \<Rightarrow> [(r, op, resp)] | _ \<Rightarrow> [])"

definition done_list :: "create_thread list \<Rightarrow> (request \<times> create_op \<times> response) list" where
  "done_list ts = concat (map done_of ts)"

definition db_grows :: "db_state \<Rightarrow> db_state \<Rightarrow> bool" where
  "db_grows d d' \<longleftrightarrow> set (rows (users d)) \<subseteq> set (rows (users d')) \<and> set (rows (tokos d)) \<subseteq> set (rows (tokos d'))"

definition found_ok :: "db_state \<Rightarrow> create_thread \<Rightarrow> bool" where
  "found_ok d t = (case t of (r, op, CFound i) \<Rightarrow> op \<noteq> OCategory \<and> c_lookup op r d = Inl i | _ \<Rightarrow> True)"

subsection \<open>Lemmas\<close>

text \<open>
  The split is faithful: the statement-level model of each creating handler, run alone, reaches its response
  within two statements with exactly the database and response of the handler.
\<close>

lemma c_run_refines_handlers:
  "\<exists>d' resp. c_run 2 d (r, op, CStart) = (d', CDone resp) \<and> handler_of op (Some d) r = Ok (Some d', resp)"
  by (cases op) (simp_all add: eval_nat_numeral c_step_def c_lookup_def c_insert_def handler_of_def
      createStore_def createAddress_def createCategory_def createProduct_def createTransaction_def
      Let_def split: option.split prod.split)

lemma first_user_stable:
  assumes "first_user d i = Some u" and "db_grows d d'" and "db_wf d'"
  shows "first_user d' i = Some u"
proof -
  have "u \<in> set (rows (users d))" and "user_id u = i"
    using assms(1) find_Some_holds [of "\<lambda>x. user_id x = i"] by (auto simp: first_user_def tbl_first_id_def)
  moreover have "distinct (map user_id (rows (users d')))"
    using assms(3) by (simp add: db_wf_def tbl_wf_distinct)
  ultimately show ?thesis using assms(2)
    by (auto simp: first_user_def tbl_first_id_def db_grows_def intro: find_unique_key)
qed

lemma first_toko_stable: "first_toko d i \<noteq> None \<Longrightarrow> db_grows d d' \<Longrightarrow> first_toko d' i \<noteq> None"
  by (auto simp: first_toko_def tbl_first_id_def db_grows_def find_None_iff')

lemma c_lookup_stable:
  "c_lookup op r d = Inl i \<Longrightarrow> db_grows d d' \<Longrightarrow> db_wf d' \<Longrightarrow> c_lookup op r d' = Inl i"
proof (cases "op = OProduct")
  case True
  assume l: "c_lookup op r d = Inl i" and g: "db_grows d d'"
  then have "first_toko d (atoi_val (mux_var r ''id'')) \<noteq> None" and i: "i = atoi_val (mux_var r ''id'')"
    using True by (auto simp: c_lookup_def Let_def split: option.splits)
  then obtain s where "first_toko d' (atoi_val (mux_var r ''id'')) = Some s"
    using first_toko_stable [OF _ g] by blast
  then show ?thesis using True i by (simp add: c_lookup_def Let_def)
next
  case False
  assume l: "c_lookup op r d = Inl i" and g: "db_grows d d'" and w: "db_wf d'"
  then obtain u where u: "first_user d (atoi_val (mux_var r ''id'')) = Some u" and i: "i = user_id u"
    using False by (auto simp: c_lookup_def Let_def split: option.splits)
  then show ?thesis using False first_user_stable [OF u g w] by (simp add: c_lookup_def Let_def)
qed

lemma c_insert_grows: "c_insert op r i d = (d', resp) \<Longrightarrow> db_grows d d'"
  by (cases op) (auto simp: c_insert_def db_grows_def create_toko_def create_alamat_def create_kategori_def
      create_produk_def create_transaksi_def split: prod.splits intro: tbl_create_mono [THEN subsetD])

lemma c_insert_wf: "db_wf d \<Longrightarrow> c_insert op r i d = (d', resp) \<Longrightarrow> db_wf d'"
  by (cases op) (auto simp: c_insert_def split: prod.splits intro: wf_intros)

lemma c_insert_handler:
  assumes "op = OCategory \<or> c_lookup op r d = Inl i"
  shows "handler_of op (Some d) r = Ok (Some (fst (c_insert op r i d)), snd (c_insert op r i d))"
  using assms
  by (cases op) (auto simp: handler_of_def c_lookup_def c_insert_def createStore_def createAddress_def
      createCategory_def createProduct_def createTransaction_def Let_def
      split: option.splits if_splits prod.splits dest: find_Some_holds)

lemma c_lookup_fail_handler:
  "op \<noteq> OCategory \<Longrightarrow> c_lookup op r d = Inr resp \<Longrightarrow> handler_of op (Some d) r = Ok (Some d, resp)"
  by (cases op) (auto simp: handler_of_def c_lookup_def createStore_def createAddress_def createProduct_def
      createTransaction_def Let_def split: option.splits if_splits)

lemma c_step_serial:
  assumes ok: "found_ok d (r, op, pc)" and st: "c_step d (r, op, pc) = Some (d', pc')"
  shows "(d' = d \<and> done_of (r, op, pc') = [] \<or>
          (\<exists>resp. pc' = CDone resp \<and> handler_of op (Some d) r = Ok (Some d', resp))) \<and>
         found_ok d' (r, op, pc') \<and> done_of (r, op, pc) = []"
proof (cases pc)
  case CStart
  show ?thesis
  proof (cases "op = OCategory")
    case True
    then have "handler_of op (Some d) r = Ok (Some d', snd (c_insert op r 0 d))" and "pc' = CDone (snd (c_insert op r 0 d))"
      using st CStart c_insert_handler [of op r d 0] by (auto simp: c_step_def split: prod.splits)
    then show ?thesis using CStart by (auto simp: found_ok_def done_of_def)
  next
    case False
    then show ?thesis using st CStart c_lookup_fail_handler [OF False]
      by (auto simp: c_step_def found_ok_def done_of_def split: sum.splits)
  qed
next
  case (CFound i)
  then have l: "op \<noteq> OCategory" "c_lookup op r d = Inl i" using ok by (simp_all add: found_ok_def)
  then have "handler_of op (Some d) r = Ok (Some d', snd (c_insert op r i d))" and "pc' = CDone (snd (c_insert op r i d))"
    using st CFound c_insert_handler [of op r d i] by (auto simp: c_step_def split: prod.splits)
  then show ?thesis using CFound by (auto simp: found_ok_def done_of_def)
next
  case (CDone resp) then show ?thesis using st by (simp add: c_step_def)
qed

lemma db_grows_refl: "db_grows d d"
  by (simp add: db_grows_def)

lemma c_step_grows_wf:
  assumes st: "c_step d (r, op, pc) = Some (d', pc')" and w: "db_wf d"
  shows "db_grows d d' \<and> db_wf d'"
proof (cases "d' = d")
  case True then show ?thesis using w by (simp add: db_grows_refl)
next
  case False
  then obtain i resp where "c_insert op r i d = (d', resp)" using st
    by (auto simp: c_step_def split: cpc.splits if_splits sum.splits prod.splits)
  then show ?thesis using w by (blast intro: c_insert_grows c_insert_wf)
qed

lemma found_ok_stable: "found_ok d t \<Longrightarrow> db_grows d d' \<Longrightarrow> db_wf d' \<Longrightarrow> found_ok d' t"
  by (auto simp: found_ok_def split: prod.splits cpc.splits intro: c_lookup_stable)

lemma done_list_update:
  "i < length ts \<Longrightarrow> done_of (ts ! i) = [] \<Longrightarrow>
   mset (done_list (ts[i := t])) = mset (done_list ts) + mset (done_of t)"
  unfolding done_list_def by (rule mset_concat_map_update)

lemma done_list_start: "list_all (\<lambda>t. snd (snd t) = CStart) ts \<Longrightarrow> done_list ts = []"
  by (induction ts) (auto simp: done_list_def done_of_def)

lemma creators_seq_exec:
  assumes run: "cconc_step\<^sup>*\<^sup>* (d0, ts) s" and wf: "db_wf d0"
    and start: "list_all (\<lambda>t. snd (snd t) = CStart) ts"
  shows "\<exists>xs. seq_exec d0 xs (fst s) \<and> mset xs = mset (done_list (snd s))"
proof -
  have "(\<exists>xs. seq_exec d0 xs (fst s) \<and> mset xs = mset (done_list (snd s))) \<and>
        db_wf (fst s) \<and> list_all (found_ok (fst s)) (snd s)"
    using run
  proof (induction rule: rtranclp_induct)
    case base
    have "list_all (found_ok d0) ts" using start by (auto simp: list_all_iff found_ok_def)
    then show ?case using wf done_list_start [OF start] seq_exec.nil by auto
  next
    case (step y z)
    from step.hyps(2) obtain d tss i r op pc d' pc' where y: "y = (d, tss)"
      and z: "z = (d', tss[i := (r, op, pc')])" and i: "i < length tss" and t: "tss ! i = (r, op, pc)"
      and st: "c_step d (r, op, pc) = Some (d', pc')"
      by (auto elim: cconc_step.cases)
    obtain xs where sq: "seq_exec d0 xs d" and ms: "mset xs = mset (done_list tss)"
      using step.IH y by auto
    have w: "db_wf d" and oks: "list_all (found_ok d) tss" using step.IH y by simp_all
    have ok: "found_ok d (r, op, pc)" using oks i t by (metis list_all_length)
    note ser = c_step_serial [OF ok st]
    note gw = c_step_grows_wf [OF st w]
    have dl: "mset (done_list (tss[i := (r, op, pc')])) = mset (done_list tss) + mset (done_of (r, op, pc'))"
      using done_list_update [OF i] ser t by simp
    have "\<exists>xs'. seq_exec d0 xs' d' \<and> mset xs' = mset (done_list (tss[i := (r, op, pc')]))"
      using ser
    proof (elim conjE disjE exE)
      assume "d' = d" and "done_of (r, op, pc') = []"
      then show ?thesis using sq ms dl by auto
    next
      fix resp assume pc': "pc' = CDone resp" and h: "handler_of op (Some d) r = Ok (Some d', resp)"
      have "seq_exec d0 (xs @ [(r, op, resp)]) d'" using sq h by (rule seq_exec.snoc)
      moreover have "mset (xs @ [(r, op, resp)]) = mset (done_list (tss[i := (r, op, pc')]))"
        using ms dl pc' by (simp add: done_of_def)
      ultimately show ?thesis by blast
    qed
    moreover have "list_all (found_ok d') tss" using oks gw by (auto simp: list_all_iff intro: found_ok_stable)
    then have "list_all (found_ok d') (tss[i := (r, op, pc')])"
      using ser set_update_subset_insert [of tss i "(r, op, pc')"] by (auto simp: list_all_iff)
    ultimately show ?case using z gw by simp
  qed
  then show ?thesis by simp
qed

lemma cconc_threads: "cconc_step\<^sup>*\<^sup>* s s' \<Longrightarrow> map (\<lambda>t. (fst t, fst (snd t))) (snd s') = map (\<lambda>t. (fst t, fst (snd t))) (snd s)"
proof (induction rule: rtranclp_induct)
  case (step y z)
  from step.hyps(2) obtain d tss i r op pc d' pc' where y: "y = (d, tss)"
    and z: "z = (d', tss[i := (r, op, pc')])" and i: "i < length tss" and t: "tss ! i = (r, op, pc)"
    by (auto elim: cconc_step.cases)
  have "map (\<lambda>t. (fst t, fst (snd t))) (tss[i := (r, op, pc')]) = map (\<lambda>t. (fst t, fst (snd t))) tss"
    using i t by (intro map_update_same) simp_all
  then show ?case using step.IH y z by simp
qed simp

text \<open>
  C15: every interleaving of concurrent creating handlers started on a well-formed
  database is serializable: the threads keep their requests, and the threads that have
  answered, with the responses they gave, form in some order a sequential execution of
  the handlers from the initial database that ends in the same database.
\<close>

theorem creators_serializable:
  assumes "cconc_step\<^sup>*\<^sup>* (d0, ts) s" and "db_wf d0"
    and "list_all (\<lambda>t. snd (snd t) = CStart) ts"
  shows "map (\<lambda>t. (fst t, fst (snd t))) (snd s) = map (\<lambda>t. (fst t, fst (snd t))) ts \<and>
         (\<exists>xs. seq_exec d0 xs (fst s) \<and> mset xs = mset (done_list (snd s)))"
  using cconc_threads [OF assms(1)] creators_seq_exec [OF assms] by simp

lemma handler_of_inv: "handler_preserves srv_inv (handler_of op)"
  by (cases op) (simp_all add: handler_of_def creators_inv)

lemma handler_of_integrity: "handler_preserves integrity (handler_of op)"
  by (cases op) (simp_all add: handler_of_def creators_integrity)

lemma seq_exec_inv: "seq_exec d0 xs d \<Longrightarrow> srv_inv d0 \<Longrightarrow> srv_inv d"
proof (induction rule: seq_exec.induct)
  case (snoc d0 xs d op r d' resp)
  then show ?case using handler_of_inv [of op] unfolding handler_preserves_def by blast
qed simp

text \<open>
  C16: under every interleaving of concurrent creating handlers the server invariant
  (well-formed tables, unique emails, every child row referencing an existing parent)
  holds at every point.
\<close>

theorem creators_keep_invariant:
  assumes "cconc_step\<^sup>*\<^sup>* (d0, ts) s" and "srv_inv d0" and "list_all (\<lambda>t. snd (snd t) = CStart) ts"
  shows "srv_inv (fst s)"
proof -
  have "db_wf d0" using assms(2) by (simp add: srv_inv_def integrity_def)
  then show ?thesis using creators_seq_exec [OF assms(1) _ assms(3)] seq_exec_inv assms(2) by blast
qed

end
