(* ===== verification/Concurrency.thy ===== *)
theory Concurrency
  imports Interleave
begin

text \<open>
  All the writing handlers of \<open>src/main.go\<close> served concurrently: a thread is either a
  registration, split into its three statements as in \<open>Race\<close>, or a creating handler,
  split into its lookup and its insert as in \<open>Interleave\<close>, and a step runs the next
  statement of any one thread. The reading handlers change no state and are left out.
  Under this interleaving unique emails are lost (the race of \<open>register\<close>), but the
  rest of the server invariant, \<open>integrity\<close>, is kept: no statement removes a row, so a
  parent a creating handler has found is still there when it inserts the child.
\<close>

datatype sys_thread = TReg reg_thread | TCreate create_thread

definition sys_thread_step :: "db_state \<Rightarrow> sys_thread \<Rightarrow> (db_state \<times> sys_thread) option" where
  "sys_thread_step d t = (case t of
      TReg (r, pc) \<Rightarrow> map_option (\<lambda>(d', pc'). (d', TReg (r, pc'))) (reg_step d (r, pc))
    | TCreate (r, op, pc) \<Rightarrow> map_option (\<lambda>(d', pc'). (d', TCreate (r, op, pc'))) (c_step d (r, op, pc)))"

inductive sys_step :: "db_state \<times> sys_thread list \<Rightarrow> db_state \<times> sys_thread list \<Rightarrow> bool" where
  run: "i < length ts \<Longrightarrow> sys_thread_step d (ts ! i) = Some (d', t') \<Longrightarrow> sys_step (d, ts) (d', ts[i := t'])"

definition sys_found_ok :: "db_state \<Rightarrow> sys_thread \<Rightarrow> bool" where
  "sys_found_ok d t = (case t of TCreate c \<Rightarrow> found_ok d c | TReg _ \<Rightarrow> True)"

definition sys_fresh :: "sys_thread \<Rightarrow> bool" where
  "sys_fresh t = (case t of TCreate (r, op, pc) \<Rightarrow> pc = CStart | TReg _ \<Rightarrow> True)"

subsection \<open>Each statement keeps integrity and only adds rows\<close>

lemma create_user_grows: "create_user d u = (e, d', u') \<Longrightarrow> db_grows d d'"
  by (auto simp: create_user_def db_grows_def split: prod.splits intro: tbl_create_mono [THEN subsetD])

lemma create_toko_grows: "create_toko d s = (e, d', s') \<Longrightarrow> db_grows d d'"
  by (auto simp: create_toko_def db_grows_def split: prod.splits intro: tbl_create_mono [THEN subsetD])

lemma reg_step_integrity:
  assumes st: "reg_step d (r, pc) = Some (d', pc')" and i: "integrity d"
  shows "integrity d' \<and> db_grows d d'"
proof (cases pc)
  case RCheck then show ?thesis using st i by (auto simp: reg_step_def db_grows_refl split: if_splits)
next
  case (RInsertUser tok)
  obtain e u' where "create_user d (req_body r) = (e, d', u')"
    using st RInsertUser by (auto simp: reg_step_def split: prod.splits if_splits)
  then show ?thesis using i by (blast intro: create_user_integrity create_user_grows)
next
  case (RInsertStore tok u)
  obtain e s where "create_toko d (default_store (user_id u)) = (e, d', s)"
    using st RInsertStore by (auto simp: reg_step_def split: prod.splits if_splits)
  then show ?thesis using i by (blast intro: create_toko_integrity create_toko_grows)
next
  case (RDone resp) then show ?thesis using st by (simp add: reg_step_def)
qed

lemma c_step_integrity:
  assumes ok: "found_ok d (r, op, pc)" and st: "c_step d (r, op, pc) = Some (d', pc')" and i: "integrity d"
  shows "integrity d' \<and> db_grows d d' \<and> found_ok d' (r, op, pc')"
proof -
  have w: "db_wf d" using i by (simp add: integrity_def)
  have "integrity d'"
    using c_step_serial [OF ok st] i handler_of_integrity [of op] unfolding handler_preserves_def by blast
  then show ?thesis using c_step_serial [OF ok st] c_step_grows_wf [OF st w] by simp
qed

lemma sys_thread_step_integrity:
  assumes "sys_found_ok d t" and "sys_thread_step d t = Some (d', t')" and "integrity d"
  shows "integrity d' \<and> db_grows d d' \<and> sys_found_ok d' t'"
  using assms
  by (auto simp: sys_thread_step_def sys_found_ok_def split: sys_thread.splits prod.splits
      dest: reg_step_integrity c_step_integrity)

lemma sys_found_ok_stable: "sys_found_ok d t \<Longrightarrow> db_grows d d' \<Longrightarrow> db_wf d' \<Longrightarrow> sys_found_ok d' t"
  by (auto simp: sys_found_ok_def split: sys_thread.splits intro: found_ok_stable)

text \<open>
  C17: under every interleaving of concurrent registrations and creating handlers,
  started with the creating handlers at their first statement on a database with
  integrity, the tables stay well formed, every address and transaction references an
  existing user, every product an existing store, every invoice code is empty and the
  handle's error stays unset: only the uniqueness of emails is lost to the race.
\<close>

theorem system_keeps_integrity:
  assumes run: "sys_step\<^sup>*\<^sup>* (d0, ts) s" and i0: "integrity d0" and fresh: "list_all sys_fresh ts"
  shows "integrity (fst s)"
proof -
  have "integrity (fst s) \<and> list_all (sys_found_ok (fst s)) (snd s)"
    using run
  proof (induction rule: rtranclp_induct)
    case base
    have "list_all (sys_found_ok d0) ts"
      using fresh by (auto simp: list_all_iff sys_fresh_def sys_found_ok_def found_ok_def split: sys_thread.splits)
    then show ?case using i0 by simp
  next
    case (step y z)
    from step.hyps(2) obtain d tss i d' t' where y: "y = (d, tss)" and z: "z = (d', tss[i := t'])"
      and i: "i < length tss" and st: "sys_thread_step d (tss ! i) = Some (d', t')"
      by (auto elim: sys_step.cases)
    have inv: "integrity d" and oks: "list_all (sys_found_ok d) tss" using step.IH y by simp_all
    have "sys_found_ok d (tss ! i)" using oks i by (simp add: list_all_length)
    note s = sys_thread_step_integrity [OF this st inv]
    have w: "db_wf d'" using s by (simp add: integrity_def)
    have "list_all (sys_found_ok d') tss" using oks s w by (auto simp: list_all_iff intro: sys_found_ok_stable)
    then have "list_all (sys_found_ok d') (tss[i := t'])"
      using s set_update_subset_insert [of tss i t'] by (auto simp: list_all_iff)
    then show ?case using z s by simp
  qed
  then show ?thesis by simp
qed

end
