(* ===== verification/Routing.thy ===== *)
theory Routing
  imports Server
begin

text \<open>
  The router of \<open>main\<close> (\<open>src/main.go\<close>, lines 401 to 420) against the interface
  table of the spec (section 6). \<open>spec_endpoint\<close> is that table read as a function of
  method and path segments: which handler serves the pair, and whether it sits behind
  the authorization gate (auth ``required''). \<open>spec_path\<close> says whether the table
  lists the path under some method. \<open>route_lookup\<close> is gorilla/mux's first-match search
  over the registered routes, in registration order.
\<close>

definition spec_endpoint :: "string \<Rightarrow> string list \<Rightarrow> (handler \<times> (string \<times> string) list) option" where
  "spec_endpoint m segs = (case segs of
      [p] \<Rightarrow>
        (if p = [] \<and> m = ''GET'' then Some (homePage, [])
         else if p = ''register'' \<and> m = ''POST'' then Some (register, [])
         else if p = ''login'' \<and> m = ''POST'' then Some (login, [])
         else if p = ''categories'' \<and> m = ''POST'' then Some (authenticate createCategory, [])
         else if p = ''categories'' \<and> m = ''GET'' then Some (getCategories, [])
         else None)
    | [c, i, e] \<Rightarrow>
        (if i = [] then None
         else if c = ''users'' \<and> e = ''store'' \<and> m = ''POST'' then Some (authenticate createStore, [(''id'', i)])
         else if c = ''users'' \<and> e = ''store'' \<and> m = ''GET'' then Some (getStore, [(''id'', i)])
         else if c = ''users'' \<and> e = ''address'' \<and> m = ''POST'' then Some (authenticate createAddress, [(''id'', i)])
         else if c = ''users'' \<and> e = ''address'' \<and> m = ''GET'' then Some (getAddress, [(''id'', i)])
         else if c = ''stores'' \<and> e = ''products'' \<and> m = ''POST'' then Some (authenticate createProduct, [(''id'', i)])
         else if c = ''stores'' \<and> e = ''products'' \<and> m = ''GET'' then Some (getProducts, [(''id'', i)])
         else if c = ''users'' \<and> e = ''transactions'' \<and> m = ''POST'' then Some (authenticate createTransaction, [(''id'', i)])
         else if c = ''users'' \<and> e = ''transactions'' \<and> m = ''GET'' then Some (getTransactions, [(''id'', i)])
         else None)
    | _ \<Rightarrow> None)"

definition spec_path :: "string list \<Rightarrow> bool" where
  "spec_path segs \<longleftrightarrow> spec_endpoint ''GET'' segs \<noteq> None \<or> spec_endpoint ''POST'' segs \<noteq> None"

definition route_lookup :: "string \<Rightarrow> string list \<Rightarrow> (handler \<times> (string \<times> string) list) option" where
  "route_lookup m segs =
     (case find (\<lambda>(m', pat, _). m' = m \<and> match_route pat segs \<noteq> None) routes of
        Some (_, pat, hdl) \<Rightarrow> map_option (\<lambda>vs. (hdl, vs)) (match_route pat segs)
      | None \<Rightarrow> None)"

subsection \<open>The registered routes are the table\<close>

lemma route_lookup_spec: "route_lookup m segs = spec_endpoint m segs"
proof (cases segs rule: remdups_adj.cases)
  case 1 then show ?thesis by (simp add: route_lookup_def spec_endpoint_def routes_def)
next
  case (2 p) then show ?thesis by (simp add: route_lookup_def spec_endpoint_def routes_def)
next
  case (3 a b rest)
  show ?thesis
  proof (cases rest)
    case Nil then show ?thesis using 3 by (simp add: route_lookup_def spec_endpoint_def routes_def)
  next
    case (Cons c rest')
    show ?thesis
    proof (cases rest')
      case Nil then show ?thesis using 3 Cons
        by (simp add: route_lookup_def spec_endpoint_def routes_def)
    next
      case (Cons e rest'') then show ?thesis using 3 \<open>rest = c # rest'\<close>
        by (cases rest'') (simp_all add: route_lookup_def spec_endpoint_def routes_def)
    qed
  qed
qed

lemma route_path_spec: "list_ex (\<lambda>(_, pat, _). match_route pat segs \<noteq> None) routes = spec_path segs"
proof (cases segs rule: remdups_adj.cases)
  case 1 then show ?thesis by (simp add: spec_path_def spec_endpoint_def routes_def)
next
  case (2 p) then show ?thesis by (auto simp: spec_path_def spec_endpoint_def routes_def)
next
  case (3 a b rest)
  show ?thesis
  proof (cases rest)
    case Nil then show ?thesis using 3 by (simp add: spec_path_def spec_endpoint_def routes_def)
  next
    case (Cons c rest')
    show ?thesis
    proof (cases rest')
      case Nil then show ?thesis using 3 Cons
        by (auto simp: spec_path_def spec_endpoint_def routes_def)
    next
      case (Cons e rest'') then show ?thesis using 3 \<open>rest = c # rest'\<close>
        by (cases rest'') (simp_all add: spec_path_def spec_endpoint_def routes_def)
    qed
  qed
qed

lemma serve_route_lookup:
  "serve h r =
     (case path_segments (req_path r) of
        None \<Rightarrow> Ok (h, not_found)
      | Some segs \<Rightarrow>
          (case route_lookup (req_method r) segs of
             Some (hdl, vs) \<Rightarrow> hdl h (r\<lparr>req_vars := vs\<rparr>)
           | None \<Rightarrow> if list_ex (\<lambda>(_, pat, _). match_route pat segs \<noteq> None) routes
                     then Ok (h, reply 405 JNone) else Ok (h, not_found)))"
proof (cases "path_segments (req_path r)")
  case None then show ?thesis by (simp add: serve_def)
next
  case (Some segs)
  show ?thesis
  proof (cases "find (\<lambda>(m, pat, _). m = req_method r \<and> match_route pat segs \<noteq> None) routes")
    case None then show ?thesis using Some by (simp add: serve_def route_lookup_def)
  next
    case (Some x)
    obtain m pat hdl where x: "x = (m, pat, hdl)" by (cases x)
    have "match_route pat segs \<noteq> None" using find_Some_holds [OF Some] x by auto
    then obtain vs where "match_route pat segs = Some vs" by blast
    then show ?thesis using Some \<open>path_segments (req_path r) = Some segs\<close> x
      by (simp add: serve_def route_lookup_def)
  qed
qed

text \<open>
  C9: serving a request is dispatching it through the spec's interface table: a listed
  (method, path) pair runs its handler, gated exactly where the table requires
  authentication, with the path variable bound; a listed path under another method
  answers 405; any other path answers 404.
\<close>

theorem serve_implements_interface_table:
  "serve h r =
     (case path_segments (req_path r) of
        None \<Rightarrow> Ok (h, not_found)
      | Some segs \<Rightarrow>
          (case spec_endpoint (req_method r) segs of
             Some (hdl, vs) \<Rightarrow> hdl h (r\<lparr>req_vars := vs\<rparr>)
           | None \<Rightarrow> if spec_path segs then Ok (h, reply 405 JNone) else Ok (h, not_found)))"
  unfolding serve_route_lookup route_lookup_spec route_path_spec ..


subsection \<open>Serving with the handle \<open>main\<close> leaves\<close>

lemma handlers_nil_panic:
  "register None r = Panic" "getStore None r = Panic" "getAddress None r = Panic"
  "getCategories None r = Panic" "getProducts None r = Panic" "getTransactions None r = Panic"
  "createStore None r = Panic" "createAddress None r = Panic" "createCategory None r = Panic"
  "createProduct None r = Panic" "createTransaction None r = Panic"
  by (simp_all add: register_def isEmailUsed_def getStore_def getAddress_def getCategories_def
      getProducts_def getTransactions_def createStore_def createAddress_def createCategory_def
      createProduct_def createTransaction_def Let_def)

lemma endpoint_nil_panics:
  assumes "spec_endpoint m segs = Some (hdl, vs)" and "segs \<noteq> [[]]" and "segs \<noteq> [''login'']"
    and "m = ''GET'' \<or> segs = [''register''] \<or> (req_auth r \<noteq> [] \<and> jwt_parse secret_key (req_now r) (req_auth r) \<noteq> None)"
  shows "hdl None r = Panic"
  using assms
  by (auto simp: spec_endpoint_def handlers_nil_panic authenticate_def split: list.splits if_splits)

text \<open>
  C10: with the package-level handle as \<open>main\<close> leaves it (nil), every request the
  interface table routes to a handler that uses the database panics in gorm: every
  listed \<open>GET\<close> except the home page, \<open>POST /register\<close> (whose \<open>isEmailUsed\<close> guards
  against nil but whose insert does not), and every gated \<open>POST\<close> that carries a valid
  token. Only the home page, \<open>login\<close> and the gate's 401 answers are served.
\<close>

theorem main_handle_panics:
  assumes "path_segments (req_path r) = Some segs"
    and "spec_endpoint (req_method r) segs = Some (hdl, vs)"
    and "segs \<noteq> [[]]" and "segs \<noteq> [''login'']"
    and "req_method r = ''GET'' \<or> segs = [''register''] \<or>
         (req_auth r \<noteq> [] \<and> jwt_parse secret_key (req_now r) (req_auth r) \<noteq> None)"
  shows "serve (global_db (main_init opened)) r = Panic"
proof -
  have "hdl None (r\<lparr>req_vars := vs\<rparr>) = Panic"
    using assms(2-5) by (intro endpoint_nil_panics [of "req_method r" segs hdl vs]) simp_all
  then show ?thesis using assms(1,2)
    by (simp add: serve_route_lookup route_lookup_spec main_init_def)
qed

end
