(* ===== verification/Spec2Isabelle.thy ===== *)
theory Spec2Isabelle
  imports Concurrency Routing
begin

text \<open>
  \<^bold>\<open>A verification library for the Evermos marketplace backend (\<open>src/main.go\<close>).\<close>

  The program is one Go file. It declares the six entities as structs (\<open>User\<close>,
  \<open>Toko\<close>, \<open>Alamat\<close>, \<open>Kategori\<close>, \<open>Produk\<close>, \<open>Transaksi\<close>) and keeps a
  package-level \<open>var db *gorm.DB\<close>. \<open>main\<close> opens MySQL, auto-migrates the six tables
  and registers thirteen routes on a gorilla/mux router. The handlers are:
  \<open>register\<close>, \<open>login\<close> and \<open>homePage\<close>, open to every client; the five creating
  handlers, wrapped in the JWT middleware \<open>authenticate\<close>; and the five reading ones,
  which are not wrapped. Each handler resolves its parent row (\<open>db.First\<close>), parses
  numbers with \<open>strconv.Atoi\<close> (discarding the error), persists with \<open>db.Create\<close>
  (discarding the error) and encodes the result.

  \<^bold>\<open>Theories and what they model.\<close>
  \<^item> \<open>Prelude\<close>: Go's \<open>int\<close> as \<open>64 word\<close> (\<open>go_int\<close>); the MySQL column bounds
    \<open>int32_fits\<close> and \<open>varchar_fits\<close>; a Go panic as \<open>Panic\<close> of \<open>'a outcome\<close>;
    shared lemmas on \<open>find\<close> and sorted lists.
  \<^item> \<open>Entities\<close>: the six structs as records, with \<open>time.Time\<close> fields and association
    slices left out (no handler reads them).
  \<^item> \<open>Strconv\<close>: \<open>strconv.Atoi\<close> as Go implements it. The 1 to 18 byte fast path works
    on 8-bit bytes with no overflow check; longer inputs go through \<open>ParseInt\<close> and the
    cutoff tests of \<open>ParseUint\<close>. \<open>Itoa\<close> is modelled too. Lemmas: the fast path
    equals \<open>ParseInt\<close> (\<open>atoi_fast_path_equiv\<close>), \<open>Atoi (Itoa v) = v\<close>, saturation at
    \<open>2^63\<close>, syntax errors yield 0, and a range error takes precedence over later junk.
  \<^item> \<open>Gorm\<close>: gorm v1 over MySQL. One generic table type (rows in primary-key order plus
    the \<open>AUTO_INCREMENT\<close> counter) is parameterised by the key selector and updater.
    \<open>tbl_create\<close> models \<open>Create\<close>: the strict-mode column checks, auto ids, explicit
    ids, duplicate keys and counter exhaustion. \<open>Create\<close> returns its error without
    storing it in the handle (\<open>root_error\<close> stays untouched). Lemmas: \<open>Create\<close> keeps a
    table well formed (\<open>tbl_wf\<close>) and refines a fresh insertion into the finite map of
    the table (\<open>tbl_create_refines\<close>).
  \<^item> \<open>Jwt\<close>: jwt-go HS256 tokens, symbolically. Segments are hex-encoded, the MAC is a
    tagged concatenation of algorithm, key and message, and \<open>exp = 0\<close> means no
    expiry, as in jwt-go. Lemma: parsing a signed token gives back its claims exactly
    when the algorithm is HMAC, the key matches and the token has not expired.
  \<^item> \<open>Slug\<close>: \<open>slug.Make\<close> of gosimple/slug, stage by stage: \<open>TrimSpace\<close>, the
    English and default rune substitutions (\<open>&\<close> to \<open>and\<close>, \<open>@\<close> to \<open>at\<close>, quotes
    dropped), lowercase, \<open>[^a-zA-Z0-9-_]\<close> to \<open>-\<close>, runs of \<open>-\<close> collapsed, \<open>-\<close>
    and \<open>_\<close> trimmed at both ends. Lemma: every slug has that shape (\<open>slug_ok\<close>) and
    is its own slug.
  \<^item> \<open>Http\<close>: the handler interface (request, response, the handle) and \<open>with_db\<close>,
    under which every gorm call on a nil handle panics.
  \<^item> \<open>Identity\<close>: \<open>authenticate\<close>, \<open>register\<close>, \<open>login\<close>, \<open>isEmailUsed\<close> and the
    issued token (claims C4 to C8).
  \<^item> \<open>Domain\<close>: the ten resource handlers and \<open>generateInvoiceCode\<close>, with every 404
    branch (claims C18 to C23 and C26).
  \<^item> \<open>Server\<close>: the route table of \<open>main\<close>, first-match dispatch with 404 and 405, the
    shadowed handle of \<open>main\<close> (\<open>main_init\<close>), and the served system as the inductive
    \<open>reachable\<close>: every database reachable from the empty schema by requests served one
    at a time. The invariant \<open>srv_inv\<close> is proved by rule induction. It is
    \<open>integrity\<close> (well-formed tables, existing parents, empty invoice codes, an
    untouched handle error) together with unique emails; every handler preserves it
    (\<open>handler_preserves\<close>), and so does the router (\<open>serve_preserves\<close>). Claims C1
    to C3, C24, C25, C27 and C28.
  \<^item> \<open>Routing\<close>: the spec's interface table as a function of method and path
    segments (\<open>spec_endpoint\<close>), and the proof that first-match dispatch over the
    route list of \<open>main\<close> is the same function, with 405 and 404 where the table says
    (C9). With the nil handle \<open>main\<close> leaves, every request routed to a handler that
    uses the database panics (C10).
  \<^item> \<open>Race\<close>: \<open>register\<close> under net/http's goroutine per request. The handler is
    split into its three database statements (\<open>reg_step\<close>), and threads interleave
    (\<open>conc_step\<close>, with \<open>conc_sched\<close> a schedule proved sound for it). Run alone, the
    steps compose to the handler (\<open>reg_run_refines_register\<close>).
  \<^item> \<open>Interleave\<close>: the five creating handlers under the same model, each split into
    its parent lookup (\<open>c_lookup\<close>, the \<open>db.First\<close>) and its insert (\<open>c_insert\<close>,
    the \<open>db.Create\<close>), interleaved by \<open>cconc_step\<close>; run alone they are the
    handlers (\<open>c_run_refines_handlers\<close>). No handler deletes or updates a row, so a
    parent found stays found (\<open>c_lookup_stable\<close>): every interleaving is serializable,
    the answered requests with their responses forming in some order a sequential
    execution (\<open>seq_exec\<close>, multiset equality, C15), and the server invariant holds
    under concurrency (C16).
  \<^item> \<open>Concurrency\<close>: registrations and creating handlers interleaved together
    (\<open>sys_step\<close>). \<open>integrity\<close> holds under every interleaving (C17), while unique
    emails do not (C14).
  \<^item> this theory: the spec's example scenario run on concrete requests
    (\<open>spec_example_scenario\<close>), four findings shown on concrete runs (C11 to C14, the
    last the race on emails), and a witness for every claim with a hypothesis, among them
    concrete interleavings of creating handlers and of a registration with a creator.

  \<^bold>\<open>Bounds.\<close> Keys and numbers are 64-bit words, and the columns they are stored in
  hold 32 bits (\<open>int32_fits\<close>). Strings hold at most 255 characters. A session lasts
  86400 seconds, and the gate's claims assume an issuance time whose expiry does not
  overflow 64 bits. No loop of the program needs fuel: every recursion is structural,
  over the input string, a row list or a route list. The statement-level runs
  \<open>reg_run\<close> and \<open>c_run\<close> take a step count; three and two steps are enough, because
  each handler has that many database statements.

  \<^bold>\<open>Assumptions and what is not modelled.\<close> \<open>reachable\<close> starts from a connected
  handle on the empty schema, the program as it is meant to run; as written, \<open>main\<close>
  leaves the handle nil (C10). Timestamps (\<open>CreatedAt\<close>, \<open>UpdatedAt\<close>,
  \<open>TanggalLahir\<close>) are not modelled, nor is gorm's saving of associations, which the
  handlers never populate; the model assumes a server mode that accepts the zero
  \<open>DATETIME\<close> gorm sends for an unset birth date (MariaDB's default; MySQL 5.7 and 8.0
  with \<open>NO_ZERO_DATE\<close> in strict mode reject it, and every user insert would fail).
  JSON and HTTP bytes, the encoding of bodies (kept as the \<open>json\<close> datatype) and the
  decoding of \<open>exp\<close> as a float64 are not modelled either. MySQL collation is ignored,
  so emails compare as exact strings, and \<open>Find\<close> returns rows in primary-key order,
  which InnoDB gives in practice but SQL does not promise without \<open>ORDER BY\<close>. Slug
  transliteration of non-ASCII text (\<open>unidecode\<close>) is not modelled. Logging and the
  connection failure path of \<open>main\<close> are process I/O. The path cleaning and redirects
  net/http and mux apply before routing are library behaviour the routes do not depend
  on; \<open>req_path\<close> is the path after cleaning. Concurrency is modelled for every
  handler that writes (\<open>Race\<close>, \<open>Interleave\<close>, \<open>Concurrency\<close>); the reading
  handlers change no state, so interleaving them cannot affect the database.
\<close>

section \<open>The example scenario of the spec\<close>

text \<open>
  Spec section 8: registering \<open>a@example.com\<close> on the empty database, reading the
  user's store, and listing a product \<open>Kaos Polos\<close> in it with the token the
  registration returned, an hour later.
\<close>

definition reg_request :: request where
  "reg_request = sample_request\<lparr>req_path := ''/register'',
     req_body := zero_user\<lparr>nama := ''Andi'', kata_sandi := ''rahasia'', email := ''a@example.com''\<rparr>\<rparr>"

definition scenario_user :: user where
  "scenario_user = zero_user\<lparr>user_id := 1, nama := ''Andi'', kata_sandi := ''rahasia'', email := ''a@example.com''\<rparr>"

definition scenario_store :: toko where
  "scenario_store = \<lparr>toko_id = 1, toko_id_user = 1, nama_toko = ''Default Store'', url_toko = ''https://example.com''\<rparr>"

definition scenario_db1 :: db_state where
  "scenario_db1 = empty_db\<lparr>users := \<lparr>rows = [scenario_user], auto_inc = 2\<rparr>,
                            tokos := \<lparr>rows = [scenario_store], auto_inc = 2\<rparr>\<rparr>"

definition get_store_request :: request where
  "get_store_request = sample_request\<lparr>req_method := ''GET'', req_path := ''/users/1/store''\<rparr>"

definition product_request :: request where
  "product_request = sample_request\<lparr>req_path := ''/stores/1/products'',
     req_auth := session_token reg_request ''a@example.com'', req_now := 1700003600,
     req_form := [(''id_category'', ''1''), (''nama_produk'', ''Kaos Polos''),
       (''harga_reseller'', ''50000''), (''harga_konsumen'', ''65000''), (''stok'', ''10''),
       (''deskripsi'', ''Kaos katun'')]\<rparr>"

definition scenario_product :: produk where
  "scenario_product = \<lparr>produk_id = 1, id_toko = 1, id_category = 1, nama_produk = ''Kaos Polos'',
     slug = ''kaos-polos'', harga_reseller = 50000, harga_konsumen = 65000, stok = 10,
     deskripsi = ''Kaos katun''\<rparr>"

definition scenario_db2 :: db_state where
  "scenario_db2 = scenario_db1\<lparr>produks := \<lparr>rows = [scenario_product], auto_inc = 2\<rparr>\<rparr>"

definition unauthenticated_product_request :: request where
  "unauthenticated_product_request = product_request\<lparr>req_auth := []\<rparr>"

definition big_price_request :: request where
  "big_price_request = sample_request\<lparr>req_vars := [(''id'', ''1'')],
     req_form := [(''nama_produk'', ''Kaos''), (''harga_reseller'', ''99999999999999999999x'')]\<rparr>"

definition user1_request :: request where
  "user1_request = sample_request\<lparr>req_vars := [(''id'', ''1'')],
     req_form := [(''id_alamat'', ''999''), (''harga_total'', ''100000''), (''metode_pembayaran'', ''transfer''),
                  (''nama_kategori'', ''Pakaian'')]\<rparr>"

definition orphan_request :: request where
  "orphan_request = reg_request\<lparr>req_body := (req_body reg_request)\<lparr>nama := replicate 256 CHR ''x''\<rparr>\<rparr>"

definition orphan_db :: db_state where
  "orphan_db = empty_db\<lparr>tokos := \<lparr>rows = [(default_store 0)\<lparr>toko_id := 1\<rparr>], auto_inc = 2\<rparr>\<rparr>"

definition admin_request :: request where
  "admin_request = reg_request\<lparr>req_body := (req_body reg_request)\<lparr>user_id := 7, is_admin := True,
     email := ''m@example.com''\<rparr>\<rparr>"

definition admin_user :: user where
  "admin_user = (req_body reg_request)\<lparr>user_id := 7, is_admin := True, email := ''m@example.com''\<rparr>"

definition admin_db :: db_state where
  "admin_db = scenario_db1\<lparr>users := \<lparr>rows = [scenario_user, admin_user], auto_inc = 8\<rparr>,
     tokos := \<lparr>rows = [scenario_store, (default_store 7)\<lparr>toko_id := 2\<rparr>], auto_inc = 3\<rparr>\<rparr>"

definition foreign_store_request :: request where
  "foreign_store_request = sample_request\<lparr>req_path := ''/users/7/store'',
     req_auth := session_token reg_request ''a@example.com'', req_now := 1700003600,
     req_form := [(''nama_toko'', ''Toko Palsu''), (''url_toko'', ''https://example.org'')]\<rparr>"

definition foreign_store :: toko where
  "foreign_store = \<lparr>toko_id = 3, toko_id_user = 7, nama_toko = ''Toko Palsu'', url_toko = ''https://example.org''\<rparr>"

definition race_request :: request where
  "race_request = reg_request\<lparr>req_body := (req_body reg_request)\<lparr>nama := ''Budi''\<rparr>\<rparr>"

definition second_store_request :: request where
  "second_store_request = user1_request\<lparr>req_form := [(''nama_toko'', ''Toko Kedua''), (''url_toko'', ''https://example.org'')]\<rparr>"

definition txn_request :: request where
  "txn_request = user1_request\<lparr>req_path := ''/users/1/transactions'',
     req_auth := session_token reg_request ''a@example.com'', req_now := 1700003600\<rparr>"

subsection \<open>Running the scenario\<close>

lemma scenario_register:
  "serve (Some empty_db) reg_request =
     Ok (Some scenario_db1, reply 200 (JRegister (session_token reg_request ''a@example.com'') scenario_user scenario_store))"
  by (simp add: serve_def reg_request_def sample_request_def path_segments_def routes_def register_def
      isEmailUsed_def tbl_count_def empty_db_def empty_table_def create_user_def create_toko_def tbl_create_def
      user_check_def toko_check_def int32_fits_def varchar_fits_def tbl_insert_def default_store_def
      scenario_db1_def scenario_user_def scenario_store_def zero_user_def Let_def)

lemma scenario_get_store:
  "serve (Some scenario_db1) get_store_request = Ok (Some scenario_db1, reply 200 (JToko scenario_store))"
  by (simp add: serve_def get_store_request_def sample_request_def path_segments_def routes_def getStore_def
      first_user_def tbl_first_id_def tbl_where_first_def scenario_db1_def scenario_user_def scenario_store_def
      mux_var_def atoi_val_def atoi_def is_dec_digit_def Let_def)

lemma scenario_product:
  "serve (Some scenario_db1) product_request = Ok (Some scenario_db2, reply 200 (JProduk scenario_product))"
  by (simp add: serve_def product_request_def sample_request_def path_segments_def routes_def
      authenticate_def session_token_parse session_token_nonempty exp_valid_def reg_request_def
      createProduct_def first_toko_def tbl_first_id_def scenario_db1_def scenario_db2_def scenario_store_def
      scenario_user_def empty_db_def empty_table_def create_produk_def tbl_create_def produk_check_def
      int32_fits_def varchar_fits_def tbl_insert_def scenario_product_def form_value_def
      mux_var_def atoi_val_def atoi_def slug_eval reply_def)

lemma scenario_reachable_db1: "reachable scenario_db1"
  using reachable.step [OF reachable.init scenario_register] .

lemma scenario_reachable_db2: "reachable scenario_db2"
  using reachable.step [OF scenario_reachable_db1 scenario_product] .

lemma scenario_transaction:
  "\<exists>x. serve (Some scenario_db1) txn_request =
     Ok (Some (scenario_db1\<lparr>transaksis := \<lparr>rows = [x], auto_inc = 2\<rparr>\<rparr>), reply 200 (JTransaksi x))"
  by (simp add: serve_def txn_request_def user1_request_def sample_request_def path_segments_def routes_def
      authenticate_def session_token_parse session_token_nonempty exp_valid_def reg_request_def
      createTransaction_def first_user_def tbl_first_id_def scenario_db1_def scenario_user_def
      empty_db_def empty_table_def create_transaksi_def tbl_create_def transaksi_check_def
      int32_fits_def varchar_fits_def tbl_insert_def generateInvoiceCode_def form_value_def
      mux_var_def atoi_val_def atoi_def is_dec_digit_def zero_user_def reply_def Let_def)

lemma orphan_run:
  "serve (Some empty_db) orphan_request =
     Ok (Some orphan_db, reply 200 (JRegister (session_token orphan_request ''a@example.com'')
          (req_body orphan_request) ((default_store 0)\<lparr>toko_id := 1\<rparr>)))"
  by (simp add: serve_def orphan_request_def reg_request_def sample_request_def path_segments_def routes_def
      register_def isEmailUsed_def tbl_count_def empty_db_def empty_table_def create_user_def create_toko_def
      tbl_create_def user_check_def toko_check_def int32_fits_def varchar_fits_def tbl_insert_def
      default_store_def orphan_db_def zero_user_def Let_def)

lemma admin_run:
  "serve (Some scenario_db1) admin_request =
     Ok (Some admin_db, reply 200 (JRegister (session_token admin_request ''m@example.com'')
          admin_user ((default_store 7)\<lparr>toko_id := 2\<rparr>)))"
  by (simp add: serve_def admin_request_def reg_request_def sample_request_def path_segments_def routes_def
      register_def isEmailUsed_def tbl_count_def scenario_db1_def scenario_user_def scenario_store_def
      empty_db_def empty_table_def create_user_def create_toko_def admin_user_def admin_db_def
      tbl_create_def user_check_def toko_check_def int32_fits_def varchar_fits_def tbl_insert_def tbl_key_def
      default_store_def zero_user_def Let_def)

lemma foreign_store_run:
  "serve (Some admin_db) foreign_store_request =
     Ok (Some (admin_db\<lparr>tokos := \<lparr>rows = [scenario_store, (default_store 7)\<lparr>toko_id := 2\<rparr>, foreign_store],
                                 auto_inc = 4\<rparr>\<rparr>), reply 200 (JToko foreign_store))"
  by (simp add: serve_def foreign_store_request_def sample_request_def path_segments_def routes_def
      authenticate_def session_token_parse session_token_nonempty exp_valid_def reg_request_def
      createStore_def first_user_def tbl_first_id_def admin_db_def admin_user_def scenario_db1_def
      scenario_user_def scenario_store_def empty_db_def empty_table_def create_toko_def tbl_create_def
      toko_check_def int32_fits_def varchar_fits_def tbl_insert_def tbl_key_def default_store_def
      foreign_store_def form_value_def mux_var_def atoi_val_def atoi_def is_dec_digit_def zero_user_def Let_def)

lemma scenario_db1_wf: "db_wf scenario_db1"
  by (simp add: db_wf_def tbl_wf_def tbl_key_def scenario_db1_def scenario_user_def scenario_store_def
      empty_db_def empty_table_def zero_user_def)

lemma atoi_val_user1: "atoi_val (mux_var user1_request ''id'') = 1"
  by (simp add: user1_request_def mux_var_def atoi_val_def atoi_def is_dec_digit_def)

section \<open>Properties spanning the components\<close>

text \<open>
  The spec's example runs as stated: registration on the empty database creates user 1
  and store 1, named \<open>Default Store\<close>, owned by it; \<open>GET /users/1/store\<close> returns
  that store; \<open>POST /stores/1/products\<close> with the registration token stores product 1
  in store 1 with slug \<open>kaos-polos\<close>.
\<close>

theorem spec_example_scenario:
  "serve (Some empty_db) reg_request =
     Ok (Some scenario_db1, reply 200 (JRegister (session_token reg_request ''a@example.com'')
                                        scenario_user scenario_store)) \<and>
   serve (Some scenario_db1) get_store_request = Ok (Some scenario_db1, reply 200 (JToko scenario_store)) \<and>
   serve (Some scenario_db1) product_request = Ok (Some scenario_db2, reply 200 (JProduk scenario_product)) \<and>
   toko_id_user scenario_store = user_id scenario_user \<and> nama_toko scenario_store = ''Default Store'' \<and>
   slug scenario_product = ''kaos-polos'' \<and> id_toko scenario_product = toko_id scenario_store"
  by (simp add: scenario_register scenario_get_store scenario_product
      scenario_store_def scenario_user_def scenario_product_def zero_user_def)

text \<open>
  C12: registration can leave a store with no owner: a name longer than the 255 characters
  of its column fails the user insert, the error is discarded, and the default store is
  inserted for the zero user id; the handler answers 200.
\<close>

theorem register_orphan_store:
  "\<exists>d resp. serve (Some empty_db) orphan_request = Ok (Some d, resp) \<and> status resp = 200 \<and> reachable d \<and>
     rows (users d) = [] \<and> map toko_id_user (rows (tokos d)) = [0]"
proof -
  have "reachable orphan_db" using reachable.step [OF reachable.init orphan_run] .
  then show ?thesis using orphan_run
    by (simp add: reply_def orphan_db_def empty_db_def empty_table_def default_store_def)
qed

text \<open>
  C13: registration stores the decoded body as it is: a client can choose its own user id
  and make itself an administrator.
\<close>

theorem register_mass_assignment:
  "\<exists>d resp. serve (Some scenario_db1) admin_request = Ok (Some d, resp) \<and> status resp = 200 \<and> reachable d \<and>
     (\<exists>u\<in>set (rows (users d)). user_id u = 7 \<and> is_admin u \<and> email u = ''m@example.com'')"
proof -
  have "reachable admin_db" using reachable.step [OF scenario_reachable_db1 admin_run] .
  then show ?thesis using admin_run by (simp add: reply_def admin_db_def admin_user_def)
qed

text \<open>
  C11: the gate checks the token, not its owner: the token issued to \<open>a@example.com\<close>
  creates a store for user 7, whose email is another.
\<close>

theorem token_not_bound_to_owner:
  "jwt_parse secret_key (req_now foreign_store_request) (req_auth foreign_store_request) =
     Some \<lparr>claim_email = ''a@example.com'', claim_exp = 1700086400\<rparr> \<and>
   (\<exists>d resp. serve (Some admin_db) foreign_store_request = Ok (Some d, resp) \<and> status resp = 200 \<and>
     reachable d \<and> list_ex (\<lambda>u. user_id u = 7 \<and> email u \<noteq> ''a@example.com'') (rows (users d)) \<and>
     list_ex (\<lambda>s. toko_id_user s = 7 \<and> nama_toko s = ''Toko Palsu'') (rows (tokos d)))"
proof -
  have r: "reachable admin_db" using reachable.step [OF scenario_reachable_db1 admin_run] .
  have "reachable (admin_db\<lparr>tokos := \<lparr>rows = [scenario_store, (default_store 7)\<lparr>toko_id := 2\<rparr>, foreign_store],
                                 auto_inc = 4\<rparr>\<rparr>)"
    using reachable.step [OF r foreign_store_run] .
  then show ?thesis using foreign_store_run
    by (simp add: reply_def admin_db_def admin_user_def scenario_user_def foreign_store_def zero_user_def
        reg_request_def sample_request_def foreign_store_request_def session_token_parse exp_valid_def)
qed

text \<open>
  C14: the email check of \<open>register\<close> and its insert are separate statements: two
  concurrent registrations of the same email both pass the check, both are answered 200,
  and the users table ends with two rows of that email.
\<close>

theorem register_race_duplicate_email:
  "\<exists>d ts. conc_step\<^sup>*\<^sup>* (empty_db, [(reg_request, RCheck), (race_request, RCheck)]) (d, ts) \<and>
     map (\<lambda>(r, pc). case pc of RDone resp \<Rightarrow> status resp | _ \<Rightarrow> 0) ts = [200, 200] \<and>
     map email (rows (users d)) = [''a@example.com'', ''a@example.com'']"
proof -
  obtain s where run: "conc_sched [0, 1, 0, 1, 0, 1] (empty_db, [(reg_request, RCheck), (race_request, RCheck)]) = Some s"
    and p: "map (\<lambda>(r, pc). case pc of RDone resp \<Rightarrow> status resp | _ \<Rightarrow> 0) (snd s) = [200, 200] \<and>
            map email (rows (users (fst s))) = [''a@example.com'', ''a@example.com'']"
    by (simp add: reg_step_def isEmailUsed_def tbl_count_def empty_db_def empty_table_def create_user_def
        create_toko_def tbl_create_def user_check_def toko_check_def int32_fits_def varchar_fits_def
        tbl_insert_def tbl_key_def default_store_def race_request_def reg_request_def sample_request_def
        zero_user_def reply_def Let_def)
  show ?thesis using conc_sched_runs [OF run] p by (intro exI [of _ "fst s"] exI [of _ "snd s"]) simp
qed

section \<open>Witnesses\<close>

theorem serve_unauthenticated_preserves_db_witness:
  "jwt_parse secret_key (req_now unauthenticated_product_request) (req_auth unauthenticated_product_request) = None \<and>
   path_segments (req_path unauthenticated_product_request) \<noteq> Some [''register''] \<and>
   serve (Some scenario_db1) unauthenticated_product_request =
     Ok (Some scenario_db1, reply 401 (JError ''Missing authorization token''))"
proof -
  have j: "jwt_parse secret_key (req_now unauthenticated_product_request) (req_auth unauthenticated_product_request) = None"
    by (simp add: unauthenticated_product_request_def jwt_parse_def split_dots_def)
  have p: "path_segments (req_path unauthenticated_product_request) \<noteq> Some [''register'']"
    by (simp add: unauthenticated_product_request_def product_request_def sample_request_def path_segments_def)
  have s: "serve (Some scenario_db1) unauthenticated_product_request =
     Ok (Some scenario_db1, reply 401 (JError ''Missing authorization token''))"
    by (simp add: serve_def unauthenticated_product_request_def product_request_def sample_request_def
        path_segments_def routes_def authenticate_def)
  show ?thesis using serve_unauthenticated_preserves_db [OF j p s] j p s by simp
qed

theorem reachable_emails_unique_witness:
  "reachable scenario_db2 \<and> distinct (map email (rows (users scenario_db2)))"
  using reachable_emails_unique [OF scenario_reachable_db2] scenario_reachable_db2 by simp

theorem reachable_children_have_parents_witness:
  "reachable scenario_db2 \<and> children_have_parents scenario_db2"
  using reachable_children_have_parents [OF scenario_reachable_db2] scenario_reachable_db2 by simp

theorem reachable_invoice_codes_empty_witness:
  "\<exists>d. reachable d \<and> rows (transaksis d) \<noteq> [] \<and> list_all (\<lambda>x. kode_invoice x = []) (rows (transaksis d))"
proof -
  obtain x where run: "serve (Some scenario_db1) txn_request =
      Ok (Some (scenario_db1\<lparr>transaksis := \<lparr>rows = [x], auto_inc = 2\<rparr>\<rparr>), reply 200 (JTransaksi x))"
    using scenario_transaction by blast
  let ?d = "scenario_db1\<lparr>transaksis := \<lparr>rows = [x], auto_inc = 2\<rparr>\<rparr>"
  have r: "reachable ?d" using reachable.step [OF scenario_reachable_db1 run] .
  show ?thesis using reachable_invoice_codes_empty [OF r] r by (intro exI [of _ ?d]) simp
qed

theorem reachable_register_never_500_witness:
  "reachable scenario_db1 \<and>
   register (Some scenario_db1) reg_request = Ok (Some scenario_db1, reply 400 (JError ''Email already in use'')) \<and>
   status (reply 400 (JError ''Email already in use'')) \<noteq> 500"
proof -
  have run: "register (Some scenario_db1) reg_request =
               Ok (Some scenario_db1, reply 400 (JError ''Email already in use''))"
    by (simp add: register_def isEmailUsed_def tbl_count_def scenario_db1_def scenario_user_def
        reg_request_def zero_user_def)
  show ?thesis using reachable_register_never_500 [OF scenario_reachable_db1 run] scenario_reachable_db1 run
    by simp
qed

theorem register_fresh_email_witness:
  "db_wf empty_db \<and> root_error empty_db = None \<and>
   \<not> list_ex (\<lambda>x. email x = email (req_body reg_request)) (rows (users empty_db)) \<and>
   user_check (req_body reg_request) = None \<and> user_id (req_body reg_request) = 0 \<and>
   auto_inc (users empty_db) \<le> int32_max \<and> auto_inc (tokos empty_db) \<le> int32_max \<and>
   register (Some empty_db) reg_request =
     Ok (Some scenario_db1, reply 200 (JRegister (session_token reg_request ''a@example.com'') scenario_user scenario_store))"
  using register_fresh_email [of empty_db reg_request] empty_db_wf
  by (simp add: empty_db_def empty_table_def reg_request_def sample_request_def user_check_def int32_fits_def
      varchar_fits_def zero_user_def scenario_db1_def scenario_user_def scenario_store_def default_store_def Let_def)

theorem register_duplicate_email_witness:
  "list_ex (\<lambda>x. email x = email (req_body reg_request)) (rows (users scenario_db1)) \<and>
   register (Some scenario_db1) reg_request = Ok (Some scenario_db1, reply 400 (JError ''Email already in use''))"
  using register_duplicate_email [of reg_request scenario_db1]
  by (simp add: scenario_db1_def scenario_user_def reg_request_def)

theorem createProduct_missing_store_witness:
  "\<not> list_ex (\<lambda>s. toko_id s = atoi_val (mux_var (sample_request\<lparr>req_vars := [(''id'', ''9'')]\<rparr>) ''id''))
       (rows (tokos scenario_db1)) \<and>
   createProduct (Some scenario_db1) (sample_request\<lparr>req_vars := [(''id'', ''9'')]\<rparr>) =
     Ok (Some scenario_db1, reply 404 (JError ''Store not found''))"
  using createProduct_missing_store [of "sample_request\<lparr>req_vars := [(''id'', ''9'')]\<rparr>" scenario_db1]
  by (simp add: scenario_db1_def scenario_store_def mux_var_def atoi_val_def atoi_def is_dec_digit_def)

theorem createProduct_out_of_range_price_witness:
  "list_ex (\<lambda>s. toko_id s = atoi_val (mux_var big_price_request ''id'')) (rows (tokos scenario_db1)) \<and>
   2 ^ 31 \<le> sint (atoi_val (form_value big_price_request ''harga_reseller'')) \<and>
   (\<exists>p. createProduct (Some scenario_db1) big_price_request = Ok (Some scenario_db1, reply 200 (JProduk p)) \<and>
        produk_id p = 0 \<and> harga_reseller p = 2 ^ 63 - 1)"
proof -
  have a: "atoi_val (form_value big_price_request ''harga_reseller'') = 2 ^ 63 - 1"
    using atoi_range_error_before_junk by (simp add: big_price_request_def form_value_def atoi_val_def)
  show ?thesis using createProduct_out_of_range_price [of big_price_request scenario_db1] a
    by (simp add: scenario_db1_def scenario_store_def big_price_request_def mux_var_def
        atoi_val_def atoi_def is_dec_digit_def)
qed

theorem getStore_least_store_witness:
  "db_wf scenario_db1 \<and> first_user scenario_db1 (atoi_val (mux_var user1_request ''id'')) \<noteq> None \<and>
   list_ex (\<lambda>s. toko_id_user s = atoi_val (mux_var user1_request ''id'')) (rows (tokos scenario_db1)) \<and>
   (\<exists>st. getStore (Some scenario_db1) user1_request = Ok (Some scenario_db1, reply 200 (JToko st)) \<and>
         st \<in> set (rows (tokos scenario_db1)) \<and> toko_id_user st = 1 \<and>
         (\<forall>s\<in>set (rows (tokos scenario_db1)). toko_id_user s = 1 \<longrightarrow> sint (toko_id st) \<le> sint (toko_id s)))"
  using getStore_least_store [of scenario_db1 user1_request] scenario_db1_wf
  by (simp add: atoi_val_user1 first_user_def tbl_first_id_def scenario_db1_def scenario_user_def scenario_store_def)

theorem createTransaction_any_address_witness:
  "rows (alamats scenario_db1) = [] \<and> db_wf scenario_db1 \<and>
   first_user scenario_db1 (atoi_val (mux_var user1_request ''id'')) = Some scenario_user \<and>
   int32_fits (user_id scenario_user) \<and> int32_fits (atoi_val (form_value user1_request ''id_alamat'')) \<and>
   int32_fits (atoi_val (form_value user1_request ''harga_total'')) \<and>
   varchar_fits (form_value user1_request ''metode_pembayaran'') \<and> auto_inc (transaksis scenario_db1) \<le> int32_max \<and>
   (\<exists>x. createTransaction (Some scenario_db1) user1_request =
          Ok (Some (scenario_db1\<lparr>transaksis := \<lparr>rows = [x], auto_inc = 2\<rparr>\<rparr>), reply 200 (JTransaksi x)) \<and>
        transaksi_id x = 1 \<and> transaksi_id_user x = 1 \<and> id_alamat x = 999 \<and> kode_invoice x = [])"
  using createTransaction_any_address [of scenario_db1 user1_request scenario_user] scenario_db1_wf
  by (simp add: atoi_val_user1 first_user_def tbl_first_id_def scenario_db1_def scenario_user_def
      empty_db_def empty_table_def int32_fits_def varchar_fits_def user1_request_def form_value_def
      mux_var_def atoi_val_def atoi_def is_dec_digit_def zero_user_def)

theorem createCategory_refines_map_insert_witness:
  "db_wf scenario_db1 \<and> varchar_fits (form_value user1_request ''nama_kategori'') \<and>
   auto_inc (kategoris scenario_db1) \<le> int32_max \<and>
   (\<exists>d' k. createCategory (Some scenario_db1) user1_request = Ok (Some d', reply 200 (JKategori k)) \<and>
     tbl_abs kategori_id (kategoris d') = (tbl_abs kategori_id (kategoris scenario_db1))(kategori_id k \<mapsto> k) \<and>
     kategori_id k \<notin> dom (tbl_abs kategori_id (kategoris scenario_db1)) \<and> nama_kategori k = ''Pakaian'' \<and>
     d' = scenario_db1\<lparr>kategoris := kategoris d'\<rparr>)"
  using createCategory_refines_map_insert [of scenario_db1 user1_request] scenario_db1_wf
  by (simp add: scenario_db1_def empty_db_def empty_table_def varchar_fits_def user1_request_def form_value_def)

theorem reachable_slugs_url_safe_witness:
  "reachable scenario_db2 \<and> list_all (\<lambda>p. slug_ok (slug p)) (rows (produks scenario_db2)) \<and>
   map slug (rows (produks scenario_db2)) = [''kaos-polos'']"
  using reachable_slugs_url_safe [OF scenario_reachable_db2] scenario_reachable_db2
  by (simp add: scenario_db2_def scenario_product_def)

theorem serve_store_path_roundtrip_witness:
  "req_method get_store_request = ''GET'' \<and> req_path get_store_request = ''/users/'' @ go_itoa 1 @ ''/store'' \<and>
   serve (Some scenario_db1) get_store_request = Ok (Some scenario_db1, reply 200 (JToko scenario_store))"
proof -
  have i: "go_itoa 1 = ''1''" by (simp add: go_itoa_def nat_digits.simps char_of_nat_eq_iff)
  show ?thesis using serve_store_path_roundtrip [of get_store_request 1 scenario_db1] i
    by (simp add: get_store_request_def sample_request_def first_user_def tbl_first_id_def tbl_where_first_def
        scenario_db1_def scenario_user_def scenario_store_def)
qed

theorem gate_rejects_forged_token_witness:
  "req_auth (sample_request\<lparr>req_auth := signed_string NoneAlg \<lparr>claim_email = ''a@example.com'', claim_exp = 0\<rparr> secret_key\<rparr>)
     = signed_string NoneAlg \<lparr>claim_email = ''a@example.com'', claim_exp = 0\<rparr> secret_key \<and>
   \<not> (is_hmac NoneAlg \<and> secret_key = secret_key) \<and>
   authenticate createCategory (Some scenario_db1)
     (sample_request\<lparr>req_auth := signed_string NoneAlg \<lparr>claim_email = ''a@example.com'', claim_exp = 0\<rparr> secret_key\<rparr>)
   = Ok (Some scenario_db1, reply 401 (JError ''Invalid authorization token''))"
  using gate_rejects_forged_token
    [of "sample_request\<lparr>req_auth := signed_string NoneAlg \<lparr>claim_email = ''a@example.com'', claim_exp = 0\<rparr> secret_key\<rparr>"
        NoneAlg "\<lparr>claim_email = ''a@example.com'', claim_exp = 0\<rparr>" secret_key createCategory "Some scenario_db1"]
  by (simp add: is_hmac_def)

lemma scenario_db2_wf: "db_wf scenario_db2"
  by (simp add: db_wf_def tbl_wf_def tbl_key_def scenario_db2_def scenario_db1_def scenario_user_def
      scenario_store_def scenario_product_def empty_db_def empty_table_def zero_user_def)

theorem reads_list_owner_rows_witness:
  "db_wf scenario_db2 \<and> first_user scenario_db2 (atoi_val (mux_var user1_request ''id'')) \<noteq> None \<and>
   first_toko scenario_db2 (atoi_val (mux_var user1_request ''id'')) \<noteq> None \<and>
   (\<exists>xs. getProducts (Some scenario_db2) user1_request = Ok (Some scenario_db2, reply 200 (JProduks xs)) \<and>
      set xs = {p \<in> set (rows (produks scenario_db2)). id_toko p = atoi_val (mux_var user1_request ''id'')} \<and>
      sorted_wrt (<) (map (\<lambda>p. sint (produk_id p)) xs)) \<and>
   (\<exists>xs. getAddress (Some scenario_db2) user1_request = Ok (Some scenario_db2, reply 200 (JAlamats xs)) \<and>
      set xs = {a \<in> set (rows (alamats scenario_db2)). alamat_id_user a = atoi_val (mux_var user1_request ''id'')} \<and>
      sorted_wrt (<) (map (\<lambda>a. sint (alamat_id a)) xs))"
proof -
  have u: "first_user scenario_db2 (atoi_val (mux_var user1_request ''id'')) \<noteq> None"
    and t: "first_toko scenario_db2 (atoi_val (mux_var user1_request ''id'')) \<noteq> None"
    by (simp_all add: atoi_val_user1 first_user_def first_toko_def tbl_first_id_def scenario_db2_def
        scenario_db1_def scenario_user_def scenario_store_def)
  note R = reads_list_owner_rows [OF scenario_db2_wf, of user1_request]
  have p: "\<exists>xs. getProducts (Some scenario_db2) user1_request = Ok (Some scenario_db2, reply 200 (JProduks xs)) \<and>
      set xs = {p \<in> set (rows (produks scenario_db2)). id_toko p = atoi_val (mux_var user1_request ''id'')} \<and>
      sorted_wrt (<) (map (\<lambda>p. sint (produk_id p)) xs)"
    using mp [OF conjunct2 [OF R] t] .
  have a: "\<exists>xs. getAddress (Some scenario_db2) user1_request = Ok (Some scenario_db2, reply 200 (JAlamats xs)) \<and>
      set xs = {a \<in> set (rows (alamats scenario_db2)). alamat_id_user a = atoi_val (mux_var user1_request ''id'')} \<and>
      sorted_wrt (<) (map (\<lambda>a. sint (alamat_id a)) xs)"
    using conjunct1 [OF mp [OF conjunct1 [OF R] u]] .
  show ?thesis using scenario_db2_wf u t p a by (intro conjI)
qed

theorem createStore_accumulates_witness:
  "db_wf scenario_db1 \<and> first_user scenario_db1 (atoi_val (mux_var second_store_request ''id'')) = Some scenario_user \<and>
   list_ex (\<lambda>s. toko_id_user s = atoi_val (mux_var second_store_request ''id'')) (rows (tokos scenario_db1)) \<and>
   int32_fits (user_id scenario_user) \<and> varchar_fits (form_value second_store_request ''nama_toko'') \<and>
   varchar_fits (form_value second_store_request ''url_toko'') \<and> auto_inc (tokos scenario_db1) \<le> int32_max \<and>
   (\<exists>st d' resp. createStore (Some scenario_db1) second_store_request = Ok (Some d', reply 200 (JToko st)) \<and>
      rows (tokos d') = [scenario_store, st] \<and> toko_id_user st = 1 \<and>
      getStore (Some scenario_db1) second_store_request = Ok (Some scenario_db1, resp) \<and>
      getStore (Some d') second_store_request = Ok (Some d', resp))"
proof -
  have i: "atoi_val (mux_var second_store_request ''id'') = 1"
    using atoi_val_user1 by (simp add: second_store_request_def mux_var_def user1_request_def)
  have u: "first_user scenario_db1 (atoi_val (mux_var second_store_request ''id'')) = Some scenario_user"
    and e: "list_ex (\<lambda>s. toko_id_user s = atoi_val (mux_var second_store_request ''id'')) (rows (tokos scenario_db1))"
    using i by (simp_all add: first_user_def tbl_first_id_def scenario_db1_def scenario_user_def scenario_store_def)
  have f: "int32_fits (user_id scenario_user)" "varchar_fits (form_value second_store_request ''nama_toko'')"
    "varchar_fits (form_value second_store_request ''url_toko'')" "auto_inc (tokos scenario_db1) \<le> int32_max"
    by (simp_all add: scenario_user_def zero_user_def int32_fits_def varchar_fits_def second_store_request_def
        user1_request_def form_value_def scenario_db1_def)
  obtain st d' resp where c: "createStore (Some scenario_db1) second_store_request = Ok (Some d', reply 200 (JToko st))"
    and rw: "rows (tokos d') = rows (tokos scenario_db1) @ [st]"
    and o: "toko_id_user st = atoi_val (mux_var second_store_request ''id'')"
    and g: "getStore (Some scenario_db1) second_store_request = Ok (Some scenario_db1, resp)"
    and g': "getStore (Some d') second_store_request = Ok (Some d', resp)"
    using createStore_accumulates [OF scenario_db1_wf u e f] by blast
  have "rows (tokos d') = [scenario_store, st]" using rw by (simp add: scenario_db1_def)
  moreover have "toko_id_user st = 1" using o i by simp
  ultimately show ?thesis using scenario_db1_wf u e f c g g' by blast
qed

lemma creators_demo_run:
  "\<exists>d' ra rb. cconc_step\<^sup>*\<^sup>* (scenario_db1, [(second_store_request, OStore, CStart), (user1_request, OTransaction, CStart)])
      (d', [(second_store_request, OStore, CDone ra), (user1_request, OTransaction, CDone rb)])"
proof -
  let ?A = second_store_request and ?B = user1_request and ?d = scenario_db1
  have la: "c_lookup OStore ?A ?d = Inl 1" and lb: "c_lookup OTransaction ?B ?d = Inl 1"
    by (simp_all add: c_lookup_def first_user_def tbl_first_id_def scenario_db1_def scenario_user_def
        second_store_request_def user1_request_def sample_request_def mux_var_def atoi_val_def atoi_def Let_def)
  obtain d1 ra where ia: "c_insert OStore ?A 1 ?d = (d1, ra)" by (cases "c_insert OStore ?A 1 ?d")
  obtain d2 rb where ib: "c_insert OTransaction ?B 1 d1 = (d2, rb)" by (cases "c_insert OTransaction ?B 1 d1")
  let ?t0 = "[(?A, OStore, CStart), (?B, OTransaction, CStart)]"
  have s1: "cconc_step (?d, ?t0) (?d, [(?A, OStore, CFound 1), (?B, OTransaction, CStart)])"
    using cconc_step.run [of 0 ?t0 ?A OStore CStart ?d ?d "CFound 1"] la by (simp add: c_step_def)
  have s2: "cconc_step (?d, [(?A, OStore, CFound 1), (?B, OTransaction, CStart)])
                       (?d, [(?A, OStore, CFound 1), (?B, OTransaction, CFound 1)])"
    using cconc_step.run [of 1 "[(?A, OStore, CFound 1), (?B, OTransaction, CStart)]" ?B OTransaction CStart ?d ?d "CFound 1"] lb
    by (simp add: c_step_def)
  have s3: "cconc_step (?d, [(?A, OStore, CFound 1), (?B, OTransaction, CFound 1)])
                       (d1, [(?A, OStore, CDone ra), (?B, OTransaction, CFound 1)])"
    using cconc_step.run [of 0 "[(?A, OStore, CFound 1), (?B, OTransaction, CFound 1)]" ?A OStore "CFound 1" ?d d1 "CDone ra"] ia
    by (simp add: c_step_def)
  have s4: "cconc_step (d1, [(?A, OStore, CDone ra), (?B, OTransaction, CFound 1)])
                       (d2, [(?A, OStore, CDone ra), (?B, OTransaction, CDone rb)])"
    using cconc_step.run [of 1 "[(?A, OStore, CDone ra), (?B, OTransaction, CFound 1)]" ?B OTransaction "CFound 1" d1 d2 "CDone rb"] ib
    by (simp add: c_step_def)
  have "cconc_step\<^sup>*\<^sup>* (?d, ?t0) (d2, [(?A, OStore, CDone ra), (?B, OTransaction, CDone rb)])"
    using s1 s2 s3 s4 by (meson rtranclp.rtrancl_into_rtrancl rtranclp.rtrancl_refl)
  then show ?thesis by blast
qed

theorem creators_serializable_witness:
  "\<exists>s. cconc_step\<^sup>*\<^sup>* (scenario_db1, [(second_store_request, OStore, CStart), (user1_request, OTransaction, CStart)]) s \<and>
     db_wf scenario_db1 \<and> length (done_list (snd s)) = 2 \<and>
     (\<exists>xs. seq_exec scenario_db1 xs (fst s) \<and> mset xs = mset (done_list (snd s)))"
proof -
  obtain d' ra rb where run: "cconc_step\<^sup>*\<^sup>* (scenario_db1, [(second_store_request, OStore, CStart), (user1_request, OTransaction, CStart)])
      (d', [(second_store_request, OStore, CDone ra), (user1_request, OTransaction, CDone rb)])"
    using creators_demo_run by blast
  have "\<exists>xs. seq_exec scenario_db1 xs d' \<and>
          mset xs = mset (done_list [(second_store_request, OStore, CDone ra), (user1_request, OTransaction, CDone rb)])"
    using creators_serializable [OF run scenario_db1_wf] by simp
  then show ?thesis using run scenario_db1_wf
    by (intro exI [of _ "(d', [(second_store_request, OStore, CDone ra), (user1_request, OTransaction, CDone rb)])"])
      (simp add: done_list_def done_of_def)
qed

theorem main_handle_panics_witness:
  "path_segments (req_path get_store_request) = Some [''users'', ''1'', ''store''] \<and>
   spec_endpoint (req_method get_store_request) [''users'', ''1'', ''store''] = Some (getStore, [(''id'', ''1'')]) \<and>
   serve (global_db (main_init scenario_db1)) get_store_request = Panic"
proof -
  have p: "path_segments (req_path get_store_request) = Some [''users'', ''1'', ''store'']"
    by (simp add: get_store_request_def sample_request_def path_segments_def)
  have e: "spec_endpoint (req_method get_store_request) [''users'', ''1'', ''store''] = Some (getStore, [(''id'', ''1'')])"
    by (simp add: get_store_request_def sample_request_def spec_endpoint_def)
  have "serve (global_db (main_init scenario_db1)) get_store_request = Panic"
    using main_handle_panics [OF p e] by (simp add: get_store_request_def sample_request_def)
  then show ?thesis using p e by simp
qed

theorem creators_keep_invariant_witness:
  "\<exists>s. cconc_step\<^sup>*\<^sup>* (scenario_db1, [(second_store_request, OStore, CStart), (user1_request, OTransaction, CStart)]) s \<and>
     srv_inv scenario_db1 \<and> srv_inv (fst s) \<and> list_all (\<lambda>t. \<exists>resp. snd (snd t) = CDone resp) (snd s)"
proof -
  obtain d' ra rb where run: "cconc_step\<^sup>*\<^sup>* (scenario_db1, [(second_store_request, OStore, CStart), (user1_request, OTransaction, CStart)])
      (d', [(second_store_request, OStore, CDone ra), (user1_request, OTransaction, CDone rb)])"
    using creators_demo_run by blast
  have i: "srv_inv scenario_db1" using reachable_srv_inv [OF scenario_reachable_db1] .
  have "srv_inv d'" using creators_keep_invariant [OF run i] by simp
  then show ?thesis using run i
    by (intro exI [of _ "(d', [(second_store_request, OStore, CDone ra), (user1_request, OTransaction, CDone rb)])"]) simp
qed

lemma system_demo_run:
  "\<exists>d' rb. sys_step\<^sup>*\<^sup>* (scenario_db1, [TCreate (user1_request, OTransaction, CStart), TReg (race_request, RCheck)])
      (d', [TCreate (user1_request, OTransaction, CDone rb),
            TReg (race_request, RDone (reply 400 (JError ''Email already in use'')))])"
proof -
  let ?B = user1_request and ?d = scenario_db1 and ?R = race_request
  let ?r400 = "reply 400 (JError ''Email already in use'')"
  have lb: "c_lookup OTransaction ?B ?d = Inl 1"
    by (simp add: c_lookup_def first_user_def tbl_first_id_def scenario_db1_def scenario_user_def
        user1_request_def sample_request_def mux_var_def atoi_val_def atoi_def Let_def)
  have used: "isEmailUsed (Some ?d) (email (req_body ?R))"
    by (simp add: isEmailUsed_def tbl_count_def scenario_db1_def scenario_user_def race_request_def
        reg_request_def sample_request_def zero_user_def)
  obtain d2 rb where ib: "c_insert OTransaction ?B 1 ?d = (d2, rb)" by (cases "c_insert OTransaction ?B 1 ?d")
  let ?t0 = "[TCreate (?B, OTransaction, CStart), TReg (?R, RCheck)]"
  let ?t1 = "[TCreate (?B, OTransaction, CFound 1), TReg (?R, RCheck)]"
  let ?t2 = "[TCreate (?B, OTransaction, CFound 1), TReg (?R, RDone ?r400)]"
  have s1: "sys_step (?d, ?t0) (?d, ?t1)"
    using sys_step.run [of 0 ?t0 ?d ?d "TCreate (?B, OTransaction, CFound 1)"] lb
    by (simp add: sys_thread_step_def c_step_def)
  have s2: "sys_step (?d, ?t1) (?d, ?t2)"
    using sys_step.run [of 1 ?t1 ?d ?d "TReg (?R, RDone ?r400)"] used
    by (simp add: sys_thread_step_def reg_step_def)
  have s3: "sys_step (?d, ?t2) (d2, [TCreate (?B, OTransaction, CDone rb), TReg (?R, RDone ?r400)])"
    using sys_step.run [of 0 ?t2 ?d d2 "TCreate (?B, OTransaction, CDone rb)"] ib
    by (simp add: sys_thread_step_def c_step_def)
  have "sys_step\<^sup>*\<^sup>* (?d, ?t0) (d2, [TCreate (?B, OTransaction, CDone rb), TReg (?R, RDone ?r400)])"
    using s1 s2 s3 by (meson rtranclp.rtrancl_into_rtrancl rtranclp.rtrancl_refl)
  then show ?thesis by blast
qed

theorem system_keeps_integrity_witness:
  "\<exists>s. sys_step\<^sup>*\<^sup>* (scenario_db1, [TCreate (user1_request, OTransaction, CStart), TReg (race_request, RCheck)]) s \<and>
     integrity scenario_db1 \<and> integrity (fst s) \<and>
     tl (snd s) = [TReg (race_request, RDone (reply 400 (JError ''Email already in use'')))]"
proof -
  obtain d' rb where run: "sys_step\<^sup>*\<^sup>* (scenario_db1, [TCreate (user1_request, OTransaction, CStart), TReg (race_request, RCheck)])
      (d', [TCreate (user1_request, OTransaction, CDone rb),
            TReg (race_request, RDone (reply 400 (JError ''Email already in use'')))])"
    using system_demo_run by blast
  have i: "integrity scenario_db1" using reachable_srv_inv [OF scenario_reachable_db1] by (simp add: srv_inv_def)
  have "integrity d'" using system_keeps_integrity [OF run i] by (simp add: sys_fresh_def)
  then show ?thesis using run i
    by (intro exI [of _ "(d', [TCreate (user1_request, OTransaction, CDone rb),
            TReg (race_request, RDone (reply 400 (JError ''Email already in use'')))])"]) simp
qed

end
